theory Spec2Isabelle
  imports Main
begin

section \<open>JavaScript operators on the values the engine handles\<close>

text \<open>
  The synchronisation engine (\<^verbatim>\<open>RemoteMemorySync.ts\<close>) computes on strings, on
  numbers that are epochs in milliseconds, prompt numbers and token counts (all integers,
  modelled as \<^typ>\<open>int\<close>), and on \<^verbatim>\<open>null\<close>, modelled as \<^term>\<open>None\<close>.
  The operators \<^verbatim>\<open>||\<close> and \<^verbatim>\<open>??\<close> are written out at each type the source
  uses them at: \<^verbatim>\<open>a || b\<close> is \<^verbatim>\<open>b\<close> when \<^verbatim>\<open>a\<close> is falsy (\<^verbatim>\<open>null\<close>, the
  empty string, the number 0), \<^verbatim>\<open>a ?? b\<close> is \<^verbatim>\<open>b\<close> only when \<^verbatim>\<open>a\<close> is
  \<^verbatim>\<open>null\<close>.
\<close>

definition truthy_str_null :: "string option \<Rightarrow> bool" where
  "truthy_str_null a = (case a of None \<Rightarrow> False | Some s \<Rightarrow> s \<noteq> [])"

definition or_str :: "string \<Rightarrow> string \<Rightarrow> string" where
  "or_str a b = (if a = [] then b else a)"

definition or_str_null :: "string option \<Rightarrow> string option \<Rightarrow> string option" where
  "or_str_null a b = (if truthy_str_null a then a else b)"

definition or_int :: "int \<Rightarrow> int \<Rightarrow> int" where
  "or_int a b = (if a = 0 then b else a)"

definition or_int_null :: "int option \<Rightarrow> int \<Rightarrow> int" where
  "or_int_null a b = (case a of None \<Rightarrow> b | Some n \<Rightarrow> if n = 0 then b else n)"

definition nullish :: "'a option \<Rightarrow> 'a option \<Rightarrow> 'a option" where
  "nullish a b = (case a of None \<Rightarrow> b | Some v \<Rightarrow> Some v)"

definition nullish_str :: "string option \<Rightarrow> string \<Rightarrow> string" where
  "nullish_str a b = (case a of None \<Rightarrow> b | Some s \<Rightarrow> s)"

section \<open>Payloads and local rows\<close>

text \<open>
  The four payload interfaces and the local rows that extend them with the primary key
  \<^verbatim>\<open>id\<close>. A field shared by several interfaces carries the interface's initial
  (\<open>p_\<close> prompt, \<open>o_\<close> observation, \<open>u_\<close> summary); the session's fields keep the
  source's names, and the rows' \<^verbatim>\<open>id\<close> is \<open>s_id\<close>, \<open>p_id\<close>, \<open>o_id\<close>, \<open>u_id\<close>.
  \<^verbatim>\<open>discovery_tokens\<close> is optional: the source reads it as
  \<^verbatim>\<open>discovery_tokens || 0\<close>, so a missing value is a value it expects.
\<close>

record RemoteSessionPayload =
  content_session_id :: string
  memory_session_id :: "string option"
  project :: string
  user_prompt :: "string option"
  custom_title :: "string option"
  started_at :: string
  started_at_epoch :: int
  completed_at :: "string option"
  completed_at_epoch :: "int option"
  status :: string

record LocalSessionRow = RemoteSessionPayload +
  s_id :: int

record RemotePromptPayload =
  p_content_session_id :: string
  p_project :: string
  p_prompt_number :: int
  p_prompt_text :: string
  p_created_at :: string
  p_created_at_epoch :: int

record LocalPromptRow = RemotePromptPayload +
  p_id :: int

record RemoteObservationPayload =
  o_memory_session_id :: string
  o_project :: string
  o_text :: "string option"
  o_type :: string
  o_title :: "string option"
  o_subtitle :: "string option"
  o_facts :: "string option"
  o_narrative :: "string option"
  o_concepts :: "string option"
  o_files_read :: "string option"
  o_files_modified :: "string option"
  o_prompt_number :: "int option"
  o_discovery_tokens :: "int option"
  o_created_at :: string
  o_created_at_epoch :: int

record LocalObservationRow = RemoteObservationPayload +
  o_id :: int

record RemoteSummaryPayload =
  u_memory_session_id :: string
  u_project :: string
  u_request :: "string option"
  u_investigated :: "string option"
  u_learned :: "string option"
  u_completed :: "string option"
  u_next_steps :: "string option"
  u_files_read :: "string option"
  u_files_edited :: "string option"
  u_notes :: "string option"
  u_prompt_number :: "int option"
  u_discovery_tokens :: "int option"
  u_created_at :: string
  u_created_at_epoch :: int

record LocalSummaryRow = RemoteSummaryPayload +
  u_id :: int

section \<open>The local store\<close>

text \<open>
  The engine reaches the local SQLite store only through the statements it prepares. A
  table is the list of its rows in insertion order; \<^verbatim>\<open>SELECT ... LIMIT 1\<close> is the
  first row that satisfies the \<^verbatim>\<open>WHERE\<close> clause, \<^verbatim>\<open>INSERT\<close> appends a row whose
  \<^verbatim>\<open>id\<close> is one more than the largest in the table, and \<^verbatim>\<open>UPDATE ... WHERE id = ?\<close>
  rewrites the rows with that \<^verbatim>\<open>id\<close>. The table \<^verbatim>\<open>user_prompts\<close> has the columns
  its \<^verbatim>\<open>INSERT\<close> names: the \<^verbatim>\<open>project\<close> of a prompt row is read through the join
  with \<^verbatim>\<open>sdk_sessions\<close>.
\<close>

record user_prompts_row =
  up_id :: int
  up_content_session_id :: string
  up_prompt_number :: int
  up_prompt_text :: string
  up_created_at :: string
  up_created_at_epoch :: int

record database =
  sdk_sessions :: "LocalSessionRow list"
  user_prompts :: "user_prompts_row list"
  observations :: "LocalObservationRow list"
  session_summaries :: "LocalSummaryRow list"

definition fresh_id :: "int list \<Rightarrow> int" where
  "fresh_id ids = foldr max ids 0 + 1"

section \<open>Importing a session document\<close>

text \<open>
  \<^verbatim>\<open>selectSessionStatus\<close> looks the two statuses up in an object literal, so a status
  that names a property every object inherits from \<^verbatim>\<open>Object.prototype\<close> finds that
  property, which is not nullish, and \<^verbatim>\<open>?? 0\<close> does not apply. The inherited properties
  are the twelve of ECMAScript with its Annex B: eleven functions, listed here with the
  name each function carries, and the accessor \<^verbatim>\<open>__proto__\<close>, which yields
  \<^verbatim>\<open>Object.prototype\<close> itself. \<^verbatim>\<open>>=\<close> converts such an operand to a primitive,
  which is a string: the source text of the function, or \<^verbatim>\<open>[object Object]\<close>. The
  source text of a built-in function is \<^verbatim>\<open>function\<close>, a space, the name and a
  parameter list, then a body that differs between engines and that no comparison below
  reaches, since no name here is a prefix of another.
\<close>

definition Object_prototype_functions :: "(string \<times> string) list" where
  "Object_prototype_functions =
     [(''constructor'', ''Object''),
      (''__defineGetter__'', ''__defineGetter__''),
      (''__defineSetter__'', ''__defineSetter__''),
      (''hasOwnProperty'', ''hasOwnProperty''),
      (''__lookupGetter__'', ''__lookupGetter__''),
      (''__lookupSetter__'', ''__lookupSetter__''),
      (''isPrototypeOf'', ''isPrototypeOf''),
      (''propertyIsEnumerable'', ''propertyIsEnumerable''),
      (''toString'', ''toString''),
      (''valueOf'', ''valueOf''),
      (''toLocaleString'', ''toLocaleString'')]"

text \<open>
  The primitive an inherited property converts to, and the operand of \<^verbatim>\<open>>=\<close> that
  \<^verbatim>\<open>priority[status] ?? 0\<close> gives after that conversion: a number of the table, the
  string of an inherited property, or the 0 of \<^verbatim>\<open>?? 0\<close>.
\<close>

definition inherited_text :: "string \<Rightarrow> string option" where
  "inherited_text name =
     (if name = ''__proto__'' then Some ''[object Object]''
      else map_option (\<lambda>f. ''function '' @ f @ ''() { [native code] }'')
             (map_of Object_prototype_functions name))"

definition inherited_property :: "string \<Rightarrow> bool" where
  "inherited_property name = (inherited_text name \<noteq> None)"

datatype priority_value = Rank int | Inherited string

definition status_priority :: "string \<Rightarrow> priority_value" where
  "status_priority status' =
     (case map_of [(''active'', 0), (''failed'', 1), (''completed'', 2)] status' of
        Some n \<Rightarrow> Rank n
      | None \<Rightarrow>
          (case inherited_text status' of
             Some text' \<Rightarrow> Inherited text'
           | None \<Rightarrow> Rank 0))"

text \<open>
  \<^verbatim>\<open>left >= right\<close>. Two numbers compare as numbers. Two strings compare by their
  code units, \<^verbatim>\<open>>=\<close> being the negation of \<^verbatim>\<open><\<close>. A number and one of the strings
  above compare as numbers, the string converts to NaN, and every comparison with NaN is
  false.
\<close>

fun code_unit_less :: "string \<Rightarrow> string \<Rightarrow> bool" where
  "code_unit_less [] [] = False"
| "code_unit_less [] (y # ys) = True"
| "code_unit_less (x # xs) [] = False"
| "code_unit_less (x # xs) (y # ys) =
     ((of_char x :: nat) < of_char y \<or> (x = y \<and> code_unit_less xs ys))"

fun greater_or_equal :: "priority_value \<Rightarrow> priority_value \<Rightarrow> bool" where
  "greater_or_equal (Rank left) (Rank right) = (right \<le> left)"
| "greater_or_equal (Inherited left) (Inherited right) = (\<not> code_unit_less left right)"
| "greater_or_equal (Rank left) (Inherited right) = False"
| "greater_or_equal (Inherited left) (Rank right) = False"

definition selectSessionStatus :: "string \<Rightarrow> string \<Rightarrow> string" where
  "selectSessionStatus currentStatus incomingStatus =
     (if greater_or_equal (status_priority incomingStatus) (status_priority currentStatus)
      then incomingStatus else currentStatus)"

definition resolveImportedMemorySessionId ::
  "database \<Rightarrow> RemoteSessionPayload \<Rightarrow> LocalSessionRow option \<Rightarrow> string option" where
  "resolveImportedMemorySessionId db session existing =
     (if \<not> truthy_str_null (memory_session_id session)
      then Option.bind existing memory_session_id
      else
        (case find (\<lambda>r. memory_session_id r = memory_session_id session
                        \<and> content_session_id r \<noteq> content_session_id session)
                 (sdk_sessions db) of
           Some conflict \<Rightarrow> Option.bind existing memory_session_id
         | None \<Rightarrow> memory_session_id session))"

text \<open>
  The object \<^verbatim>\<open>nextValues\<close> of \<^verbatim>\<open>upsertSession\<close>. It has the nine columns the
  \<^verbatim>\<open>UPDATE\<close> sets; the record carries the existing row's \<^verbatim>\<open>content_session_id\<close>
  beside them, which the source's object does not have and nothing reads.
\<close>

definition nextValues ::
  "database \<Rightarrow> RemoteSessionPayload \<Rightarrow> LocalSessionRow \<Rightarrow> RemoteSessionPayload" where
  "nextValues db session existing =
     \<lparr> content_session_id = content_session_id existing,
       memory_session_id = resolveImportedMemorySessionId db session (Some existing),
       project = or_str (project session) (project existing),
       user_prompt = or_str_null (user_prompt session) (user_prompt existing),
       custom_title = nullish (custom_title session) (custom_title existing),
       started_at = or_str (started_at existing) (started_at session),
       started_at_epoch = or_int (started_at_epoch existing) (started_at_epoch session),
       completed_at = nullish (completed_at session) (completed_at existing),
       completed_at_epoch = nullish (completed_at_epoch session) (completed_at_epoch existing),
       status = selectSessionStatus (status existing) (status session) \<rparr>"

definition changed :: "RemoteSessionPayload \<Rightarrow> LocalSessionRow \<Rightarrow> bool" where
  "changed nv existing =
     (memory_session_id nv \<noteq> memory_session_id existing \<or>
      project nv \<noteq> project existing \<or>
      user_prompt nv \<noteq> user_prompt existing \<or>
      custom_title nv \<noteq> custom_title existing \<or>
      started_at nv \<noteq> started_at existing \<or>
      started_at_epoch nv \<noteq> started_at_epoch existing \<or>
      completed_at nv \<noteq> completed_at existing \<or>
      completed_at_epoch nv \<noteq> completed_at_epoch existing \<or>
      status nv \<noteq> status existing)"

definition update_session_columns :: "RemoteSessionPayload \<Rightarrow> LocalSessionRow \<Rightarrow> LocalSessionRow" where
  "update_session_columns nv r =
     r\<lparr> memory_session_id := memory_session_id nv,
        project := project nv,
        user_prompt := user_prompt nv,
        custom_title := custom_title nv,
        started_at := started_at nv,
        started_at_epoch := started_at_epoch nv,
        completed_at := completed_at nv,
        completed_at_epoch := completed_at_epoch nv,
        status := status nv \<rparr>"

definition upsertSession :: "database \<Rightarrow> RemoteSessionPayload \<Rightarrow> bool \<times> database" where
  "upsertSession db session =
     (let existing = find (\<lambda>r. content_session_id r = content_session_id session) (sdk_sessions db);
          resolvedMemorySessionId = resolveImportedMemorySessionId db session existing
      in case existing of
           None \<Rightarrow>
             (True, db\<lparr> sdk_sessions := sdk_sessions db @
                [\<lparr> content_session_id = content_session_id session,
                    memory_session_id = resolvedMemorySessionId,
                    project = project session,
                    user_prompt = Some (nullish_str (user_prompt session) []),
                    custom_title = custom_title session,
                    started_at = started_at session,
                    started_at_epoch = started_at_epoch session,
                    completed_at = completed_at session,
                    completed_at_epoch = completed_at_epoch session,
                    status = status session,
                    s_id = fresh_id (map s_id (sdk_sessions db)) \<rparr>] \<rparr>)
         | Some e \<Rightarrow>
             (let nv = nextValues db session e in
              if \<not> changed nv e then (False, db)
              else (True, db\<lparr> sdk_sessions :=
                      map (\<lambda>r. if s_id r = s_id e then update_session_columns nv r else r)
                        (sdk_sessions db) \<rparr>)))"

section \<open>Importing prompts, observations and summaries\<close>

definition upsertPrompt :: "database \<Rightarrow> RemotePromptPayload \<Rightarrow> bool \<times> database" where
  "upsertPrompt db prompt =
     (case find (\<lambda>r. up_content_session_id r = p_content_session_id prompt
                     \<and> up_prompt_number r = p_prompt_number prompt) (user_prompts db) of
        Some existing \<Rightarrow> (False, db)
      | None \<Rightarrow>
          (case find (\<lambda>r. content_session_id r = p_content_session_id prompt) (sdk_sessions db) of
             None \<Rightarrow> (False, db)
           | Some sessionExists \<Rightarrow>
               (True, db\<lparr> user_prompts := user_prompts db @
                  [\<lparr> up_id = fresh_id (map up_id (user_prompts db)),
                      up_content_session_id = p_content_session_id prompt,
                      up_prompt_number = p_prompt_number prompt,
                      up_prompt_text = p_prompt_text prompt,
                      up_created_at = p_created_at prompt,
                      up_created_at_epoch = p_created_at_epoch prompt \<rparr>] \<rparr>)))"

definition coalesce_str :: "string option \<Rightarrow> string" where
  "coalesce_str a = (case a of None \<Rightarrow> [] | Some s \<Rightarrow> s)"

definition coalesce_num :: "int option \<Rightarrow> int" where
  "coalesce_num a = (case a of None \<Rightarrow> - 1 | Some n \<Rightarrow> n)"

definition upsertObservation :: "database \<Rightarrow> RemoteObservationPayload \<Rightarrow> bool \<times> database" where
  "upsertObservation db observation =
     (case find (\<lambda>r. memory_session_id r = Some (o_memory_session_id observation)) (sdk_sessions db) of
        None \<Rightarrow> (False, db)
      | Some sessionExists \<Rightarrow>
          (case find (\<lambda>r. o_memory_session_id r = o_memory_session_id observation
                          \<and> o_created_at_epoch r = o_created_at_epoch observation
                          \<and> o_type r = o_type observation
                          \<and> coalesce_str (o_title r) = coalesce_str (o_title observation)
                          \<and> coalesce_str (o_narrative r) = coalesce_str (o_narrative observation))
                   (observations db) of
             Some existing \<Rightarrow> (False, db)
           | None \<Rightarrow>
               (True, db\<lparr> observations := observations db @
                  [\<lparr> o_memory_session_id = o_memory_session_id observation,
                      o_project = o_project observation,
                      o_text = o_text observation,
                      o_type = o_type observation,
                      o_title = o_title observation,
                      o_subtitle = o_subtitle observation,
                      o_facts = o_facts observation,
                      o_narrative = o_narrative observation,
                      o_concepts = o_concepts observation,
                      o_files_read = o_files_read observation,
                      o_files_modified = o_files_modified observation,
                      o_prompt_number = o_prompt_number observation,
                      o_discovery_tokens = Some (or_int_null (o_discovery_tokens observation) 0),
                      o_created_at = o_created_at observation,
                      o_created_at_epoch = o_created_at_epoch observation,
                      o_id = fresh_id (map o_id (observations db)) \<rparr>] \<rparr>)))"

definition upsertSummary :: "database \<Rightarrow> RemoteSummaryPayload \<Rightarrow> bool \<times> database" where
  "upsertSummary db summary =
     (case find (\<lambda>r. memory_session_id r = Some (u_memory_session_id summary)) (sdk_sessions db) of
        None \<Rightarrow> (False, db)
      | Some sessionExists \<Rightarrow>
          (case find (\<lambda>r. u_memory_session_id r = u_memory_session_id summary
                          \<and> u_created_at_epoch r = u_created_at_epoch summary
                          \<and> coalesce_num (u_prompt_number r) = coalesce_num (u_prompt_number summary))
                   (session_summaries db) of
             Some existing \<Rightarrow> (False, db)
           | None \<Rightarrow>
               (True, db\<lparr> session_summaries := session_summaries db @
                  [\<lparr> u_memory_session_id = u_memory_session_id summary,
                      u_project = u_project summary,
                      u_request = u_request summary,
                      u_investigated = u_investigated summary,
                      u_learned = u_learned summary,
                      u_completed = u_completed summary,
                      u_next_steps = u_next_steps summary,
                      u_files_read = u_files_read summary,
                      u_files_edited = u_files_edited summary,
                      u_notes = u_notes summary,
                      u_prompt_number = u_prompt_number summary,
                      u_discovery_tokens = Some (or_int_null (u_discovery_tokens summary) 0),
                      u_created_at = u_created_at summary,
                      u_created_at_epoch = u_created_at_epoch summary,
                      u_id = fresh_id (map u_id (session_summaries db)) \<rparr>] \<rparr>)))"

section \<open>Documents\<close>

text \<open>
  The wire document is a tagged union: its \<^verbatim>\<open>kind\<close> says which payload it carries.
  The payload is a datatype with one constructor per kind and \<open>kind\<close> reads the
  constructor, so a document's kind and payload agree as the source's types require.
\<close>

datatype RemoteMemoryKind = kind_session | kind_prompt | kind_observation | kind_summary

datatype payload =
    SessionPayload RemoteSessionPayload
  | PromptPayload RemotePromptPayload
  | ObservationPayload RemoteObservationPayload
  | SummaryPayload RemoteSummaryPayload

record RemoteMemoryDocument =
  doc_id :: string
  sortEpoch :: int
  updatedAtEpoch :: int
  payload :: payload

definition kind :: "RemoteMemoryDocument \<Rightarrow> RemoteMemoryKind" where
  "kind document =
     (case payload document of
        SessionPayload _ \<Rightarrow> kind_session
      | PromptPayload _ \<Rightarrow> kind_prompt
      | ObservationPayload _ \<Rightarrow> kind_observation
      | SummaryPayload _ \<Rightarrow> kind_summary)"

section \<open>The import transaction\<close>

definition import_document :: "RemoteMemoryDocument \<Rightarrow> nat \<times> database \<Rightarrow> nat \<times> database" where
  "import_document document acc =
     (let (written, db') =
        (case payload document of
           SessionPayload p \<Rightarrow> upsertSession (snd acc) p
         | PromptPayload p \<Rightarrow> upsertPrompt (snd acc) p
         | ObservationPayload p \<Rightarrow> upsertObservation (snd acc) p
         | SummaryPayload p \<Rightarrow> upsertSummary (snd acc) p)
      in (fst acc + (if written then 1 else 0), db'))"

definition orderedDocuments :: "RemoteMemoryDocument list \<Rightarrow> RemoteMemoryDocument list" where
  "orderedDocuments documents =
     filter (\<lambda>document. kind document = kind_session) documents @
     filter (\<lambda>document. kind document = kind_prompt) documents @
     filter (\<lambda>document. kind document = kind_observation) documents @
     filter (\<lambda>document. kind document = kind_summary) documents"

definition importRemoteDocuments :: "database \<Rightarrow> RemoteMemoryDocument list \<Rightarrow> nat \<times> database" where
  "importRemoteDocuments db documents =
     fold import_document (orderedDocuments documents) (0, db)"

section \<open>Library functions the engine calls\<close>

text \<open>
  JSON values, and the three library functions the engine relies on, taken as parameters:
  \<^verbatim>\<open>JSON.stringify\<close>, the SHA-256 digest in hexadecimal of a string
  (\<^verbatim>\<open>createHash('sha256').update(s).digest('hex')\<close>) and
  \<^verbatim>\<open>String.prototype.localeCompare\<close>. An object is the list of its properties in
  insertion order, which is the order \<^verbatim>\<open>JSON.stringify\<close> writes them in.
\<close>

datatype json =
    JNull
  | JBool bool
  | JNum int
  | JStr string
  | JArr "json list"
  | JObj "(string \<times> json) list"

record platform =
  JSON_stringify :: "json \<Rightarrow> string"
  sha256_hex :: "string \<Rightarrow> string"
  localeCompare :: "string \<Rightarrow> string \<Rightarrow> int"

definition json_str_null :: "string option \<Rightarrow> json" where
  "json_str_null a = (case a of None \<Rightarrow> JNull | Some s \<Rightarrow> JStr s)"

definition json_num_null :: "int option \<Rightarrow> json" where
  "json_num_null a = (case a of None \<Rightarrow> JNull | Some n \<Rightarrow> JNum n)"

text \<open>
  What a template literal writes for an integer (\<^verbatim>\<open>Number::toString\<close> of ECMAScript,
  for the integer as the number value). With \<open>n\<close> decimal digits, of which the last
  \<open>n - k\<close> are zeros that no other zero follows: up to 21 digits are written in full; a
  longer number is written in exponent form, its first digit, a point and the other
  \<open>k - 1\<close> significant digits when there are any, then \<^verbatim>\<open>e+\<close> and \<open>n - 1\<close>. A
  negative number is written after a minus sign.
\<close>

definition decimal_digit :: "nat \<Rightarrow> char" where
  "decimal_digit d = ''0123456789'' ! d"

fun decimal_digits :: "nat \<Rightarrow> string" where
  "decimal_digits n =
     (if 10 \<le> n then decimal_digits (n div 10) @ [decimal_digit (n mod 10)]
      else [decimal_digit n])"

definition significant_digits :: "string \<Rightarrow> string" where
  "significant_digits digits = rev (dropWhile (\<lambda>c. c = CHR ''0'') (rev digits))"

definition unsigned_toString :: "nat \<Rightarrow> string" where
  "unsigned_toString x =
     (let digits = decimal_digits x; s = significant_digits digits
      in if length digits \<le> 21 then digits
         else (if length s = 1 then s else hd s # CHR ''.'' # tl s)
              @ ''e+'' @ decimal_digits (length digits - 1))"

definition Number_toString :: "int \<Rightarrow> string" where
  "Number_toString x =
     (if x < 0 then CHR ''-'' # unsigned_toString (nat (- x)) else unsigned_toString (nat x))"

section \<open>Document builders\<close>

definition getSessionStableUpdatedEpoch :: "'a RemoteSessionPayload_scheme \<Rightarrow> int" where
  "getSessionStableUpdatedEpoch session' =
     max (started_at_epoch session')
         (case completed_at_epoch session' of None \<Rightarrow> 0 | Some n \<Rightarrow> n)"

definition buildSessionDocument :: "LocalSessionRow \<Rightarrow> int option \<Rightarrow> RemoteMemoryDocument" where
  "buildSessionDocument session' updatedAtEpoch' =
     \<lparr> doc_id = ''session:'' @ content_session_id session',
       sortEpoch = started_at_epoch session',
       updatedAtEpoch = (case updatedAtEpoch' of None \<Rightarrow> getSessionStableUpdatedEpoch session'
                         | Some n \<Rightarrow> n),
       payload = SessionPayload
         \<lparr> content_session_id = content_session_id session',
           memory_session_id = memory_session_id session',
           project = project session',
           user_prompt = user_prompt session',
           custom_title = custom_title session',
           started_at = started_at session',
           started_at_epoch = started_at_epoch session',
           completed_at = completed_at session',
           completed_at_epoch = completed_at_epoch session',
           status = status session' \<rparr> \<rparr>"

definition buildPromptDocument :: "LocalPromptRow \<Rightarrow> RemoteMemoryDocument" where
  "buildPromptDocument prompt =
     \<lparr> doc_id = ''prompt:'' @ p_content_session_id prompt @ '':''
                  @ Number_toString (p_prompt_number prompt),
       sortEpoch = p_created_at_epoch prompt,
       updatedAtEpoch = p_created_at_epoch prompt,
       payload = PromptPayload
         \<lparr> p_content_session_id = p_content_session_id prompt,
           p_project = p_project prompt,
           p_prompt_number = p_prompt_number prompt,
           p_prompt_text = p_prompt_text prompt,
           p_created_at = p_created_at prompt,
           p_created_at_epoch = p_created_at_epoch prompt \<rparr> \<rparr>"

definition buildHashDocumentId :: "platform \<Rightarrow> string \<Rightarrow> json \<Rightarrow> string" where
  "buildHashDocumentId pf kind' payload' =
     kind' @ '':'' @ sha256_hex pf (JSON_stringify pf payload')"

text \<open>The payload objects as the builders write them, property by property.\<close>

definition observation_object :: "RemoteObservationPayload \<Rightarrow> json" where
  "observation_object p =
     JObj [(''memory_session_id'', JStr (o_memory_session_id p)),
           (''project'', JStr (o_project p)),
           (''text'', json_str_null (o_text p)),
           (''type'', JStr (o_type p)),
           (''title'', json_str_null (o_title p)),
           (''subtitle'', json_str_null (o_subtitle p)),
           (''facts'', json_str_null (o_facts p)),
           (''narrative'', json_str_null (o_narrative p)),
           (''concepts'', json_str_null (o_concepts p)),
           (''files_read'', json_str_null (o_files_read p)),
           (''files_modified'', json_str_null (o_files_modified p)),
           (''prompt_number'', json_num_null (o_prompt_number p)),
           (''discovery_tokens'', json_num_null (o_discovery_tokens p)),
           (''created_at'', JStr (o_created_at p)),
           (''created_at_epoch'', JNum (o_created_at_epoch p))]"

definition summary_object :: "RemoteSummaryPayload \<Rightarrow> json" where
  "summary_object p =
     JObj [(''memory_session_id'', JStr (u_memory_session_id p)),
           (''project'', JStr (u_project p)),
           (''request'', json_str_null (u_request p)),
           (''investigated'', json_str_null (u_investigated p)),
           (''learned'', json_str_null (u_learned p)),
           (''completed'', json_str_null (u_completed p)),
           (''next_steps'', json_str_null (u_next_steps p)),
           (''files_read'', json_str_null (u_files_read p)),
           (''files_edited'', json_str_null (u_files_edited p)),
           (''notes'', json_str_null (u_notes p)),
           (''prompt_number'', json_num_null (u_prompt_number p)),
           (''discovery_tokens'', json_num_null (u_discovery_tokens p)),
           (''created_at'', JStr (u_created_at p)),
           (''created_at_epoch'', JNum (u_created_at_epoch p))]"

definition buildObservationDocument :: "platform \<Rightarrow> LocalObservationRow \<Rightarrow> RemoteMemoryDocument" where
  "buildObservationDocument pf observation =
     (let payload' =
        \<lparr> o_memory_session_id = o_memory_session_id observation,
          o_project = o_project observation,
          o_text = o_text observation,
          o_type = o_type observation,
          o_title = o_title observation,
          o_subtitle = o_subtitle observation,
          o_facts = o_facts observation,
          o_narrative = o_narrative observation,
          o_concepts = o_concepts observation,
          o_files_read = o_files_read observation,
          o_files_modified = o_files_modified observation,
          o_prompt_number = o_prompt_number observation,
          o_discovery_tokens = Some (or_int_null (o_discovery_tokens observation) 0),
          o_created_at = o_created_at observation,
          o_created_at_epoch = o_created_at_epoch observation \<rparr>
      in \<lparr> doc_id = buildHashDocumentId pf ''observation'' (observation_object payload'),
           sortEpoch = o_created_at_epoch observation,
           updatedAtEpoch = o_created_at_epoch observation,
           payload = ObservationPayload payload' \<rparr>)"

definition buildSummaryDocument :: "platform \<Rightarrow> LocalSummaryRow \<Rightarrow> RemoteMemoryDocument" where
  "buildSummaryDocument pf summary =
     (let payload' =
        \<lparr> u_memory_session_id = u_memory_session_id summary,
          u_project = u_project summary,
          u_request = u_request summary,
          u_investigated = u_investigated summary,
          u_learned = u_learned summary,
          u_completed = u_completed summary,
          u_next_steps = u_next_steps summary,
          u_files_read = u_files_read summary,
          u_files_edited = u_files_edited summary,
          u_notes = u_notes summary,
          u_prompt_number = u_prompt_number summary,
          u_discovery_tokens = Some (or_int_null (u_discovery_tokens summary) 0),
          u_created_at = u_created_at summary,
          u_created_at_epoch = u_created_at_epoch summary \<rparr>
      in \<lparr> doc_id = buildHashDocumentId pf ''summary'' (summary_object payload'),
           sortEpoch = u_created_at_epoch summary,
           updatedAtEpoch = u_created_at_epoch summary,
           payload = SummaryPayload payload' \<rparr>)"

section \<open>Local readers\<close>

text \<open>
  \<^verbatim>\<open>ORDER BY ... ASC\<close> is a stable sort of the rows in table order.
  The prompt queries join \<^verbatim>\<open>user_prompts\<close> to \<^verbatim>\<open>sdk_sessions\<close> on
  \<^verbatim>\<open>content_session_id\<close> with a left join: a prompt yields one row per matching
  session, and one row with the project \<^verbatim>\<open>''\<close> when no session matches.
\<close>

definition getAllSessions :: "database \<Rightarrow> LocalSessionRow list" where
  "getAllSessions db = sort_key started_at_epoch (sdk_sessions db)"

definition prompt_join_row :: "user_prompts_row \<Rightarrow> string \<Rightarrow> LocalPromptRow" where
  "prompt_join_row up project' =
     \<lparr> p_content_session_id = up_content_session_id up,
       p_project = project',
       p_prompt_number = up_prompt_number up,
       p_prompt_text = up_prompt_text up,
       p_created_at = up_created_at up,
       p_created_at_epoch = up_created_at_epoch up,
       p_id = up_id up \<rparr>"

definition prompt_left_join :: "database \<Rightarrow> LocalPromptRow list" where
  "prompt_left_join db =
     concat (map (\<lambda>up.
        (case filter (\<lambda>s. content_session_id s = up_content_session_id up) (sdk_sessions db) of
           [] \<Rightarrow> [prompt_join_row up []]
         | matches \<Rightarrow> map (\<lambda>s. prompt_join_row up (project s)) matches))
       (user_prompts db))"

definition getAllPrompts :: "database \<Rightarrow> LocalPromptRow list" where
  "getAllPrompts db = sort_key p_created_at_epoch (prompt_left_join db)"

definition getAllObservations :: "database \<Rightarrow> LocalObservationRow list" where
  "getAllObservations db = sort_key o_created_at_epoch (observations db)"

definition getAllSummaries :: "database \<Rightarrow> LocalSummaryRow list" where
  "getAllSummaries db = sort_key u_created_at_epoch (session_summaries db)"

definition getPromptsSince :: "database \<Rightarrow> int \<Rightarrow> LocalPromptRow list" where
  "getPromptsSince db sinceEpoch =
     sort_key p_created_at_epoch
       (filter (\<lambda>r. sinceEpoch \<le> p_created_at_epoch r) (prompt_left_join db))"

definition getObservationsSince :: "database \<Rightarrow> int \<Rightarrow> LocalObservationRow list" where
  "getObservationsSince db sinceEpoch =
     sort_key o_created_at_epoch
       (filter (\<lambda>r. sinceEpoch \<le> o_created_at_epoch r) (observations db))"

definition getSummariesSince :: "database \<Rightarrow> int \<Rightarrow> LocalSummaryRow list" where
  "getSummariesSince db sinceEpoch =
     sort_key u_created_at_epoch
       (filter (\<lambda>r. sinceEpoch \<le> u_created_at_epoch r) (session_summaries db))"

definition getSessionByContentSessionId :: "database \<Rightarrow> string \<Rightarrow> LocalSessionRow option" where
  "getSessionByContentSessionId db contentSessionId =
     find (\<lambda>r. content_session_id r = contentSessionId) (sdk_sessions db)"

definition getSessionByMemorySessionId :: "database \<Rightarrow> string \<Rightarrow> LocalSessionRow option" where
  "getSessionByMemorySessionId db memorySessionId =
     find (\<lambda>r. memory_session_id r = Some memorySessionId) (sdk_sessions db)"

definition getPromptById :: "database \<Rightarrow> int \<Rightarrow> LocalPromptRow option" where
  "getPromptById db promptId = find (\<lambda>r. p_id r = promptId) (prompt_left_join db)"

definition getObservationById :: "database \<Rightarrow> int \<Rightarrow> LocalObservationRow option" where
  "getObservationById db observationId = find (\<lambda>r. o_id r = observationId) (observations db)"

definition getSummaryById :: "database \<Rightarrow> int \<Rightarrow> LocalSummaryRow option" where
  "getSummaryById db summaryId = find (\<lambda>r. u_id r = summaryId) (session_summaries db)"

section \<open>Collecting the documents of a push\<close>

text \<open>
  The collectors gather documents in a \<^verbatim>\<open>Map\<close> keyed by document id. A
  \<^verbatim>\<open>Map\<close> iterates in the order in which its keys were first set, so it is the list
  of its entries in that order: \<open>map_set\<close> replaces the value of a key that is present
  where it stands and appends a new key at the end. Assigning a property of an object
  behaves the same way.
\<close>

type_synonym document_map = "(string \<times> RemoteMemoryDocument) list"

fun map_set :: "('k \<times> 'v) list \<Rightarrow> 'k \<Rightarrow> 'v \<Rightarrow> ('k \<times> 'v) list" where
  "map_set [] k v = [(k, v)]"
| "map_set ((k', v') # m) k v = (if k' = k then (k, v) # m else (k', v') # map_set m k v)"

definition addDocument :: "document_map \<Rightarrow> RemoteMemoryDocument \<Rightarrow> document_map" where
  "addDocument documents document =
     (case map_of documents (doc_id document) of
        None \<Rightarrow> map_set documents (doc_id document) document
      | Some existing \<Rightarrow>
          if updatedAtEpoch existing \<le> updatedAtEpoch document
          then map_set documents (doc_id document) document
          else documents)"

text \<open>
  \<^verbatim>\<open>Array.prototype.sort\<close> is stable and places \<open>left\<close> before \<open>right\<close> when the
  comparator is negative: an insertion sort that keeps equal elements in their order.
\<close>

definition compareDocuments :: "platform \<Rightarrow> RemoteMemoryDocument \<Rightarrow> RemoteMemoryDocument \<Rightarrow> int" where
  "compareDocuments pf left right =
     (if updatedAtEpoch left \<noteq> updatedAtEpoch right
      then updatedAtEpoch left - updatedAtEpoch right
      else localeCompare pf (doc_id left) (doc_id right))"

fun insert_sorted :: "('a \<Rightarrow> 'a \<Rightarrow> int) \<Rightarrow> 'a \<Rightarrow> 'a list \<Rightarrow> 'a list" where
  "insert_sorted c x [] = [x]"
| "insert_sorted c x (y # ys) = (if c x y \<le> 0 then x # y # ys else y # insert_sorted c x ys)"

definition array_sort :: "('a \<Rightarrow> 'a \<Rightarrow> int) \<Rightarrow> 'a list \<Rightarrow> 'a list" where
  "array_sort c xs = foldr (insert_sorted c) xs []"

definition sortDocuments :: "platform \<Rightarrow> document_map \<Rightarrow> RemoteMemoryDocument list" where
  "sortDocuments pf documents = array_sort (compareDocuments pf) (map snd documents)"

definition addDocuments :: "RemoteMemoryDocument list \<Rightarrow> document_map \<Rightarrow> document_map" where
  "addDocuments batch documents = fold (\<lambda>document m. addDocument m document) batch documents"

definition collectPromptDocuments ::
  "platform \<Rightarrow> database \<Rightarrow> LocalPromptRow list \<Rightarrow> RemoteMemoryDocument list" where
  "collectPromptDocuments pf db prompts =
     sortDocuments pf
       (fold (\<lambda>prompt documents.
            (let documents1 = addDocument documents (buildPromptDocument prompt) in
             case getSessionByContentSessionId db (p_content_session_id prompt) of
               None \<Rightarrow> documents1
             | Some session' \<Rightarrow>
                 addDocument documents1
                   (buildSessionDocument session' (Some (p_created_at_epoch prompt)))))
          prompts [])"

definition collectObservationDocuments ::
  "platform \<Rightarrow> database \<Rightarrow> LocalObservationRow list \<Rightarrow> RemoteMemoryDocument list" where
  "collectObservationDocuments pf db observations' =
     sortDocuments pf
       (fold (\<lambda>observation documents.
            (let documents1 = addDocument documents (buildObservationDocument pf observation) in
             case getSessionByMemorySessionId db (o_memory_session_id observation) of
               None \<Rightarrow> documents1
             | Some session' \<Rightarrow>
                 addDocument documents1
                   (buildSessionDocument session' (Some (o_created_at_epoch observation)))))
          observations' [])"

definition collectSummaryDocuments ::
  "platform \<Rightarrow> database \<Rightarrow> LocalSummaryRow list \<Rightarrow> RemoteMemoryDocument list" where
  "collectSummaryDocuments pf db summaries =
     sortDocuments pf
       (fold (\<lambda>summary documents.
            (let documents1 = addDocument documents (buildSummaryDocument pf summary) in
             case getSessionByMemorySessionId db (u_memory_session_id summary) of
               None \<Rightarrow> documents1
             | Some session' \<Rightarrow>
                 addDocument documents1
                   (buildSessionDocument session' (Some (u_created_at_epoch summary)))))
          summaries [])"

definition collectBootstrapDocuments :: "platform \<Rightarrow> database \<Rightarrow> RemoteMemoryDocument list" where
  "collectBootstrapDocuments pf db =
     (let documents1 = fold (\<lambda>session' documents.
                           addDocument documents (buildSessionDocument session' None))
                         (getAllSessions db) [];
          documents2 = fold (\<lambda>prompt documents.
                           addDocuments (collectPromptDocuments pf db [prompt]) documents)
                         (getAllPrompts db) documents1;
          documents3 = fold (\<lambda>observation documents.
                           addDocuments (collectObservationDocuments pf db [observation]) documents)
                         (getAllObservations db) documents2;
          documents4 = fold (\<lambda>summary documents.
                           addDocuments (collectSummaryDocuments pf db [summary]) documents)
                         (getAllSummaries db) documents3
      in sortDocuments pf documents4)"

definition collectIncrementalDocuments ::
  "platform \<Rightarrow> database \<Rightarrow> int \<Rightarrow> RemoteMemoryDocument list" where
  "collectIncrementalDocuments pf db sinceEpoch =
     (let documents1 = fold (\<lambda>prompt documents.
                           addDocuments (collectPromptDocuments pf db [prompt]) documents)
                         (getPromptsSince db sinceEpoch) [];
          documents2 = fold (\<lambda>observation documents.
                           addDocuments (collectObservationDocuments pf db [observation]) documents)
                         (getObservationsSince db sinceEpoch) documents1;
          documents3 = fold (\<lambda>summary documents.
                           addDocuments (collectSummaryDocuments pf db [summary]) documents)
                         (getSummariesSince db sinceEpoch) documents2
      in sortDocuments pf documents3)"

definition getMaxUpdatedEpoch :: "RemoteMemoryDocument list \<Rightarrow> int" where
  "getMaxUpdatedEpoch documents =
     fold (\<lambda>document maxEpoch. max maxEpoch (updatedAtEpoch document)) documents 0"

section \<open>The documents a collector adds\<close>

text \<open>
  The sequence of documents each collector passes to \<^verbatim>\<open>addDocument\<close>, in the order
  of the calls: the row's document and, when the owning session is found, the session's
  document bumped to the row's epoch; for the bootstrap and incremental collectors, the
  output of the per-row collector for every row.
\<close>

definition prompt_added :: "database \<Rightarrow> LocalPromptRow \<Rightarrow> RemoteMemoryDocument list" where
  "prompt_added db prompt =
     buildPromptDocument prompt #
       (case getSessionByContentSessionId db (p_content_session_id prompt) of
          None \<Rightarrow> []
        | Some session' \<Rightarrow> [buildSessionDocument session' (Some (p_created_at_epoch prompt))])"

definition observation_added ::
  "platform \<Rightarrow> database \<Rightarrow> LocalObservationRow \<Rightarrow> RemoteMemoryDocument list" where
  "observation_added pf db observation =
     buildObservationDocument pf observation #
       (case getSessionByMemorySessionId db (o_memory_session_id observation) of
          None \<Rightarrow> []
        | Some session' \<Rightarrow> [buildSessionDocument session' (Some (o_created_at_epoch observation))])"

definition summary_added ::
  "platform \<Rightarrow> database \<Rightarrow> LocalSummaryRow \<Rightarrow> RemoteMemoryDocument list" where
  "summary_added pf db summary =
     buildSummaryDocument pf summary #
       (case getSessionByMemorySessionId db (u_memory_session_id summary) of
          None \<Rightarrow> []
        | Some session' \<Rightarrow> [buildSessionDocument session' (Some (u_created_at_epoch summary))])"

definition incremental_added :: "platform \<Rightarrow> database \<Rightarrow> int \<Rightarrow> RemoteMemoryDocument list" where
  "incremental_added pf db sinceEpoch =
     concat (map (\<lambda>prompt. collectPromptDocuments pf db [prompt]) (getPromptsSince db sinceEpoch)) @
     concat (map (\<lambda>observation. collectObservationDocuments pf db [observation])
               (getObservationsSince db sinceEpoch)) @
     concat (map (\<lambda>summary. collectSummaryDocuments pf db [summary]) (getSummariesSince db sinceEpoch))"

definition bootstrap_added :: "platform \<Rightarrow> database \<Rightarrow> RemoteMemoryDocument list" where
  "bootstrap_added pf db =
     map (\<lambda>session'. buildSessionDocument session' None) (getAllSessions db) @
     concat (map (\<lambda>prompt. collectPromptDocuments pf db [prompt]) (getAllPrompts db)) @
     concat (map (\<lambda>observation. collectObservationDocuments pf db [observation])
               (getAllObservations db)) @
     concat (map (\<lambda>summary. collectSummaryDocuments pf db [summary]) (getAllSummaries db))"

definition push_batch :: "platform \<Rightarrow> RemoteMemoryDocument list \<Rightarrow> RemoteMemoryDocument list" where
  "push_batch pf added = sortDocuments pf (addDocuments added [])"

definition consistent_comparator :: "platform \<Rightarrow> bool" where
  "consistent_comparator pf =
     ((\<forall>a b. localeCompare pf a b \<le> 0 \<or> localeCompare pf b a \<le> 0)
      \<and> (\<forall>a b c. localeCompare pf a b \<le> 0 \<and> localeCompare pf b c \<le> 0
                   \<longrightarrow> localeCompare pf a c \<le> 0))"

definition sorted_by_epoch_and_id :: "platform \<Rightarrow> RemoteMemoryDocument list \<Rightarrow> bool" where
  "sorted_by_epoch_and_id pf documents =
     sorted_wrt (\<lambda>left right.
        updatedAtEpoch left < updatedAtEpoch right
        \<or> (updatedAtEpoch left = updatedAtEpoch right
            \<and> localeCompare pf (doc_id left) (doc_id right) \<le> 0)) documents"

section \<open>The state file\<close>

text \<open>
  The file system as the engine sees it at a path: nothing there (\<^verbatim>\<open>existsSync\<close> is
  false), something \<^verbatim>\<open>readFileSync\<close> throws on, a text \<^verbatim>\<open>JSON.parse\<close> throws
  on, or a text that parses to a JSON value. A file is identified with the value it parses
  to, so writing \<^verbatim>\<open>JSON.stringify(state, null, 2)\<close> stores \<open>Json state\<close>. Creating
  the parent directory and writing the file are taken to succeed.
\<close>

datatype file_content = Unreadable | Malformed | Json json

type_synonym filesystem = "string \<Rightarrow> file_content option"

datatype js_error = ReadError | SyntaxError | TypeError

text \<open>
  Reading a property: \<^verbatim>\<open>undefined\<close> is \<^term>\<open>None\<close>. Only an object parsed from JSON
  has the properties read here (\<^verbatim>\<open>version\<close>, \<^verbatim>\<open>targets\<close>, a fingerprint); reading
  a property of \<^verbatim>\<open>null\<close> throws and is handled where it can happen.
\<close>

definition get_property :: "json \<Rightarrow> string \<Rightarrow> json option" where
  "get_property v k = (case v of JObj kvs \<Rightarrow> map_of kvs k | _ \<Rightarrow> None)"

definition truthy :: "json option \<Rightarrow> bool" where
  "truthy v =
     (case v of
        None \<Rightarrow> False
      | Some JNull \<Rightarrow> False
      | Some (JBool b) \<Rightarrow> b
      | Some (JNum n) \<Rightarrow> n \<noteq> 0
      | Some (JStr s) \<Rightarrow> s \<noteq> []
      | Some (JArr xs) \<Rightarrow> True
      | Some (JObj kvs) \<Rightarrow> True)"

definition STATE_VERSION :: int where
  "STATE_VERSION = 1"

definition empty_state :: json where
  "empty_state = JObj [(''version'', JNum STATE_VERSION), (''targets'', JObj [])]"

text \<open>The body of the \<^verbatim>\<open>try\<close> block of \<^verbatim>\<open>loadStateFile\<close>, and the function with its catch.\<close>

definition loadStateFile_try :: "filesystem \<Rightarrow> string \<Rightarrow> js_error + json" where
  "loadStateFile_try fs statePath =
     (case fs statePath of
        None \<Rightarrow> Inr empty_state
      | Some Unreadable \<Rightarrow> Inl ReadError
      | Some Malformed \<Rightarrow> Inl SyntaxError
      | Some (Json parsed) \<Rightarrow>
          (case parsed of
             JNull \<Rightarrow> Inl TypeError
           | _ \<Rightarrow>
               if get_property parsed ''version'' \<noteq> Some (JNum STATE_VERSION)
                  \<or> \<not> truthy (get_property parsed ''targets'')
               then Inr empty_state
               else Inr parsed))"

definition loadStateFile :: "filesystem \<Rightarrow> string \<Rightarrow> json" where
  "loadStateFile fs statePath =
     (case loadStateFile_try fs statePath of
        Inl error \<Rightarrow> empty_state
      | Inr state \<Rightarrow> state)"

definition saveStateFile :: "filesystem \<Rightarrow> string \<Rightarrow> json \<Rightarrow> filesystem" where
  "saveStateFile fs statePath state = fs(statePath \<mapsto> Json state)"

section \<open>Target state\<close>

text \<open>
  The cursors of one backend target. The source casts the parsed file to
  \<^verbatim>\<open>RemoteSyncStateFile\<close> without checking it; the model reads the target's entry at
  that type and stops with \<^term>\<open>None\<close> when the file does not have it (\<^verbatim>\<open>targets\<close>
  is not an object, or the entry is not an object with a boolean and two numbers), where
  the source would go on computing with coerced values.
\<close>

record RemoteSyncTargetState =
  bootstrapComplete :: bool
  lastLocalPushEpoch :: int
  lastPullEpoch :: int

definition initial_target_state :: RemoteSyncTargetState where
  "initial_target_state = \<lparr> bootstrapComplete = False, lastLocalPushEpoch = 0, lastPullEpoch = 0 \<rparr>"

definition asTargetState :: "json \<Rightarrow> RemoteSyncTargetState option" where
  "asTargetState v =
     (case (get_property v ''bootstrapComplete'', get_property v ''lastLocalPushEpoch'',
            get_property v ''lastPullEpoch'') of
        (Some (JBool b), Some (JNum p), Some (JNum q)) \<Rightarrow>
          Some \<lparr> bootstrapComplete = b, lastLocalPushEpoch = p, lastPullEpoch = q \<rparr>
      | _ \<Rightarrow> None)"

definition target_state_object :: "RemoteSyncTargetState \<Rightarrow> json" where
  "target_state_object state =
     JObj [(''bootstrapComplete'', JBool (bootstrapComplete state)),
           (''lastLocalPushEpoch'', JNum (lastLocalPushEpoch state)),
           (''lastPullEpoch'', JNum (lastPullEpoch state))]"

definition loadTargetState :: "filesystem \<Rightarrow> string \<Rightarrow> string \<Rightarrow> RemoteSyncTargetState option" where
  "loadTargetState fs statePath fingerprint =
     (case get_property (loadStateFile fs statePath) ''targets'' of
        Some (JObj targets) \<Rightarrow>
          (case map_of targets fingerprint of
             None \<Rightarrow> Some initial_target_state
           | Some JNull \<Rightarrow> Some initial_target_state
           | Some v \<Rightarrow> asTargetState v)
      | _ \<Rightarrow> None)"

definition saveTargetState ::
  "filesystem \<Rightarrow> string \<Rightarrow> string \<Rightarrow> RemoteSyncTargetState \<Rightarrow> filesystem option" where
  "saveTargetState fs statePath fingerprint targetState =
     (case loadStateFile fs statePath of
        JObj fileState \<Rightarrow>
          (case map_of fileState ''targets'' of
             Some (JObj targets) \<Rightarrow>
               Some (saveStateFile fs statePath
                 (JObj (map_set fileState ''targets''
                    (JObj (map_set targets fingerprint (target_state_object targetState))))))
           | _ \<Rightarrow> None)
      | _ \<Rightarrow> None)"

section \<open>The backend and the world the engine runs in\<close>

text \<open>
  The backend interface, over any type \<open>'b\<close> of backend states. Each operation returns
  the backend's next state and whether its promise resolved: \<^term>\<open>False\<close>, or
  \<^term>\<open>None\<close> for the fetch, is a rejection. The world is the local store, the file
  system, the backend's state, and the list of the backend calls made so far with their
  results, which the engine never reads.
\<close>

record 'b RemoteMemoryBackend =
  targetFingerprint :: string
  initialize :: "'b \<Rightarrow> bool \<times> 'b"
  upsertDocuments :: "RemoteMemoryDocument list \<Rightarrow> 'b \<Rightarrow> bool \<times> 'b"
  fetchDocumentsUpdatedSince :: "int \<Rightarrow> 'b \<Rightarrow> RemoteMemoryDocument list option \<times> 'b"

datatype backend_call =
    InitializeCall bool
  | UpsertCall "RemoteMemoryDocument list" bool
  | FetchCall int "RemoteMemoryDocument list option"

record 'b world =
  local_db :: database
  disk :: filesystem
  remote :: 'b
  calls :: "backend_call list"

record 'b RemoteMemorySync =
  backend :: "'b RemoteMemoryBackend"
  statePath :: string
  lib :: platform

text \<open>
  How a task ends: it completes, its promise rejects with a backend error, or the state
  file is not of the type the source casts it to (see \<open>loadTargetState\<close>).
\<close>

datatype outcome = Completed | Rejected | IllTyped

definition LOCAL_INCREMENTAL_OVERLAP_MS :: int where
  "LOCAL_INCREMENTAL_OVERLAP_MS = 5000"

definition REMOTE_INCREMENTAL_OVERLAP_MS :: int where
  "REMOTE_INCREMENTAL_OVERLAP_MS = 5000"

definition load_state :: "'b RemoteMemorySync \<Rightarrow> 'b world \<Rightarrow> RemoteSyncTargetState option" where
  "load_state sync w = loadTargetState (disk w) (statePath sync) (targetFingerprint (backend sync))"

definition save_state :: "'b RemoteMemorySync \<Rightarrow> 'b world \<Rightarrow> RemoteSyncTargetState \<Rightarrow> 'b world option" where
  "save_state sync w targetState =
     map_option (\<lambda>fs'. w\<lparr> disk := fs' \<rparr>)
       (saveTargetState (disk w) (statePath sync) (targetFingerprint (backend sync)) targetState)"

section \<open>The synchronisation cycle\<close>

definition pushDocuments ::
  "'b RemoteMemorySync \<Rightarrow> 'b world \<Rightarrow> RemoteMemoryDocument list \<Rightarrow> outcome \<times> 'b world" where
  "pushDocuments sync w documents =
     (if documents = [] then (Completed, w)
      else
        (let (ok, remote') = upsertDocuments (backend sync) documents (remote w);
             w1 = w\<lparr> remote := remote', calls := calls w @ [UpsertCall documents ok] \<rparr>
         in if \<not> ok then (Rejected, w1)
            else
              (case load_state sync w1 of
                 None \<Rightarrow> (IllTyped, w1)
               | Some state \<Rightarrow>
                   (case save_state sync w1
                           (state\<lparr> lastLocalPushEpoch :=
                              max (lastLocalPushEpoch state) (getMaxUpdatedEpoch documents) \<rparr>) of
                      None \<Rightarrow> (IllTyped, w1)
                    | Some w2 \<Rightarrow> (Completed, w2)))))"

text \<open>
  The three phases of \<^verbatim>\<open>performSynchronization\<close> after the state is loaded. Each
  takes the local \<^verbatim>\<open>state\<close> object and the world and returns them updated, with the
  outcome so far.
\<close>

definition bootstrap_phase ::
  "'b RemoteMemorySync \<Rightarrow> bool \<Rightarrow> RemoteSyncTargetState \<Rightarrow> 'b world
     \<Rightarrow> outcome \<times> RemoteSyncTargetState \<times> 'b world" where
  "bootstrap_phase sync bootstrapLocal state w =
     (if bootstrapLocal \<and> \<not> bootstrapComplete state
      then
        (let bootstrapDocuments = collectBootstrapDocuments (lib sync) (local_db w) in
         case pushDocuments sync w bootstrapDocuments of
           (Completed, w1) \<Rightarrow>
             (Completed,
              state\<lparr> bootstrapComplete := True,
                     lastLocalPushEpoch :=
                       max (lastLocalPushEpoch state) (getMaxUpdatedEpoch bootstrapDocuments) \<rparr>,
              w1)
         | (failure, w1) \<Rightarrow> (failure, state, w1))
      else (Completed, state, w))"

definition incremental_phase ::
  "'b RemoteMemorySync \<Rightarrow> RemoteSyncTargetState \<Rightarrow> 'b world
     \<Rightarrow> outcome \<times> RemoteSyncTargetState \<times> 'b world" where
  "incremental_phase sync state w =
     (let localSince = max 0 (lastLocalPushEpoch state - LOCAL_INCREMENTAL_OVERLAP_MS);
          incrementalDocuments = collectIncrementalDocuments (lib sync) (local_db w) localSince
      in if incrementalDocuments \<noteq> []
         then
           (case pushDocuments sync w incrementalDocuments of
              (Completed, w1) \<Rightarrow>
                (Completed,
                 state\<lparr> lastLocalPushEpoch :=
                          max (lastLocalPushEpoch state) (getMaxUpdatedEpoch incrementalDocuments) \<rparr>,
                 w1)
            | (failure, w1) \<Rightarrow> (failure, state, w1))
         else (Completed, state, w))"

definition pull_phase ::
  "'b RemoteMemorySync \<Rightarrow> RemoteSyncTargetState \<Rightarrow> 'b world
     \<Rightarrow> outcome \<times> RemoteSyncTargetState \<times> 'b world" where
  "pull_phase sync state w =
     (let remoteSince = max 0 (lastPullEpoch state - REMOTE_INCREMENTAL_OVERLAP_MS);
          (fetched, remote') = fetchDocumentsUpdatedSince (backend sync) remoteSince (remote w);
          w1 = w\<lparr> remote := remote', calls := calls w @ [FetchCall remoteSince fetched] \<rparr>
      in case fetched of
           None \<Rightarrow> (Rejected, state, w1)
         | Some remoteDocuments \<Rightarrow>
             if remoteDocuments \<noteq> []
             then (Completed,
                   state\<lparr> lastPullEpoch :=
                            max (lastPullEpoch state) (getMaxUpdatedEpoch remoteDocuments) \<rparr>,
                   w1\<lparr> local_db := snd (importRemoteDocuments (local_db w1) remoteDocuments) \<rparr>)
             else (Completed, state, w1))"

definition performSynchronization ::
  "'b RemoteMemorySync \<Rightarrow> 'b world \<Rightarrow> bool \<Rightarrow> outcome \<times> 'b world" where
  "performSynchronization sync w bootstrapLocal =
     (let (ok, remote') = initialize (backend sync) (remote w);
          w0 = w\<lparr> remote := remote', calls := calls w @ [InitializeCall ok] \<rparr>
      in if \<not> ok then (Rejected, w0)
         else
           (case load_state sync w0 of
              None \<Rightarrow> (IllTyped, w0)
            | Some state \<Rightarrow>
                (case bootstrap_phase sync bootstrapLocal state w0 of
                   (Completed, state1, w1) \<Rightarrow>
                     (case incremental_phase sync state1 w1 of
                        (Completed, state2, w2) \<Rightarrow>
                          (case pull_phase sync state2 w2 of
                             (Completed, state3, w3) \<Rightarrow>
                               (case save_state sync w3 state3 of
                                  None \<Rightarrow> (IllTyped, w3)
                                | Some w4 \<Rightarrow> (Completed, w4))
                           | (failure, state3, w3) \<Rightarrow> (failure, w3))
                      | (failure, state2, w2) \<Rightarrow> (failure, w2))
                 | (failure, state1, w1) \<Rightarrow> (failure, w1))))"

section \<open>Event-driven pushes\<close>

text \<open>
  The task each \<^verbatim>\<open>schedule...Sync\<close> entry point submits to the queue, and the entry
  point itself: its \<^verbatim>\<open>catch\<close> logs a rejection, so the caller only ever sees the world
  the task leaves.
\<close>

definition userPromptSyncTask :: "'b RemoteMemorySync \<Rightarrow> 'b world \<Rightarrow> int \<Rightarrow> outcome \<times> 'b world" where
  "userPromptSyncTask sync w promptId =
     (case getPromptById (local_db w) promptId of
        None \<Rightarrow> (Completed, w)
      | Some prompt \<Rightarrow> pushDocuments sync w (collectPromptDocuments (lib sync) (local_db w) [prompt]))"

definition observationSyncTask :: "'b RemoteMemorySync \<Rightarrow> 'b world \<Rightarrow> int \<Rightarrow> outcome \<times> 'b world" where
  "observationSyncTask sync w observationId =
     (case getObservationById (local_db w) observationId of
        None \<Rightarrow> (Completed, w)
      | Some observation \<Rightarrow>
          pushDocuments sync w (collectObservationDocuments (lib sync) (local_db w) [observation]))"

definition summarySyncTask :: "'b RemoteMemorySync \<Rightarrow> 'b world \<Rightarrow> int \<Rightarrow> outcome \<times> 'b world" where
  "summarySyncTask sync w summaryId =
     (case getSummaryById (local_db w) summaryId of
        None \<Rightarrow> (Completed, w)
      | Some summary \<Rightarrow>
          pushDocuments sync w (collectSummaryDocuments (lib sync) (local_db w) [summary]))"

definition scheduleUserPromptSync :: "'b RemoteMemorySync \<Rightarrow> 'b world \<Rightarrow> int \<Rightarrow> 'b world" where
  "scheduleUserPromptSync sync w promptId = snd (userPromptSyncTask sync w promptId)"

definition scheduleObservationSync :: "'b RemoteMemorySync \<Rightarrow> 'b world \<Rightarrow> int \<Rightarrow> 'b world" where
  "scheduleObservationSync sync w observationId = snd (observationSyncTask sync w observationId)"

definition scheduleSummarySync :: "'b RemoteMemorySync \<Rightarrow> 'b world \<Rightarrow> int \<Rightarrow> 'b world" where
  "scheduleSummarySync sync w summaryId = snd (summarySyncTask sync w summaryId)"

definition scheduleFullSync :: "'b RemoteMemorySync \<Rightarrow> 'b world \<Rightarrow> 'b world" where
  "scheduleFullSync sync w = snd (performSynchronization sync w False)"

section \<open>The session merge in the specification's words\<close>

text \<open>
  The field-wise rules as the specification words them, to be compared with what
  \<^verbatim>\<open>upsertSession\<close> computes. The priority table is \<open>active < failed < completed\<close>.
  The specification has no other status; \<open>spec_priority\<close> ranks one with \<open>active\<close>,
  as \<^verbatim>\<open>?? 0\<close> in the source is written to do.
\<close>

definition spec_priority :: "string \<Rightarrow> int" where
  "spec_priority s =
     (if s = ''completed'' then 2 else if s = ''failed'' then 1 else 0)"

definition spec_merge ::
  "LocalSessionRow \<Rightarrow> RemoteSessionPayload \<Rightarrow> string option \<Rightarrow> LocalSessionRow" where
  "spec_merge old new resolved =
     old\<lparr> memory_session_id := resolved,
          project := (if project new \<noteq> [] then project new else project old),
          user_prompt := (if user_prompt new \<noteq> None \<and> user_prompt new \<noteq> Some []
                          then user_prompt new else user_prompt old),
          custom_title := (if custom_title new \<noteq> None then custom_title new else custom_title old),
          started_at := (if started_at old \<noteq> [] then started_at old else started_at new),
          started_at_epoch := (if started_at_epoch old \<noteq> 0 then started_at_epoch old
                               else started_at_epoch new),
          completed_at := (if completed_at new \<noteq> None then completed_at new else completed_at old),
          completed_at_epoch := (if completed_at_epoch new \<noteq> None then completed_at_epoch new
                                 else completed_at_epoch old),
          status := (if spec_priority (status new) \<ge> spec_priority (status old)
                     then status new else status old) \<rparr>"

text \<open>
  The specification's last rule: the update is issued only if a field changes, it writes
  the merged columns to the existing row, and the result says whether it was issued.
\<close>

definition write_merged :: "database \<Rightarrow> LocalSessionRow \<Rightarrow> LocalSessionRow \<Rightarrow> bool \<times> database" where
  "write_merged db old merged =
     (if merged = old then (False, db)
      else (True, db\<lparr> sdk_sessions :=
              map (\<lambda>r. if s_id r = s_id old
                        then update_session_columns (RemoteSessionPayload.truncate merged) r else r)
                (sdk_sessions db) \<rparr>))"

text \<open>A store with one active session and an incoming payload that completes it.\<close>

definition session_row_c1 :: LocalSessionRow where
  "session_row_c1 =
     \<lparr> content_session_id = ''c1'', memory_session_id = Some ''m1'', project = ''P'',
       user_prompt = Some ''hi'', custom_title = None, started_at = ''t0'', started_at_epoch = 100,
       completed_at = None, completed_at_epoch = None, status = ''active'', s_id = 1 \<rparr>"

definition store_c1 :: database where
  "store_c1 = \<lparr> sdk_sessions = [session_row_c1],
                user_prompts = [], observations = [], session_summaries = [] \<rparr>"

definition incoming_c1 :: RemoteSessionPayload where
  "incoming_c1 =
     \<lparr> content_session_id = ''c1'', memory_session_id = None, project = [],
       user_prompt = None, custom_title = Some ''T'', started_at = ''t9'', started_at_epoch = 900,
       completed_at = Some ''t5'', completed_at_epoch = Some 500, status = ''completed'' \<rparr>"

text \<open>A payload for the same session whose status names a method every object has.\<close>

definition incoming_toString :: RemoteSessionPayload where
  "incoming_toString = incoming_c1\<lparr> status := ''toString'' \<rparr>"

section \<open>Uniqueness invariants of the local store\<close>

text \<open>
  \<^verbatim>\<open>id\<close> is the primary key of \<^verbatim>\<open>sdk_sessions\<close>. The three uniqueness
  invariants of the data model: \<^verbatim>\<open>content_session_id\<close> is unique among sessions, the
  pair \<^verbatim>\<open>(content_session_id, prompt_number)\<close> is unique among prompts, and a
  \<^verbatim>\<open>memory_session_id\<close> that is not null is bound to one session only.
\<close>

definition primary_key :: "database \<Rightarrow> bool" where
  "primary_key db = distinct (map s_id (sdk_sessions db))"

definition unique_content_session_id :: "database \<Rightarrow> bool" where
  "unique_content_session_id db = distinct (map content_session_id (sdk_sessions db))"

definition unique_prompt_key :: "database \<Rightarrow> bool" where
  "unique_prompt_key db =
     distinct (map (\<lambda>r. (up_content_session_id r, up_prompt_number r)) (user_prompts db))"

definition unique_memory_session_id :: "database \<Rightarrow> bool" where
  "unique_memory_session_id db = distinct (List.map_filter memory_session_id (sdk_sessions db))"

definition store_invariant :: "database \<Rightarrow> bool" where
  "store_invariant db =
     (primary_key db \<and> unique_content_session_id db \<and> unique_prompt_key db
      \<and> unique_memory_session_id db)"

definition memory_id_conflict :: "database \<Rightarrow> RemoteSessionPayload \<Rightarrow> bool" where
  "memory_id_conflict db session =
     (truthy_str_null (memory_session_id session) \<and>
      list_ex (\<lambda>r. memory_session_id r = memory_session_id session
                   \<and> content_session_id r \<noteq> content_session_id session) (sdk_sessions db))"

definition import_batches :: "database \<Rightarrow> RemoteMemoryDocument list list \<Rightarrow> database" where
  "import_batches db batches = fold (\<lambda>batch d. snd (importRemoteDocuments d batch)) batches db"

section \<open>Batches whose second import writes nothing\<close>






section \<open>Document identity and push batches in the specification's words\<close>



text \<open>
  The invariant of the collectors' \<^verbatim>\<open>Map\<close> after the documents \<open>S\<close> have been added:
  keys are distinct, every entry is filed under its document's id, is one of the added
  documents and has the highest \<^verbatim>\<open>updatedAtEpoch\<close> among the added documents with
  that id, and every added id is present.
\<close>

definition good_map :: "document_map \<Rightarrow> RemoteMemoryDocument set \<Rightarrow> bool" where
  "good_map m S = (distinct (map fst m)
     \<and> (\<forall>k v. map_of m k = Some v \<longrightarrow> doc_id v = k \<and> v \<in> S
           \<and> (\<forall>d'\<in>S. doc_id d' = k \<longrightarrow> updatedAtEpoch d' \<le> updatedAtEpoch v))
     \<and> dom (map_of m) = doc_id ` S)"


section \<open>Reasoning about a cycle\<close>

text \<open>
  A backend is reliable when none of its operations ever rejects. The invariant of a
  cycle between its phases, up to the pull: \<open>p\<close> is the target state persisted when the
  cycle started in world \<open>w\<close>, \<open>st\<close> is the cycle's local \<^verbatim>\<open>state\<close> object and \<open>w1\<close>
  the current world. The persisted state differs from \<open>p\<close> only by a push cursor
  raised to cover every batch pushed so far, the local state is ahead of it, the local
  store is untouched, and the state file is untouched as long as no push has succeeded.
\<close>

definition reliable :: "'b RemoteMemoryBackend \<Rightarrow> bool" where
  "reliable be =
     (\<forall>b documents since.
        fst (initialize be b) \<and> fst (upsertDocuments be documents b)
        \<and> fst (fetchDocumentsUpdatedSince be since b) \<noteq> None)"

definition cycle_invariant ::
  "'b RemoteMemorySync \<Rightarrow> RemoteSyncTargetState \<Rightarrow> 'b world \<Rightarrow> RemoteSyncTargetState \<Rightarrow> 'b world
     \<Rightarrow> bool" where
  "cycle_invariant sync p w st w1 =
     (\<exists>cs p1. calls w1 = calls w @ cs \<and> local_db w1 = local_db w
        \<and> load_state sync w1 = Some p1
        \<and> bootstrapComplete p1 = bootstrapComplete p
        \<and> lastPullEpoch p1 = lastPullEpoch p
        \<and> lastPullEpoch st = lastPullEpoch p
        \<and> lastLocalPushEpoch p \<le> lastLocalPushEpoch p1
        \<and> lastLocalPushEpoch p1 \<le> lastLocalPushEpoch st
        \<and> (bootstrapComplete p \<longrightarrow> bootstrapComplete st)
        \<and> (\<forall>batch d. UpsertCall batch True \<in> set cs \<longrightarrow> d \<in> set batch
               \<longrightarrow> updatedAtEpoch d \<le> lastLocalPushEpoch p1)
        \<and> (\<forall>since fetched. FetchCall since fetched \<notin> set cs)
        \<and> ((\<forall>batch. UpsertCall batch True \<notin> set cs) \<longrightarrow> disk w1 = disk w \<and> p1 = p))"

section \<open>A store and batches with a memory session id conflict\<close>

text \<open>
  The local store binds the memory session id \<open>X\<close> to session \<open>A\<close>. The remote side
  carries a session \<open>B\<close> that claims \<open>X\<close> as well, a prompt of \<open>B\<close>, and a later
  version of session \<open>A\<close> rebound to \<open>Y\<close>.
\<close>

definition session_a_row :: LocalSessionRow where
  "session_a_row =
     \<lparr> content_session_id = ''A'', memory_session_id = Some ''X'', project = ''P'',
       user_prompt = Some ''hi'', custom_title = None, started_at = ''t1'', started_at_epoch = 1000,
       completed_at = None, completed_at_epoch = None, status = ''active'', s_id = 1 \<rparr>"

definition store_a :: database where
  "store_a = \<lparr> sdk_sessions = [session_a_row],
               user_prompts = [], observations = [], session_summaries = [] \<rparr>"

definition session_b :: RemoteSessionPayload where
  "session_b =
     \<lparr> content_session_id = ''B'', memory_session_id = Some ''X'', project = ''Q'',
       user_prompt = Some ''yo'', custom_title = None, started_at = ''t2'', started_at_epoch = 2000,
       completed_at = None, completed_at_epoch = None, status = ''active'' \<rparr>"


definition prompt_b :: RemotePromptPayload where
  "prompt_b =
     \<lparr> p_content_session_id = ''B'', p_project = ''Q'', p_prompt_number = 1,
       p_prompt_text = ''yo'', p_created_at = ''t2'', p_created_at_epoch = 2000 \<rparr>"

definition doc_session_b :: RemoteMemoryDocument where
  "doc_session_b = \<lparr> doc_id = ''session:B'', sortEpoch = 2000, updatedAtEpoch = 2000,
                      payload = SessionPayload session_b \<rparr>"


definition doc_prompt_b :: RemoteMemoryDocument where
  "doc_prompt_b = \<lparr> doc_id = ''prompt:B:1'', sortEpoch = 2000, updatedAtEpoch = 2000,
                     payload = PromptPayload prompt_b \<rparr>"


section \<open>A concrete platform\<close>

text \<open>
  Stand-ins for the library functions, for evaluating the engine on examples: a
  serialiser that writes objects, strings, numbers and null without escapes, the identity
  as digest, and a comparison of strings character by character.
\<close>

fun write_json :: "json \<Rightarrow> string" where
  "write_json JNull = ''null''"
| "write_json (JBool b) = (if b then ''true'' else ''false'')"
| "write_json (JNum n) = Number_toString n"
| "write_json (JStr s) = ''\"'' @ s @ ''\"''"
| "write_json (JArr xs) = ''['' @ concat (map (\<lambda>x. write_json x @ '','') xs) @ '']''"
| "write_json (JObj kvs) =
     ''{'' @ concat (map (\<lambda>kv. ''\"'' @ fst kv @ ''\":'' @ write_json (snd kv) @ '','') kvs) @ ''}''"

fun compare_strings :: "string \<Rightarrow> string \<Rightarrow> int" where
  "compare_strings [] [] = 0"
| "compare_strings [] (y # ys) = - 1"
| "compare_strings (x # xs) [] = 1"
| "compare_strings (x # xs) (y # ys) =
     (if (of_char x :: nat) < of_char y then - 1
      else if (of_char y :: nat) < of_char x then 1
      else compare_strings xs ys)"

definition example_platform :: platform where
  "example_platform =
     \<lparr> JSON_stringify = write_json, sha256_hex = (\<lambda>s. s), localeCompare = compare_strings \<rparr>"

text \<open>
  A store with session \<open>A\<close> and its first prompt, and two observation rows that differ
  in their \<^verbatim>\<open>id\<close> and in how the absence of discovery tokens is stored.
\<close>

definition store_prompt :: database where
  "store_prompt = store_a\<lparr> user_prompts :=
      [\<lparr> up_id = 7, up_content_session_id = ''A'', up_prompt_number = 1,
          up_prompt_text = ''hi'', up_created_at = ''t15'', up_created_at_epoch = 1500 \<rparr>] \<rparr>"



section \<open>An in-memory backend\<close>

text \<open>
  A backend that keeps its documents in a map by id, upserts by replacing, and answers a
  fetch with the documents updated after the given epoch in ascending order. Two
  switches make its upsert or its fetch reject. The engine runs it against the store
  \<open>store_prompt\<close>, with no state file on disk.
\<close>

definition memory_backend :: "bool \<Rightarrow> bool \<Rightarrow> document_map RemoteMemoryBackend" where
  "memory_backend upsert_down fetch_down =
     \<lparr> targetFingerprint = ''fingerprint'',
       initialize = (\<lambda>b. (True, b)),
       upsertDocuments = (\<lambda>documents b.
          if upsert_down then (False, b)
          else (True, fold (\<lambda>d m. map_set m (doc_id d) d) documents b)),
       fetchDocumentsUpdatedSince = (\<lambda>since b.
          (if fetch_down then None
           else Some (sort_key updatedAtEpoch (filter (\<lambda>d. since < updatedAtEpoch d) (map snd b))),
           b)) \<rparr>"

definition memory_sync :: "bool \<Rightarrow> bool \<Rightarrow> document_map RemoteMemorySync" where
  "memory_sync upsert_down fetch_down =
     \<lparr> backend = memory_backend upsert_down fetch_down,
       statePath = ''state.json'',
       lib = example_platform \<rparr>"

definition first_world :: "document_map world" where
  "first_world = \<lparr> local_db = store_prompt, disk = (\<lambda>path. None), remote = [], calls = [] \<rparr>"

text \<open>
  The batch the bootstrap and the incremental collector build from \<open>store_prompt\<close>,
  and the world the first cycle leaves when the backend rejects that batch.
\<close>

definition documents_a :: "RemoteMemoryDocument list" where
  "documents_a =
     [\<lparr> doc_id = ''prompt:A:1'', sortEpoch = 1500, updatedAtEpoch = 1500,
        payload = PromptPayload
          \<lparr> p_content_session_id = ''A'', p_project = ''P'', p_prompt_number = 1,
            p_prompt_text = ''hi'', p_created_at = ''t15'', p_created_at_epoch = 1500 \<rparr> \<rparr>,
      \<lparr> doc_id = ''session:A'', sortEpoch = 1000, updatedAtEpoch = 1500,
        payload = SessionPayload
          \<lparr> content_session_id = ''A'', memory_session_id = Some ''X'', project = ''P'',
            user_prompt = Some ''hi'', custom_title = None, started_at = ''t1'',
            started_at_epoch = 1000, completed_at = None, completed_at_epoch = None,
            status = ''active'' \<rparr> \<rparr>]"

definition world_after_failed_push :: "document_map world" where
  "world_after_failed_push =
     first_world\<lparr> calls := [InitializeCall True, UpsertCall documents_a False] \<rparr>"

section \<open>Properties of the session merge\<close>

lemma status_priority_table:
  "\<not> inherited_property s \<Longrightarrow> status_priority s = Rank (spec_priority s)"
  by (simp add: status_priority_def inherited_property_def spec_priority_def)

lemma status_priority_inherited:
  "inherited_property s \<Longrightarrow> \<exists>t. status_priority s = Inherited t"
  by (auto simp: status_priority_def inherited_property_def inherited_text_def
      Object_prototype_functions_def split: if_splits)

lemma selectSessionStatus_spec:
  "\<not> inherited_property c \<Longrightarrow> \<not> inherited_property i
     \<Longrightarrow> selectSessionStatus c i = (if spec_priority i \<ge> spec_priority c then i else c)"
  by (simp add: selectSessionStatus_def status_priority_table)

lemma selectSessionStatus_one_inherited:
  assumes "inherited_property c \<noteq> inherited_property i"
  shows "selectSessionStatus c i = c"
proof (cases "inherited_property c")
  case True
  with assms have "\<not> inherited_property i" by simp
  with True status_priority_inherited[of c] show ?thesis
    by (auto simp: selectSessionStatus_def status_priority_table)
next
  case False
  with assms have "inherited_property i" by simp
  with False status_priority_inherited[of i] show ?thesis
    by (auto simp: selectSessionStatus_def status_priority_table)
qed

lemma update_columns_nextValues:
  "update_session_columns (nextValues db s e) e
     = (spec_merge e s (resolveImportedMemorySessionId db s (Some e)))
         \<lparr> status := selectSessionStatus (status e) (status s) \<rparr>"
  by (cases "user_prompt s"; cases "custom_title s"; cases "completed_at s"; cases "completed_at_epoch s")
     (simp_all add: update_session_columns_def nextValues_def spec_merge_def
      or_str_def or_str_null_def truthy_str_null_def nullish_def or_int_def)

lemma changed_iff:
  "changed nv e \<longleftrightarrow> update_session_columns nv e \<noteq> e"
  unfolding changed_def update_session_columns_def
  by (cases e) auto

lemma update_columns_truncate:
  "update_session_columns (RemoteSessionPayload.truncate (update_session_columns nv e)) r
     = update_session_columns nv r"
  by (simp add: update_session_columns_def RemoteSessionPayload.truncate_def)

lemma find_SomeD: "find P xs = Some x \<Longrightarrow> x \<in> set xs \<and> P x"
  by (induction xs) (auto split: if_splits)

lemma find_map_comp: "find P (map f xs) = map_option f (find (P \<circ> f) xs)"
  by (induction xs) simp_all

lemma map_changes:
  assumes "x \<in> set xs" "f x \<noteq> x"
  shows "map f xs \<noteq> xs"
proof
  assume "map f xs = xs"
  then have "map f xs = map (\<lambda>x. x) xs" by simp
  then have "\<forall>y\<in>set xs. f y = y" by (simp only: map_eq_conv)
  with assms show False by blast
qed

lemma sessions_update_neq:
  "xs \<noteq> sdk_sessions db \<Longrightarrow> db\<lparr>sdk_sessions := xs\<rparr> \<noteq> db"
  by (metis database.select_convs(1) database.surjective database.update_convs(1))

text \<open>
  Claim C4. When the store already has a row for the payload's \<^verbatim>\<open>content_session_id\<close>,
  \<^verbatim>\<open>upsertSession\<close> computes exactly the row the specification's field-wise rules
  give (\<open>spec_merge\<close>, with the memory session id the conflict policy resolves): it
  returns false and leaves the store alone when that row equals the existing one, and
  otherwise writes the merged columns to the row and returns true (\<open>write_merged\<close>). The
  returned boolean is true exactly when the store was changed. This holds for every row
  and every payload whose statuses name no property that objects inherit, the three
  statuses of the table among them. For the other statuses, of which the claim says
  nothing, every field but the status still follows the rules: the current status is
  kept when exactly one of the two names an inherited property, and in every case the
  status written is the one \<^verbatim>\<open>selectSessionStatus\<close> returns.
\<close>

theorem upsertSession_merges_fieldwise:
  assumes "find (\<lambda>r. content_session_id r = content_session_id s) (sdk_sessions db) = Some e"
  shows "(\<not> inherited_property (status e) \<and> \<not> inherited_property (status s) \<longrightarrow>
            upsertSession db s =
              write_merged db e (spec_merge e s (resolveImportedMemorySessionId db s (Some e))))
         \<and> (inherited_property (status e) \<noteq> inherited_property (status s) \<longrightarrow>
            upsertSession db s =
              write_merged db e
                ((spec_merge e s (resolveImportedMemorySessionId db s (Some e)))
                   \<lparr> status := status e \<rparr>))
         \<and> upsertSession db s =
              write_merged db e
                ((spec_merge e s (resolveImportedMemorySessionId db s (Some e)))
                   \<lparr> status := selectSessionStatus (status e) (status s) \<rparr>)
         \<and> (fst (upsertSession db s) \<longleftrightarrow> snd (upsertSession db s) \<noteq> db)"
proof -
  let ?nv = "nextValues db s e"
  let ?r = "resolveImportedMemorySessionId db s (Some e)"
  let ?m = "(spec_merge e s ?r)\<lparr> status := selectSessionStatus (status e) (status s) \<rparr>"
  have m: "update_session_columns ?nv e = ?m" by (rule update_columns_nextValues)
  have ch: "changed ?nv e \<longleftrightarrow> ?m \<noteq> e" by (simp add: changed_iff m)
  have tr: "update_session_columns (RemoteSessionPayload.truncate ?m) r = update_session_columns ?nv r" for r
    by (simp add: m[symmetric] update_columns_truncate)
  have first: "upsertSession db s = write_merged db e ?m"
    using assms ch by (simp add: upsertSession_def write_merged_def Let_def tr)
  have table: "?m = spec_merge e s ?r"
    if "\<not> inherited_property (status e) \<and> \<not> inherited_property (status s)"
    using that by (simp add: selectSessionStatus_spec spec_merge_def)
  have one: "?m = (spec_merge e s ?r)\<lparr> status := status e \<rparr>"
    if "inherited_property (status e) \<noteq> inherited_property (status s)"
    using that by (simp add: selectSessionStatus_one_inherited)
  have second: "fst (upsertSession db s) \<longleftrightarrow> snd (upsertSession db s) \<noteq> db"
  proof (cases "?m = e")
    case True
    then show ?thesis by (simp add: first write_merged_def)
  next
    case False
    from assms have mem: "e \<in> set (sdk_sessions db)" by (simp add: find_SomeD)
    let ?f = "\<lambda>r. if s_id r = s_id e then update_session_columns ?nv r else r"
    have "?f e \<noteq> e" using False m by simp
    with mem have "map ?f (sdk_sessions db) \<noteq> sdk_sessions db" by (rule map_changes)
    then have "db\<lparr>sdk_sessions := map ?f (sdk_sessions db)\<rparr> \<noteq> db" by (rule sessions_update_neq)
    with False show ?thesis by (simp add: first write_merged_def tr cong: if_cong)
  qed
  from first table one second show ?thesis by metis
qed

theorem upsertSession_merges_fieldwise_witness:
  "find (\<lambda>r. content_session_id r = content_session_id incoming_c1) (sdk_sessions store_c1)
     = Some session_row_c1
   \<and> \<not> inherited_property (status session_row_c1) \<and> \<not> inherited_property (status incoming_c1)
   \<and> upsertSession store_c1 incoming_c1 =
       (True, store_c1\<lparr> sdk_sessions :=
          [session_row_c1\<lparr> custom_title := Some ''T'', completed_at := Some ''t5'',
             completed_at_epoch := Some 500, status := ''completed'' \<rparr>] \<rparr>)
   \<and> snd (upsertSession store_c1 incoming_c1) \<noteq> store_c1
   \<and> find (\<lambda>r. content_session_id r = content_session_id incoming_toString) (sdk_sessions store_c1)
     = Some session_row_c1
   \<and> inherited_property (status incoming_toString)
   \<and> upsertSession store_c1 incoming_toString =
       (True, store_c1\<lparr> sdk_sessions :=
          [session_row_c1\<lparr> custom_title := Some ''T'', completed_at := Some ''t5'',
             completed_at_epoch := Some 500 \<rparr>] \<rparr>)"
proof -
  have h: "find (\<lambda>r. content_session_id r = content_session_id incoming_c1) (sdk_sessions store_c1)
             = Some session_row_c1"
    by (simp add: store_c1_def session_row_c1_def incoming_c1_def)
  have h': "find (\<lambda>r. content_session_id r = content_session_id incoming_toString) (sdk_sessions store_c1)
             = Some session_row_c1"
    by (simp add: store_c1_def session_row_c1_def incoming_c1_def incoming_toString_def)
  have n: "\<not> inherited_property (status session_row_c1)" "\<not> inherited_property (status incoming_c1)"
    by (simp_all add: inherited_property_def inherited_text_def Object_prototype_functions_def
        session_row_c1_def incoming_c1_def)
  have i: "inherited_property (status incoming_toString)"
    by (simp add: inherited_property_def inherited_text_def Object_prototype_functions_def
        incoming_toString_def)
  from upsertSession_merges_fieldwise [OF h] n
  have a: "upsertSession store_c1 incoming_c1 =
       write_merged store_c1 session_row_c1
         (spec_merge session_row_c1 incoming_c1
            (resolveImportedMemorySessionId store_c1 incoming_c1 (Some session_row_c1)))"
    and b: "fst (upsertSession store_c1 incoming_c1) \<longleftrightarrow> snd (upsertSession store_c1 incoming_c1) \<noteq> store_c1"
    by blast+
  from upsertSession_merges_fieldwise [OF h'] n(1) i
  have c: "upsertSession store_c1 incoming_toString =
       write_merged store_c1 session_row_c1
         ((spec_merge session_row_c1 incoming_toString
            (resolveImportedMemorySessionId store_c1 incoming_toString (Some session_row_c1)))
            \<lparr> status := status session_row_c1 \<rparr>)"
    by blast
  have a': "upsertSession store_c1 incoming_c1 =
       (True, store_c1\<lparr> sdk_sessions :=
          [session_row_c1\<lparr> custom_title := Some ''T'', completed_at := Some ''t5'',
             completed_at_epoch := Some 500, status := ''completed'' \<rparr>] \<rparr>)"
    unfolding a
    by (simp add: write_merged_def store_c1_def session_row_c1_def incoming_c1_def spec_merge_def
        spec_priority_def resolveImportedMemorySessionId_def truthy_str_null_def
        update_session_columns_def RemoteSessionPayload.truncate_def)
  have c': "upsertSession store_c1 incoming_toString =
       (True, store_c1\<lparr> sdk_sessions :=
          [session_row_c1\<lparr> custom_title := Some ''T'', completed_at := Some ''t5'',
             completed_at_epoch := Some 500 \<rparr>] \<rparr>)"
    unfolding c
    by (simp add: write_merged_def store_c1_def session_row_c1_def incoming_c1_def
        incoming_toString_def spec_merge_def
        spec_priority_def resolveImportedMemorySessionId_def truthy_str_null_def
        update_session_columns_def RemoteSessionPayload.truncate_def)
  from a' b have d: "snd (upsertSession store_c1 incoming_c1) \<noteq> store_c1" by simp
  from h n a' d h' i c' show ?thesis by blast
qed

text \<open>
  Claim C9. Importing a session payload whose \<^verbatim>\<open>memory_session_id\<close> is null never
  clears an existing binding: the row found for the payload's \<^verbatim>\<open>content_session_id\<close>
  is, after \<^verbatim>\<open>upsertSession\<close>, still the row with the same \<^verbatim>\<open>id\<close>, and its
  \<^verbatim>\<open>memory_session_id\<close> is the value it had before.
\<close>

theorem upsertSession_null_keeps_binding:
  assumes "find (\<lambda>r. content_session_id r = content_session_id s) (sdk_sessions db) = Some e"
    and "memory_session_id e = Some m"
    and "memory_session_id s = None"
  shows "\<exists>e'. find (\<lambda>r. content_session_id r = content_session_id s)
              (sdk_sessions (snd (upsertSession db s))) = Some e'
            \<and> s_id e' = s_id e \<and> memory_session_id e' = Some m"
proof -
  let ?nv = "nextValues db s e"
  let ?f = "\<lambda>r. if s_id r = s_id e then update_session_columns ?nv r else r"
  have res: "memory_session_id ?nv = Some m"
    using assms by (simp add: nextValues_def resolveImportedMemorySessionId_def truthy_str_null_def)
  show ?thesis
  proof (cases "changed ?nv e")
    case False
    then show ?thesis using assms by (simp add: upsertSession_def Let_def)
  next
    case True
    have cid: "content_session_id (?f r) = content_session_id r" for r
      by (simp add: update_session_columns_def)
    have "find (\<lambda>r. content_session_id r = content_session_id s) (map ?f (sdk_sessions db))
            = map_option ?f (find ((\<lambda>r. content_session_id r = content_session_id s) \<circ> ?f) (sdk_sessions db))"
      by (rule find_map_comp)
    also have "(\<lambda>r. content_session_id r = content_session_id s) \<circ> ?f
                 = (\<lambda>r. content_session_id r = content_session_id s)"
      using cid by (simp add: fun_eq_iff del: split_paired_All)
    finally have "find (\<lambda>r. content_session_id r = content_session_id s) (map ?f (sdk_sessions db))
            = Some (update_session_columns ?nv e)"
      using assms by simp
    moreover have "memory_session_id (update_session_columns ?nv e) = Some m"
      using res by (simp add: update_session_columns_def)
    moreover have "s_id (update_session_columns ?nv e) = s_id e"
      by (simp add: update_session_columns_def)
    ultimately show ?thesis
      using True assms by (simp add: upsertSession_def Let_def)
  qed
qed

theorem upsertSession_null_keeps_binding_witness:
  "find (\<lambda>r. content_session_id r = content_session_id incoming_c1) (sdk_sessions store_c1)
     = Some session_row_c1
   \<and> memory_session_id session_row_c1 = Some ''m1''
   \<and> memory_session_id incoming_c1 = None
   \<and> (\<exists>e'. find (\<lambda>r. content_session_id r = content_session_id incoming_c1)
              (sdk_sessions (snd (upsertSession store_c1 incoming_c1))) = Some e'
            \<and> s_id e' = s_id session_row_c1 \<and> memory_session_id e' = Some ''m1'')"
proof -
  have h1: "find (\<lambda>r. content_session_id r = content_session_id incoming_c1) (sdk_sessions store_c1)
             = Some session_row_c1"
    by (simp add: store_c1_def session_row_c1_def incoming_c1_def)
  have h2: "memory_session_id session_row_c1 = Some ''m1''" by (simp add: session_row_c1_def)
  have h3: "memory_session_id incoming_c1 = None" by (simp add: incoming_c1_def)
  from upsertSession_null_keeps_binding [OF h1 h2 h3] h1 h2 h3 show ?thesis by simp
qed

section \<open>The importer preserves the uniqueness invariants\<close>

lemma fresh_id_gt: "i \<in> set ids \<Longrightarrow> i < fresh_id ids"
  by (induction ids) (auto simp: fresh_id_def)

lemma fresh_id_notin: "fresh_id ids \<notin> set ids"
  using fresh_id_gt by fastforce

lemma find_None_conv: "find P xs = None \<longleftrightarrow> (\<forall>x\<in>set xs. \<not> P x)"
  by (induction xs) auto

lemma set_map_filter: "set (List.map_filter g xs) = {v. \<exists>x\<in>set xs. g x = Some v}"
  by (induction xs) (auto split: option.splits)

lemma map_filter_append: "List.map_filter g (xs @ ys) = List.map_filter g xs @ List.map_filter g ys"
  by (simp add: List.map_filter_def)

lemma distinct_map_filter_iff:
  assumes "distinct xs"
  shows "distinct (List.map_filter g xs) \<longleftrightarrow>
           (\<forall>x\<in>set xs. \<forall>y\<in>set xs. g x \<noteq> None \<and> g x = g y \<longrightarrow> x = y)"
proof -
  have "distinct (List.map_filter g xs) \<longleftrightarrow> inj_on (the \<circ> g) {x \<in> set xs. g x \<noteq> None}"
    using assms by (simp add: List.map_filter_def distinct_map)
  also have "\<dots> \<longleftrightarrow> (\<forall>x\<in>set xs. \<forall>y\<in>set xs. g x \<noteq> None \<and> g x = g y \<longrightarrow> x = y)"
  proof
    assume inj: "inj_on (the \<circ> g) {x \<in> set xs. g x \<noteq> None}"
    show "\<forall>x\<in>set xs. \<forall>y\<in>set xs. g x \<noteq> None \<and> g x = g y \<longrightarrow> x = y"
    proof (intro ballI impI)
      fix x y assume a: "x \<in> set xs" "y \<in> set xs" "g x \<noteq> None \<and> g x = g y"
      then have "g y \<noteq> None" by metis
      with a have "x \<in> {x \<in> set xs. g x \<noteq> None}" "y \<in> {x \<in> set xs. g x \<noteq> None}"
        "(the \<circ> g) x = (the \<circ> g) y" by simp_all
      with inj show "x = y" by (meson inj_onD)
    qed
  next
    assume R: "\<forall>x\<in>set xs. \<forall>y\<in>set xs. g x \<noteq> None \<and> g x = g y \<longrightarrow> x = y"
    show "inj_on (the \<circ> g) {x \<in> set xs. g x \<noteq> None}"
    proof (rule inj_onI)
      fix x y assume x: "x \<in> {x \<in> set xs. g x \<noteq> None}" and y: "y \<in> {x \<in> set xs. g x \<noteq> None}"
        and e: "(the \<circ> g) x = (the \<circ> g) y"
      from x y e have "g x = g y" by auto
      with R x y show "x = y" by simp
    qed
  qed
  finally show ?thesis .
qed


lemma distinct_of_map: "distinct (map f xs) \<Longrightarrow> distinct xs"
  by (simp add: distinct_map)

lemma resolve_cases:
  "resolveImportedMemorySessionId db s ex = Option.bind ex memory_session_id
   \<or> (resolveImportedMemorySessionId db s ex = memory_session_id s
      \<and> truthy_str_null (memory_session_id s)
      \<and> (\<forall>r\<in>set (sdk_sessions db).
            memory_session_id r = memory_session_id s \<longrightarrow> content_session_id r = content_session_id s))"
  by (auto simp: resolveImportedMemorySessionId_def find_None_conv split: option.splits)

lemma upsertSession_insert:
  assumes "find (\<lambda>r. content_session_id r = content_session_id s) (sdk_sessions db) = None"
  shows "\<exists>new. upsertSession db s = (True, db\<lparr>sdk_sessions := sdk_sessions db @ [new]\<rparr>)
           \<and> content_session_id new = content_session_id s
           \<and> memory_session_id new = resolveImportedMemorySessionId db s None
           \<and> s_id new = fresh_id (map s_id (sdk_sessions db))
           \<and> project new = project s
           \<and> user_prompt new = Some (nullish_str (user_prompt s) [])
           \<and> custom_title new = custom_title s
           \<and> started_at new = started_at s
           \<and> started_at_epoch new = started_at_epoch s
           \<and> completed_at new = completed_at s
           \<and> completed_at_epoch new = completed_at_epoch s
           \<and> status new = status s"
  using assms
  apply (simp add: upsertSession_def Let_def)
  apply (rule exI)
  apply (intro conjI)
             apply (rule refl)
            apply simp_all
  done

lemma upsertSession_update:
  assumes "find (\<lambda>r. content_session_id r = content_session_id s) (sdk_sessions db) = Some e"
  shows "upsertSession db s =
           (if changed (nextValues db s e) e
            then (True, db\<lparr>sdk_sessions :=
                   map (\<lambda>r. if s_id r = s_id e then update_session_columns (nextValues db s e) r else r)
                     (sdk_sessions db)\<rparr>)
            else (False, db))"
  using assms by (simp add: upsertSession_def Let_def)

lemma update_keeps_keys:
  "map s_id (map (\<lambda>r. if s_id r = k then update_session_columns nv r else r) rows) = map s_id rows"
  "map content_session_id (map (\<lambda>r. if s_id r = k then update_session_columns nv r else r) rows)
     = map content_session_id rows"
  by (simp_all add: update_session_columns_def comp_def if_distrib cong: if_cong)

lemma update_preserves_unique_memory:
  assumes pk: "distinct (map s_id rows)"
    and uc: "distinct (map content_session_id rows)"
    and um: "distinct (List.map_filter memory_session_id rows)"
    and e: "e \<in> set rows"
    and res: "memory_session_id nv = memory_session_id e
              \<or> (\<forall>r\<in>set rows. memory_session_id r = memory_session_id nv
                     \<longrightarrow> content_session_id r = content_session_id e)"
  shows "distinct (List.map_filter memory_session_id
           (map (\<lambda>r. if s_id r = s_id e then update_session_columns nv r else r) rows))"
proof -
  let ?f = "\<lambda>r. if s_id r = s_id e then update_session_columns nv r else r"
  have drows: "distinct rows" using pk by (rule distinct_of_map)
  have inj_id: "x = y" if "x \<in> set rows" "y \<in> set rows" "s_id x = s_id y" for x y
    using pk that by (meson distinct_map inj_onD)
  have inj_c: "x = y" if "x \<in> set rows" "y \<in> set rows" "content_session_id x = content_session_id y" for x y
    using uc that by (meson distinct_map inj_onD)
  have old: "x = y" if "x \<in> set rows" "y \<in> set rows" "memory_session_id x \<noteq> None"
      "memory_session_id x = memory_session_id y" for x y
    using um that distinct_map_filter_iff[OF drows, of memory_session_id] by blast
  have "distinct (map s_id (map ?f rows))" using pk by (simp only: update_keeps_keys)
  then have drows': "distinct (map ?f rows)" by (rule distinct_of_map)
  have memf: "memory_session_id (?f r) = (if s_id r = s_id e then memory_session_id nv else memory_session_id r)" for r
    by (simp add: update_session_columns_def)
  have key: "?f x = ?f y" if x: "x \<in> set rows" and y: "y \<in> set rows"
      and nn: "memory_session_id (?f x) \<noteq> None"
      and eq: "memory_session_id (?f x) = memory_session_id (?f y)" for x y
  proof -
    have clash: False if a: "a \<in> set rows" "s_id a \<noteq> s_id e"
        and m: "memory_session_id a = memory_session_id nv" "memory_session_id nv \<noteq> None" for a
    proof -
      from res show False
      proof
        assume "memory_session_id nv = memory_session_id e"
        with m a e old[of a e] show False by auto
      next
        assume "\<forall>r\<in>set rows. memory_session_id r = memory_session_id nv
                     \<longrightarrow> content_session_id r = content_session_id e"
        with a m have "content_session_id a = content_session_id e" by blast
        with inj_c[OF a(1) e] a show False by auto
      qed
    qed
    have mx: "memory_session_id (?f x) = (if s_id x = s_id e then memory_session_id nv else memory_session_id x)"
      by (rule memf)
    have my: "memory_session_id (?f y) = (if s_id y = s_id e then memory_session_id nv else memory_session_id y)"
      by (rule memf)
    show ?thesis
    proof (cases "s_id x = s_id e")
      case xe: True
      show ?thesis
      proof (cases "s_id y = s_id e")
        case True
        with xe x y inj_id[of x y] show ?thesis by simp
      next
        case False
        from xe False mx my nn eq have "memory_session_id y = memory_session_id nv"
          "memory_session_id nv \<noteq> None" by simp_all
        with clash[of y] y False show ?thesis by blast
      qed
    next
      case xne: False
      show ?thesis
      proof (cases "s_id y = s_id e")
        case True
        from xne True mx my nn eq have "memory_session_id x = memory_session_id nv"
          "memory_session_id nv \<noteq> None" by simp_all
        with clash[of x] x xne show ?thesis by blast
      next
        case False
        from xne False mx my nn eq have "memory_session_id x \<noteq> None"
          "memory_session_id x = memory_session_id y" by simp_all
        with x y old[of x y] have "x = y" by blast
        then show ?thesis by simp
      qed
    qed
  qed
  have "\<forall>x'\<in>set (map ?f rows). \<forall>y'\<in>set (map ?f rows).
          memory_session_id x' \<noteq> None \<and> memory_session_id x' = memory_session_id y' \<longrightarrow> x' = y'"
  proof (intro ballI impI)
    fix x' y' assume "x' \<in> set (map ?f rows)" "y' \<in> set (map ?f rows)"
      and h: "memory_session_id x' \<noteq> None \<and> memory_session_id x' = memory_session_id y'"
    then obtain x y where "x \<in> set rows" "y \<in> set rows" "x' = ?f x" "y' = ?f y" by auto
    with h key[of x y] show "x' = y'" by blast
  qed
  with distinct_map_filter_iff[OF drows', of memory_session_id] show ?thesis by blast
qed


lemma upsertSession_preserves_invariant:
  assumes inv: "store_invariant db"
  shows "store_invariant (snd (upsertSession db s))"
proof (cases "find (\<lambda>r. content_session_id r = content_session_id s) (sdk_sessions db)")
  case None
  from upsertSession_insert[OF None] obtain new where
    up: "upsertSession db s = (True, db\<lparr>sdk_sessions := sdk_sessions db @ [new]\<rparr>)"
    and c: "content_session_id new = content_session_id s"
    and m: "memory_session_id new = resolveImportedMemorySessionId db s None"
    and i: "s_id new = fresh_id (map s_id (sdk_sessions db))"
    by blast
  from None have nocid: "\<forall>r\<in>set (sdk_sessions db). content_session_id r \<noteq> content_session_id s"
    by (simp add: find_None_conv)
  have "s_id new \<notin> set (map s_id (sdk_sessions db))" unfolding i by (rule fresh_id_notin)
  moreover have "content_session_id new \<notin> set (map content_session_id (sdk_sessions db))"
    using nocid c by auto
  moreover have "distinct (List.map_filter memory_session_id (sdk_sessions db @ [new]))"
  proof (cases "memory_session_id new")
    case None
    then show ?thesis using inv
      by (simp add: map_filter_append store_invariant_def unique_memory_session_id_def)
  next
    case (Some v)
    with m resolve_cases[of db s None]
    have "\<forall>r\<in>set (sdk_sessions db). memory_session_id r = Some v
             \<longrightarrow> content_session_id r = content_session_id s"
      by auto
    with nocid have "v \<notin> set (List.map_filter memory_session_id (sdk_sessions db))"
      by (auto simp: set_map_filter)
    with Some inv show ?thesis
      by (simp add: map_filter_append store_invariant_def unique_memory_session_id_def)
  qed
  ultimately show ?thesis using inv
    by (simp add: up store_invariant_def primary_key_def unique_content_session_id_def
        unique_prompt_key_def unique_memory_session_id_def)
next
  case (Some e)
  let ?nv = "nextValues db s e"
  from find_SomeD[OF Some]
  have e: "e \<in> set (sdk_sessions db)" and ce: "content_session_id e = content_session_id s"
    by simp_all
  show ?thesis
  proof (cases "changed ?nv e")
    case False
    then show ?thesis using inv by (simp add: upsertSession_update[OF Some])
  next
    case True
    have "memory_session_id ?nv = resolveImportedMemorySessionId db s (Some e)"
      by (simp add: nextValues_def)
    with resolve_cases[of db s "Some e"] ce
    have res: "memory_session_id ?nv = memory_session_id e
              \<or> (\<forall>r\<in>set (sdk_sessions db). memory_session_id r = memory_session_id ?nv
                     \<longrightarrow> content_session_id r = content_session_id e)"
      by auto
    from inv have "distinct (List.map_filter memory_session_id
           (map (\<lambda>r. if s_id r = s_id e then update_session_columns ?nv r else r) (sdk_sessions db)))"
      by (intro update_preserves_unique_memory e res)
         (simp_all add: store_invariant_def primary_key_def unique_content_session_id_def
            unique_memory_session_id_def)
    with True inv show ?thesis
      by (simp add: upsertSession_update[OF Some] store_invariant_def primary_key_def
          unique_content_session_id_def unique_prompt_key_def unique_memory_session_id_def
          update_keeps_keys del: map_map)
  qed
qed

lemma upsertPrompt_preserves_invariant:
  assumes inv: "store_invariant db"
  shows "store_invariant (snd (upsertPrompt db p))"
proof -
  have "(p_content_session_id p, p_prompt_number p)
          \<notin> set (map (\<lambda>r. (up_content_session_id r, up_prompt_number r)) (user_prompts db))"
    if "find (\<lambda>r. up_content_session_id r = p_content_session_id p
                     \<and> up_prompt_number r = p_prompt_number p) (user_prompts db) = None"
    using that by (auto simp: find_None_conv)
  with inv show ?thesis
    by (auto simp: upsertPrompt_def store_invariant_def primary_key_def unique_content_session_id_def
        unique_prompt_key_def unique_memory_session_id_def split: option.splits)
qed

lemma upsertObservation_preserves_invariant:
  "store_invariant db \<Longrightarrow> store_invariant (snd (upsertObservation db p))"
  by (auto simp: upsertObservation_def store_invariant_def primary_key_def unique_content_session_id_def
        unique_prompt_key_def unique_memory_session_id_def split: option.splits)

lemma upsertSummary_preserves_invariant:
  "store_invariant db \<Longrightarrow> store_invariant (snd (upsertSummary db p))"
  by (auto simp: upsertSummary_def store_invariant_def primary_key_def unique_content_session_id_def
        unique_prompt_key_def unique_memory_session_id_def split: option.splits)

lemma import_document_preserves_invariant:
  "store_invariant (snd acc) \<Longrightarrow> store_invariant (snd (import_document d acc))"
  by (cases "payload d")
     (simp_all add: import_document_def split_beta upsertSession_preserves_invariant
        upsertPrompt_preserves_invariant upsertObservation_preserves_invariant
        upsertSummary_preserves_invariant)

lemma fold_import_preserves_invariant:
  "store_invariant (snd acc) \<Longrightarrow> store_invariant (snd (fold import_document ds acc))"
  by (induction ds arbitrary: acc) (simp_all add: import_document_preserves_invariant)

lemma importRemoteDocuments_preserves_invariant:
  "store_invariant db \<Longrightarrow> store_invariant (snd (importRemoteDocuments db documents))"
  by (simp add: importRemoteDocuments_def fold_import_preserves_invariant)

lemma list_ex_find: "list_ex P xs \<longleftrightarrow> find P xs \<noteq> None"
  by (induction xs) auto

lemma conflict_resolves_to_existing:
  assumes "memory_id_conflict db s"
  shows "resolveImportedMemorySessionId db s ex = Option.bind ex memory_session_id"
  using assms
  by (auto simp: memory_id_conflict_def resolveImportedMemorySessionId_def list_ex_find)

lemma conflict_applies_as_null:
  assumes "memory_id_conflict db s"
  shows "upsertSession db s = upsertSession db (s\<lparr>memory_session_id := None\<rparr>)"
proof -
  have r: "resolveImportedMemorySessionId db s ex
             = resolveImportedMemorySessionId db (s\<lparr>memory_session_id := None\<rparr>) ex" for ex
    using conflict_resolves_to_existing[OF assms, of ex]
    by (simp add: resolveImportedMemorySessionId_def truthy_str_null_def)
  show ?thesis
    by (simp add: upsertSession_def Let_def nextValues_def r split: option.splits)
qed

lemma import_document_conflict:
  assumes "payload d = SessionPayload s" "memory_id_conflict (snd acc) s"
  shows "import_document d acc
           = import_document (d\<lparr> payload := SessionPayload (s\<lparr>memory_session_id := None\<rparr>) \<rparr>) acc"
  using assms conflict_applies_as_null[OF assms(2)] by (simp add: import_document_def)

lemma orderedDocuments_sessions:
  "orderedDocuments (filter (\<lambda>x. kind x = kind_session) xs) = filter (\<lambda>x. kind x = kind_session) xs"
  by (simp add: orderedDocuments_def)

lemma orderedDocuments_split:
  assumes "kind d = kind_session"
  shows "orderedDocuments (before @ d # ds)
           = filter (\<lambda>x. kind x = kind_session) before @ d #
             (filter (\<lambda>x. kind x = kind_session) ds @
              filter (\<lambda>x. kind x = kind_prompt) (before @ ds) @
              filter (\<lambda>x. kind x = kind_observation) (before @ ds) @
              filter (\<lambda>x. kind x = kind_summary) (before @ ds))"
  using assms by (simp add: orderedDocuments_def)

lemma importRemoteDocuments_conflict:
  assumes p: "payload d = SessionPayload s"
    and c: "memory_id_conflict
              (snd (importRemoteDocuments db (filter (\<lambda>x. kind x = kind_session) before))) s"
  shows "importRemoteDocuments db (before @ d # ds)
           = importRemoteDocuments db
               (before @ d\<lparr> payload := SessionPayload (s\<lparr>memory_session_id := None\<rparr>) \<rparr> # ds)"
proof -
  let ?d' = "d\<lparr> payload := SessionPayload (s\<lparr>memory_session_id := None\<rparr>) \<rparr>"
  let ?acc = "fold import_document (filter (\<lambda>x. kind x = kind_session) before) (0, db)"
  have k: "kind d = kind_session" "kind ?d' = kind_session" using p by (simp_all add: kind_def)
  have acc: "importRemoteDocuments db (filter (\<lambda>x. kind x = kind_session) before) = ?acc"
    by (simp only: importRemoteDocuments_def orderedDocuments_sessions)
  from c have "memory_id_conflict (snd ?acc) s" by (simp only: acc)
  with p have "import_document d ?acc = import_document ?d' ?acc" by (rule import_document_conflict)
  then show ?thesis
    by (simp only: importRemoteDocuments_def orderedDocuments_split[OF k(1)]
        orderedDocuments_split[OF k(2)] fold_append fold_simps comp_apply)
qed

text \<open>
  Claim C3. On a store whose \<^verbatim>\<open>id\<close> is a primary key and in which
  \<^verbatim>\<open>content_session_id\<close>, \<^verbatim>\<open>(content_session_id, prompt_number)\<close> and the
  non-null \<^verbatim>\<open>memory_session_id\<close> are unique (\<open>store_invariant\<close>), every sequence of
  import batches leaves a store with the same properties. When an imported session carries
  a memory session id that another \<^verbatim>\<open>content_session_id\<close> holds, the id resolves to
  the existing row's binding, or to null when there is no existing row, and the document
  is applied as if it carried no memory session id. Nothing aborts and the rest of the
  batch still applies: the import of a batch in which a session document meets such a
  conflict, at the head of the batch or after the session documents \<open>before\<close> it have
  been imported, is the import of the same batch with that document's memory session id
  removed.
\<close>

theorem imports_preserve_uniqueness:
  assumes "store_invariant db"
  shows "store_invariant (import_batches db batches)
         \<and> (memory_id_conflict db s \<longrightarrow>
              resolveImportedMemorySessionId db s ex = Option.bind ex memory_session_id
              \<and> upsertSession db s = upsertSession db (s\<lparr>memory_session_id := None\<rparr>))
         \<and> (payload d = SessionPayload s \<and> memory_id_conflict db s \<longrightarrow>
              importRemoteDocuments db (d # ds)
                = importRemoteDocuments db
                    (d\<lparr> payload := SessionPayload (s\<lparr>memory_session_id := None\<rparr>) \<rparr> # ds))
         \<and> (payload d = SessionPayload s
              \<and> memory_id_conflict
                   (snd (importRemoteDocuments db (filter (\<lambda>x. kind x = kind_session) before))) s
              \<longrightarrow> importRemoteDocuments db (before @ d # ds)
                    = importRemoteDocuments db
                        (before @ d\<lparr> payload := SessionPayload (s\<lparr>memory_session_id := None\<rparr>) \<rparr>
                           # ds))"
proof -
  have i: "store_invariant (import_batches d batches)" if "store_invariant d" for d
    using that unfolding import_batches_def
    by (induction batches arbitrary: d) (simp_all add: importRemoteDocuments_preserves_invariant)
  have g: "importRemoteDocuments db (before @ d # ds)
             = importRemoteDocuments db
                 (before @ d\<lparr> payload := SessionPayload (s\<lparr>memory_session_id := None\<rparr>) \<rparr> # ds)"
    if "payload d = SessionPayload s"
      "memory_id_conflict
         (snd (importRemoteDocuments db (filter (\<lambda>x. kind x = kind_session) before))) s"
    for before
    using that by (rule importRemoteDocuments_conflict)
  have h: "importRemoteDocuments db (d # ds)
             = importRemoteDocuments db
                 (d\<lparr> payload := SessionPayload (s\<lparr>memory_session_id := None\<rparr>) \<rparr> # ds)"
    if "payload d = SessionPayload s" "memory_id_conflict db s"
    using g[of "[]"] that by (simp add: importRemoteDocuments_def orderedDocuments_def)
  from assms i g h show ?thesis
    by (simp add: conflict_resolves_to_existing conflict_applies_as_null)
qed

theorem imports_preserve_uniqueness_witness:
  "store_invariant store_a
   \<and> store_invariant (import_batches store_a [[doc_prompt_b, doc_session_b]])
   \<and> memory_id_conflict store_a session_b
   \<and> resolveImportedMemorySessionId store_a session_b None = None
   \<and> upsertSession store_a session_b = upsertSession store_a (session_b\<lparr>memory_session_id := None\<rparr>)
   \<and> importRemoteDocuments store_a [doc_session_b, doc_prompt_b]
       = importRemoteDocuments store_a
           [doc_session_b\<lparr> payload := SessionPayload (session_b\<lparr>memory_session_id := None\<rparr>) \<rparr>,
            doc_prompt_b]
   \<and> importRemoteDocuments store_a [doc_prompt_b, doc_session_b]
       = importRemoteDocuments store_a
           [doc_prompt_b,
            doc_session_b\<lparr> payload := SessionPayload (session_b\<lparr>memory_session_id := None\<rparr>) \<rparr>]
   \<and> fst (importRemoteDocuments store_a [doc_prompt_b, doc_session_b]) = 2
   \<and> map memory_session_id (sdk_sessions (import_batches store_a [[doc_prompt_b, doc_session_b]]))
        = [Some ''X'', None]
   \<and> map up_content_session_id (user_prompts (import_batches store_a [[doc_prompt_b, doc_session_b]]))
        = [''B'']"
proof -
  have h: "store_invariant store_a"
    by (simp add: store_invariant_def primary_key_def unique_content_session_id_def
        unique_prompt_key_def unique_memory_session_id_def store_a_def session_a_row_def)
  have c: "memory_id_conflict store_a session_b"
    by (simp add: memory_id_conflict_def truthy_str_null_def store_a_def session_a_row_def
        session_b_def)
  have p: "payload doc_session_b = SessionPayload session_b" by (simp add: doc_session_b_def)
  have c': "memory_id_conflict
      (snd (importRemoteDocuments store_a (filter (\<lambda>x. kind x = kind_session) [doc_prompt_b]))) session_b"
    using c by (simp add: kind_def doc_prompt_b_def importRemoteDocuments_def orderedDocuments_def)
  note ev = import_batches_def importRemoteDocuments_def orderedDocuments_def kind_def
        import_document_def upsertSession_def upsertPrompt_def resolveImportedMemorySessionId_def
        truthy_str_null_def nullish_str_def fresh_id_def Let_def
        store_a_def session_a_row_def session_b_def prompt_b_def doc_session_b_def doc_prompt_b_def
  have run: "import_batches store_a [[doc_prompt_b, doc_session_b]] =
      store_a\<lparr> sdk_sessions := [session_a_row,
          \<lparr> content_session_id = ''B'', memory_session_id = None, project = ''Q'',
            user_prompt = Some ''yo'', custom_title = None, started_at = ''t2'',
            started_at_epoch = 2000, completed_at = None, completed_at_epoch = None,
            status = ''active'', s_id = 2 \<rparr>],
        user_prompts := [\<lparr> up_id = 1, up_content_session_id = ''B'', up_prompt_number = 1,
            up_prompt_text = ''yo'', up_created_at = ''t2'', up_created_at_epoch = 2000 \<rparr>] \<rparr>"
    by (simp add: ev)
  have n: "fst (importRemoteDocuments store_a [doc_prompt_b, doc_session_b]) = 2"
    by (simp add: ev)
  from imports_preserve_uniqueness
         [OF h, where batches="[[doc_prompt_b, doc_session_b]]" and s=session_b and ex=None
            and d=doc_session_b and ds="[doc_prompt_b]" and before="[]"] c p
  have a: "store_invariant (import_batches store_a [[doc_prompt_b, doc_session_b]])"
    "resolveImportedMemorySessionId store_a session_b None = None"
    "upsertSession store_a session_b = upsertSession store_a (session_b\<lparr>memory_session_id := None\<rparr>)"
    "importRemoteDocuments store_a [doc_session_b, doc_prompt_b]
       = importRemoteDocuments store_a
           [doc_session_b\<lparr> payload := SessionPayload (session_b\<lparr>memory_session_id := None\<rparr>) \<rparr>,
            doc_prompt_b]"
    by simp_all
  from imports_preserve_uniqueness
         [OF h, where s=session_b and d=doc_session_b and ds="[]" and before="[doc_prompt_b]"] c' p
  have b: "importRemoteDocuments store_a [doc_prompt_b, doc_session_b]
       = importRemoteDocuments store_a
           [doc_prompt_b,
            doc_session_b\<lparr> payload := SessionPayload (session_b\<lparr>memory_session_id := None\<rparr>) \<rparr>]"
    by simp
  have m: "map memory_session_id (sdk_sessions (import_batches store_a [[doc_prompt_b, doc_session_b]]))
        = [Some ''X'', None]"
    "map up_content_session_id (user_prompts (import_batches store_a [[doc_prompt_b, doc_session_b]]))
        = [''B'']"
    by (simp_all add: run) (simp add: session_a_row_def)
  from h a c b n m show ?thesis by blast
qed

section \<open>Importing the same batch twice\<close>



























lemma find_append_found: "find P xs \<noteq> None \<Longrightarrow> find P (xs @ ys) \<noteq> None"
  by (induction xs) auto




























section \<open>Push batches are deduplicated and sorted\<close>

lemma map_of_map_set: "map_of (map_set m k v) = (map_of m)(k \<mapsto> v)"
  by (induction m k v rule: map_set.induct) (auto simp: fun_eq_iff)

lemma map_set_keys: "fst ` set (map_set m k v) = insert k (fst ` set m)"
proof -
  have "dom (map_of (map_set m k v)) = insert k (dom (map_of m))"
    by (simp add: map_of_map_set)
  then show ?thesis by (simp add: dom_map_of_conv_image_fst)
qed

lemma map_set_distinct: "distinct (map fst m) \<Longrightarrow> distinct (map fst (map_set m k v))"
proof (induction m k v rule: map_set.induct)
  case (1 k v)
  then show ?case by simp
next
  case (2 k' v' m k v)
  show ?case
  proof (cases "k' = k")
    case True
    with 2 show ?thesis by simp
  next
    case False
    with 2 have "distinct (map fst (map_set m k v))" by simp
    moreover have "k' \<notin> fst ` set (map_set m k v)"
      using 2(2) False by (simp add: map_set_keys)
    ultimately show ?thesis using False by simp
  qed
qed

lemma good_map_add:
  assumes g: "good_map m S"
  shows "good_map (addDocument m d) (insert d S)"
proof -
  from g have dm: "distinct (map fst m)"
    and old: "\<And>k v. map_of m k = Some v \<Longrightarrow> doc_id v = k \<and> v \<in> S
           \<and> (\<forall>d'\<in>S. doc_id d' = k \<longrightarrow> updatedAtEpoch d' \<le> updatedAtEpoch v)"
    and dom: "dom (map_of m) = doc_id ` S"
    unfolding good_map_def by blast+
  have replaced: "good_map (map_set m (doc_id d) d) (insert d S)"
    if le: "\<And>d'. d' \<in> S \<Longrightarrow> doc_id d' = doc_id d \<Longrightarrow> updatedAtEpoch d' \<le> updatedAtEpoch d"
  proof -
    have a: "distinct (map fst (map_set m (doc_id d) d))" by (rule map_set_distinct[OF dm])
    have b: "dom (map_of (map_set m (doc_id d) d)) = doc_id ` insert d S"
      by (simp add: map_of_map_set dom)
    have c: "doc_id v = k \<and> v \<in> insert d S
           \<and> (\<forall>d'\<in>insert d S. doc_id d' = k \<longrightarrow> updatedAtEpoch d' \<le> updatedAtEpoch v)"
      if kv: "map_of (map_set m (doc_id d) d) k = Some v" for k v
    proof (cases "k = doc_id d")
      case True
      with kv have "v = d" by (simp add: map_of_map_set)
      with True le show ?thesis by auto
    next
      case False
      with kv have "map_of m k = Some v" by (simp add: map_of_map_set)
      from old[OF this] False show ?thesis by auto
    qed
    from a b c show ?thesis unfolding good_map_def by blast
  qed
  show ?thesis
  proof (cases "map_of m (doc_id d)")
    case None
    then have "doc_id d \<notin> doc_id ` S" using dom by (metis domIff)
    then have "\<And>d'. d' \<in> S \<Longrightarrow> doc_id d' = doc_id d \<Longrightarrow> updatedAtEpoch d' \<le> updatedAtEpoch d"
      by (metis imageI)
    from replaced[OF this] show ?thesis by (simp add: addDocument_def None)
  next
    case (Some existing)
    show ?thesis
    proof (cases "updatedAtEpoch existing \<le> updatedAtEpoch d")
      case True
      have "updatedAtEpoch d' \<le> updatedAtEpoch d" if "d' \<in> S" "doc_id d' = doc_id d" for d'
        using old[OF Some] that True by fastforce
      from replaced[OF this] show ?thesis by (simp add: addDocument_def Some True)
    next
      case False
      have "good_map m (insert d S)"
      proof -
        from Some have "doc_id d \<in> dom (map_of m)" by blast
        with dom have b: "dom (map_of m) = doc_id ` insert d S" by auto
        have c: "doc_id v = k \<and> v \<in> insert d S
           \<and> (\<forall>d'\<in>insert d S. doc_id d' = k \<longrightarrow> updatedAtEpoch d' \<le> updatedAtEpoch v)"
          if kv: "map_of m k = Some v" for k v
        proof (cases "k = doc_id d")
          case True
          with kv Some have "v = existing" by simp
          with old[OF kv] False True show ?thesis by auto
        next
          case False
          with old[OF kv] show ?thesis by auto
        qed
        from dm b c show ?thesis unfolding good_map_def by blast
      qed
      then show ?thesis by (simp add: addDocument_def Some False)
    qed
  qed
qed

lemma good_map_addDocuments:
  "good_map m S \<Longrightarrow> good_map (addDocuments ds m) (S \<union> set ds)"
  unfolding addDocuments_def
proof (induction ds arbitrary: m S)
  case Nil
  then show ?case by simp
next
  case (Cons d ds)
  from Cons.IH[OF good_map_add[OF Cons.prems, of d]] show ?case by simp
qed

lemma good_map_empty: "good_map [] {}"
  by (simp add: good_map_def)


lemma set_insert_sorted: "set (insert_sorted c x ys) = insert x (set ys)"
  by (induction ys) auto

lemma set_array_sort: "set (array_sort c xs) = set xs"
  by (induction xs) (simp_all add: array_sort_def set_insert_sorted)

lemma distinct_map_insert_sorted:
  "distinct (map f (insert_sorted c x ys)) \<longleftrightarrow> f x \<notin> f ` set ys \<and> distinct (map f ys)"
  by (induction ys) (auto simp: set_insert_sorted)

lemma distinct_map_array_sort: "distinct (map f (array_sort c xs)) \<longleftrightarrow> distinct (map f xs)"
proof (induction xs)
  case Nil
  then show ?case by (simp add: array_sort_def)
next
  case (Cons x xs)
  have "array_sort c (x # xs) = insert_sorted c x (array_sort c xs)" by (simp add: array_sort_def)
  with Cons show ?case by (simp add: distinct_map_insert_sorted set_array_sort)
qed

lemma sorted_insert_sorted:
  assumes total: "\<And>a b. c a b \<le> 0 \<or> c b a \<le> 0"
    and trans: "\<And>a b d. c a b \<le> 0 \<Longrightarrow> c b d \<le> 0 \<Longrightarrow> c a d \<le> 0"
    and sorted: "sorted_wrt (\<lambda>a b. c a b \<le> 0) ys"
  shows "sorted_wrt (\<lambda>a b. c a b \<le> (0::int)) (insert_sorted c x ys)"
  using sorted
proof (induction ys)
  case Nil
  then show ?case by simp
next
  case (Cons y ys)
  show ?case
  proof (cases "c x y \<le> 0")
    case True
    have "c x z \<le> 0" if "z \<in> set ys" for z
      using Cons.prems that trans[OF True, of z] by simp
    with True Cons.prems show ?thesis by simp
  next
    case False
    with total[of x y] have yx: "c y x \<le> 0" by simp
    from Cons have "sorted_wrt (\<lambda>a b. c a b \<le> 0) (insert_sorted c x ys)" by simp
    with False yx Cons.prems show ?thesis by (auto simp: set_insert_sorted)
  qed
qed

lemma sorted_array_sort:
  assumes total: "\<And>a b. c a b \<le> 0 \<or> c b a \<le> 0"
    and trans: "\<And>a b d. c a b \<le> 0 \<Longrightarrow> c b d \<le> 0 \<Longrightarrow> c a d \<le> 0"
  shows "sorted_wrt (\<lambda>a b. c a b \<le> (0::int)) (array_sort c xs)"
proof (induction xs)
  case Nil
  then show ?case by (simp add: array_sort_def)
next
  case (Cons x xs)
  have "array_sort c (x # xs) = insert_sorted c x (array_sort c xs)" by (simp add: array_sort_def)
  with sorted_insert_sorted[where c=c and x=x, OF total trans Cons] show ?case by simp
qed

lemma compareDocuments_le:
  "compareDocuments pf l r \<le> 0 \<longleftrightarrow>
     updatedAtEpoch l < updatedAtEpoch r
     \<or> (updatedAtEpoch l = updatedAtEpoch r \<and> localeCompare pf (doc_id l) (doc_id r) \<le> 0)"
  by (auto simp: compareDocuments_def)

lemma sortDocuments_sorted:
  assumes "consistent_comparator pf"
  shows "sorted_by_epoch_and_id pf (sortDocuments pf m)"
proof -
  from assms have total: "localeCompare pf a b \<le> 0 \<or> localeCompare pf b a \<le> 0" for a b
    unfolding consistent_comparator_def by blast
  from assms have trans: "localeCompare pf a b \<le> 0 \<Longrightarrow> localeCompare pf b c \<le> 0
       \<Longrightarrow> localeCompare pf a c \<le> 0" for a b c
    unfolding consistent_comparator_def by blast
  have t: "compareDocuments pf a b \<le> 0 \<or> compareDocuments pf b a \<le> 0" for a b
    using total[of "doc_id a" "doc_id b"] by (auto simp: compareDocuments_le)
  have tr: "compareDocuments pf a b \<le> 0 \<Longrightarrow> compareDocuments pf b d \<le> 0
       \<Longrightarrow> compareDocuments pf a d \<le> 0" for a b d
    using trans[of "doc_id a" "doc_id b" "doc_id d"] by (auto simp: compareDocuments_le)
  have "sorted_wrt (\<lambda>a b. compareDocuments pf a b \<le> 0) (array_sort (compareDocuments pf) (map snd m))"
    by (rule sorted_array_sort[OF t tr])
  then show ?thesis
    by (simp add: sorted_by_epoch_and_id_def sortDocuments_def compareDocuments_le)
qed

lemma addDocuments_append: "addDocuments (xs @ ys) m = addDocuments ys (addDocuments xs m)"
  by (simp add: addDocuments_def)

lemma fold_addDocuments_concat:
  "fold (\<lambda>x m. addDocuments (h x) m) xs m = addDocuments (concat (map h xs)) m"
  by (induction xs arbitrary: m) (simp_all add: addDocuments_append, simp add: addDocuments_def)

lemma fold_addDocument_map:
  "fold (\<lambda>x m. addDocument m (h x)) xs m = addDocuments (map h xs) m"
  by (induction xs arbitrary: m) (simp_all add: addDocuments_def)

lemma collectPromptDocuments_push_batch:
  "collectPromptDocuments pf db prompts = push_batch pf (concat (map (prompt_added db) prompts))"
proof -
  have "(\<lambda>prompt documents.
            (let documents1 = addDocument documents (buildPromptDocument prompt) in
             case getSessionByContentSessionId db (p_content_session_id prompt) of
               None \<Rightarrow> documents1
             | Some session' \<Rightarrow>
                 addDocument documents1
                   (buildSessionDocument session' (Some (p_created_at_epoch prompt)))))
        = (\<lambda>prompt documents. addDocuments (prompt_added db prompt) documents)"
    by (auto simp: fun_eq_iff addDocuments_def prompt_added_def Let_def split: option.splits)
  then show ?thesis
    by (simp add: collectPromptDocuments_def push_batch_def fold_addDocuments_concat)
qed

lemma collectObservationDocuments_push_batch:
  "collectObservationDocuments pf db obs = push_batch pf (concat (map (observation_added pf db) obs))"
proof -
  have "(\<lambda>observation documents.
            (let documents1 = addDocument documents (buildObservationDocument pf observation) in
             case getSessionByMemorySessionId db (o_memory_session_id observation) of
               None \<Rightarrow> documents1
             | Some session' \<Rightarrow>
                 addDocument documents1
                   (buildSessionDocument session' (Some (o_created_at_epoch observation)))))
        = (\<lambda>observation documents. addDocuments (observation_added pf db observation) documents)"
    by (auto simp: fun_eq_iff addDocuments_def observation_added_def Let_def split: option.splits)
  then show ?thesis
    by (simp add: collectObservationDocuments_def push_batch_def fold_addDocuments_concat)
qed

lemma collectSummaryDocuments_push_batch:
  "collectSummaryDocuments pf db sums = push_batch pf (concat (map (summary_added pf db) sums))"
proof -
  have "(\<lambda>summary documents.
            (let documents1 = addDocument documents (buildSummaryDocument pf summary) in
             case getSessionByMemorySessionId db (u_memory_session_id summary) of
               None \<Rightarrow> documents1
             | Some session' \<Rightarrow>
                 addDocument documents1
                   (buildSessionDocument session' (Some (u_created_at_epoch summary)))))
        = (\<lambda>summary documents. addDocuments (summary_added pf db summary) documents)"
    by (auto simp: fun_eq_iff addDocuments_def summary_added_def Let_def split: option.splits)
  then show ?thesis
    by (simp add: collectSummaryDocuments_def push_batch_def fold_addDocuments_concat)
qed

lemma collectBootstrapDocuments_push_batch:
  "collectBootstrapDocuments pf db = push_batch pf (bootstrap_added pf db)"
  by (simp add: collectBootstrapDocuments_def push_batch_def bootstrap_added_def Let_def
      fold_addDocuments_concat fold_addDocument_map addDocuments_append)

lemma collectIncrementalDocuments_push_batch:
  "collectIncrementalDocuments pf db since = push_batch pf (incremental_added pf db since)"
  by (simp add: collectIncrementalDocuments_def push_batch_def incremental_added_def Let_def
      fold_addDocuments_concat addDocuments_append)

lemma push_batch_properties:
  "distinct (map doc_id (push_batch pf added))"
  "doc_id ` set (push_batch pf added) = doc_id ` set added"
  "set (push_batch pf added) \<subseteq> set added"
  "\<forall>d\<in>set (push_batch pf added). \<forall>d'\<in>set added.
      doc_id d' = doc_id d \<longrightarrow> updatedAtEpoch d' \<le> updatedAtEpoch d"
proof -
  let ?m = "addDocuments added []"
  have g: "good_map ?m (set added)"
    using good_map_addDocuments[OF good_map_empty, of added] by simp
  then have dm: "distinct (map fst ?m)"
    and old: "\<And>k v. map_of ?m k = Some v \<Longrightarrow> doc_id v = k \<and> v \<in> set added
           \<and> (\<forall>d'\<in>set added. doc_id d' = k \<longrightarrow> updatedAtEpoch d' \<le> updatedAtEpoch v)"
    and dom: "dom (map_of ?m) = doc_id ` set added"
    unfolding good_map_def by blast+
  have entry: "doc_id (snd e) = fst e \<and> snd e \<in> set added
           \<and> (\<forall>d'\<in>set added. doc_id d' = fst e \<longrightarrow> updatedAtEpoch d' \<le> updatedAtEpoch (snd e))"
    if "e \<in> set ?m" for e
  proof -
    from that dm have "map_of ?m (fst e) = Some (snd e)" by simp
    from old[OF this] show ?thesis .
  qed
  have keys: "map doc_id (map snd ?m) = map fst ?m"
    using entry by simp
  have setL: "set (push_batch pf added) = snd ` set ?m"
    by (simp add: push_batch_def sortDocuments_def set_array_sort)
  show "distinct (map doc_id (push_batch pf added))"
    using dm keys by (simp add: push_batch_def sortDocuments_def distinct_map_array_sort del: map_map)
  have "(\<lambda>e. doc_id (snd e)) ` set ?m = fst ` set ?m"
    by (rule image_cong[OF refl]) (simp add: entry)
  then have "doc_id ` snd ` set ?m = fst ` set ?m"
    by (simp add: image_image)
  then show "doc_id ` set (push_batch pf added) = doc_id ` set added"
    using dom by (simp add: setL dom_map_of_conv_image_fst)
  show "set (push_batch pf added) \<subseteq> set added"
    using entry by (auto simp: setL)
  show "\<forall>d\<in>set (push_batch pf added). \<forall>d'\<in>set added.
      doc_id d' = doc_id d \<longrightarrow> updatedAtEpoch d' \<le> updatedAtEpoch d"
    using entry by (auto simp: setL)
qed

lemma compare_strings_total: "compare_strings a b \<le> 0 \<or> compare_strings b a \<le> 0"
proof (induction a b rule: compare_strings.induct)
  case (4 x xs y ys)
  define i where "i = (of_char x :: nat)"
  define j where "j = (of_char y :: nat)"
  consider "i < j" | "j < i" | "i = j" by linarith
  then show ?case
  proof cases
    case 1 then show ?thesis by (simp add: i_def j_def)
  next
    case 2 then show ?thesis by (simp add: i_def j_def)
  next
    case 3 with 4 show ?thesis by (simp add: i_def j_def)
  qed
qed simp_all

lemma compare_strings_Cons_le:
  "compare_strings (x # xs) (y # ys) \<le> 0 \<longleftrightarrow>
     (of_char x :: nat) < of_char y \<or> ((of_char x :: nat) = of_char y \<and> compare_strings xs ys \<le> 0)"
  by auto

lemma compare_strings_trans:
  "compare_strings a b \<le> 0 \<Longrightarrow> compare_strings b c \<le> 0 \<Longrightarrow> compare_strings a c \<le> 0"
proof (induction a b arbitrary: c rule: compare_strings.induct)
  case 1
  then show ?case by simp
next
  case (2 y ys)
  then show ?case by (cases c) simp_all
next
  case (3 x xs)
  then show ?case by simp
next
  case (4 x xs y ys)
  from "4.prems"(2) obtain z zs where c: "c = z # zs" by (cases c) simp_all
  define i where "i = (of_char x :: nat)"
  define j where "j = (of_char y :: nat)"
  define k where "k = (of_char z :: nat)"
  from "4.prems"(1) have ab: "i < j \<or> (i = j \<and> compare_strings xs ys \<le> 0)"
    unfolding i_def j_def by (simp only: compare_strings_Cons_le)
  from "4.prems"(2) have bc: "j < k \<or> (j = k \<and> compare_strings ys zs \<le> 0)"
    unfolding c j_def k_def by (simp only: compare_strings_Cons_le)
  have "i < k \<or> (i = k \<and> compare_strings xs zs \<le> 0)"
  proof (cases "i = j \<and> j = k")
    case True
    with ab bc have "compare_strings xs ys \<le> 0" "compare_strings ys zs \<le> 0" by simp_all
    moreover from True have "\<not> i < j" "\<not> j < i" by simp_all
    ultimately have "compare_strings xs zs \<le> 0"
      using "4.IH"[of zs] unfolding i_def j_def by blast
    with True show ?thesis by simp
  next
    case False
    with ab bc show ?thesis by linarith
  qed
  then show ?case unfolding c i_def k_def by (simp only: compare_strings_Cons_le)
qed

lemma example_platform_consistent: "consistent_comparator example_platform"
proof -
  have "localeCompare example_platform = compare_strings" by (simp add: example_platform_def)
  then show ?thesis
    unfolding consistent_comparator_def
    using compare_strings_total compare_strings_trans by metis
qed

text \<open>
  Claim C7. Every collector returns \<open>push_batch\<close> of the documents it passes to
  \<^verbatim>\<open>addDocument\<close>: the per-row collectors used by the event-driven pushes, the
  bootstrap collector and the incremental collector. A push batch has at most one
  document per id, holds exactly the ids that were added, each with a document that was
  added and whose \<^verbatim>\<open>updatedAtEpoch\<close> is the highest among the added documents of that
  id, and it is sorted ascending by \<^verbatim>\<open>(updatedAtEpoch, id)\<close>, the ids compared by
  \<^verbatim>\<open>localeCompare\<close>, which the sort needs to be a consistent comparator (total and
  transitive).
\<close>

theorem push_batches_deduplicated_sorted:
  "collectPromptDocuments pf db prompts = push_batch pf (concat (map (prompt_added db) prompts))
   \<and> collectObservationDocuments pf db obs
       = push_batch pf (concat (map (observation_added pf db) obs))
   \<and> collectSummaryDocuments pf db sums = push_batch pf (concat (map (summary_added pf db) sums))
   \<and> collectBootstrapDocuments pf db = push_batch pf (bootstrap_added pf db)
   \<and> collectIncrementalDocuments pf db since = push_batch pf (incremental_added pf db since)
   \<and> distinct (map doc_id (push_batch pf added))
   \<and> doc_id ` set (push_batch pf added) = doc_id ` set added
   \<and> set (push_batch pf added) \<subseteq> set added
   \<and> (\<forall>d\<in>set (push_batch pf added). \<forall>d'\<in>set added.
         doc_id d' = doc_id d \<longrightarrow> updatedAtEpoch d' \<le> updatedAtEpoch d)
   \<and> (consistent_comparator pf \<longrightarrow> sorted_by_epoch_and_id pf (push_batch pf added))"
proof -
  have "consistent_comparator pf \<longrightarrow> sorted_by_epoch_and_id pf (push_batch pf added)"
    by (simp add: push_batch_def sortDocuments_sorted)
  with push_batch_properties[of pf added] show ?thesis
    by (simp only: collectPromptDocuments_push_batch collectObservationDocuments_push_batch
        collectSummaryDocuments_push_batch collectBootstrapDocuments_push_batch
        collectIncrementalDocuments_push_batch simp_thms)
qed

theorem push_batches_deduplicated_sorted_witness:
  "consistent_comparator example_platform
   \<and> map (\<lambda>d. (doc_id d, updatedAtEpoch d)) (bootstrap_added example_platform store_prompt)
       = [(''session:A'', 1000), (''prompt:A:1'', 1500), (''session:A'', 1500)]
   \<and> map (\<lambda>d. (doc_id d, updatedAtEpoch d)) (collectBootstrapDocuments example_platform store_prompt)
       = [(''prompt:A:1'', 1500), (''session:A'', 1500)]
   \<and> collectBootstrapDocuments example_platform store_prompt
       = push_batch example_platform (bootstrap_added example_platform store_prompt)
   \<and> distinct (map doc_id (collectBootstrapDocuments example_platform store_prompt))
   \<and> sorted_by_epoch_and_id example_platform (collectBootstrapDocuments example_platform store_prompt)"
proof -
  note ev = collectPromptDocuments_def sortDocuments_def array_sort_def compareDocuments_def
    addDocuments_def addDocument_def buildPromptDocument_def buildSessionDocument_def
    getSessionStableUpdatedEpoch_def getAllSessions_def getAllPrompts_def getAllObservations_def
    getAllSummaries_def prompt_left_join_def prompt_join_row_def getSessionByContentSessionId_def
    collectObservationDocuments_def collectSummaryDocuments_def
    store_prompt_def store_a_def session_a_row_def example_platform_def Number_toString_def unsigned_toString_def significant_digits_def decimal_digit_def Let_def
  have a: "map (\<lambda>d. (doc_id d, updatedAtEpoch d)) (bootstrap_added example_platform store_prompt)
       = [(''session:A'', 1000), (''prompt:A:1'', 1500), (''session:A'', 1500)]"
    by (simp add: bootstrap_added_def ev)
  have b: "map (\<lambda>d. (doc_id d, updatedAtEpoch d)) (collectBootstrapDocuments example_platform store_prompt)
       = [(''prompt:A:1'', 1500), (''session:A'', 1500)]"
    by (simp add: collectBootstrapDocuments_def ev)
  from push_batches_deduplicated_sorted
         [where pf=example_platform and db=store_prompt
            and added="bootstrap_added example_platform store_prompt"]
  have t: "collectBootstrapDocuments example_platform store_prompt
             = push_batch example_platform (bootstrap_added example_platform store_prompt)"
    and d: "distinct (map doc_id (push_batch example_platform
                (bootstrap_added example_platform store_prompt)))"
    and s: "consistent_comparator example_platform \<longrightarrow> sorted_by_epoch_and_id example_platform
              (push_batch example_platform (bootstrap_added example_platform store_prompt))"
    by blast+
  from d s example_platform_consistent
  have "distinct (map doc_id (collectBootstrapDocuments example_platform store_prompt))"
    and "sorted_by_epoch_and_id example_platform (collectBootstrapDocuments example_platform store_prompt)"
    by (simp_all only: t simp_thms)
  with t example_platform_consistent a b show ?thesis by blast
qed

section \<open>Document ids are functions of content\<close>









section \<open>Loading and saving the state file\<close>

lemma loadStateFile_object:
  assumes "get_property (loadStateFile fs p) ''targets'' = Some t"
  obtains kvs where "loadStateFile fs p = JObj kvs" "map_of kvs ''targets'' = Some t"
    "map_of kvs ''version'' = Some (JNum 1)"
proof -
  from assms obtain kvs where k: "loadStateFile fs p = JObj kvs" "map_of kvs ''targets'' = Some t"
    by (cases "loadStateFile fs p") (simp_all add: get_property_def)
  have "get_property (loadStateFile fs p) ''version'' = Some (JNum 1)"
    by (auto simp: loadStateFile_def loadStateFile_try_def empty_state_def STATE_VERSION_def
        get_property_def split: option.splits file_content.splits json.splits)
  with k have "map_of kvs ''version'' = Some (JNum 1)" by (simp add: get_property_def)
  with k that show thesis by blast
qed

lemma asTargetState_object: "asTargetState (target_state_object st) = Some st"
  by (simp add: asTargetState_def target_state_object_def get_property_def)

lemma saveTargetState_load:
  assumes "loadTargetState fs p fp = Some st"
  obtains fs' where "saveTargetState fs p fp st' = Some fs'"
    "loadTargetState fs' p fp = Some st'" "\<And>q. q \<noteq> p \<Longrightarrow> fs' q = fs q"
proof -
  from assms obtain targets where t: "get_property (loadStateFile fs p) ''targets'' = Some (JObj targets)"
    by (auto simp: loadTargetState_def split: option.splits json.splits)
  then obtain kvs where k: "loadStateFile fs p = JObj kvs" "map_of kvs ''targets'' = Some (JObj targets)"
    "map_of kvs ''version'' = Some (JNum 1)"
    by (rule loadStateFile_object)
  let ?targets' = "map_set targets fp (target_state_object st')"
  let ?kvs' = "map_set kvs ''targets'' (JObj ?targets')"
  let ?fs' = "fs(p \<mapsto> Json (JObj ?kvs'))"
  have s: "saveTargetState fs p fp st' = Some ?fs'"
    by (simp add: saveTargetState_def k saveStateFile_def)
  have l: "loadStateFile ?fs' p = JObj ?kvs'"
    by (simp add: loadStateFile_def loadStateFile_try_def get_property_def map_of_map_set k
        STATE_VERSION_def truthy_def)
  have g: "get_property (JObj ?kvs') ''targets'' = Some (JObj ?targets')"
    by (simp add: get_property_def map_of_map_set)
  have m: "map_of ?targets' fp = Some (target_state_object st')"
    by (simp add: map_of_map_set)
  obtain ob where ob: "target_state_object st' = JObj ob"
    by (simp add: target_state_object_def)
  have "loadTargetState ?fs' p fp = asTargetState (target_state_object st')"
    unfolding loadTargetState_def l g by (simp add: map_of_map_set ob)
  then have "loadTargetState ?fs' p fp = Some st'" by (simp only: asTargetState_object)
  with s that show thesis by simp
qed

lemma loadStateFile_missing:
  "fs p = None \<or> fs p = Some Unreadable \<or> fs p = Some Malformed \<Longrightarrow> loadStateFile fs p = empty_state"
  by (auto simp: loadStateFile_def loadStateFile_try_def)

lemma loadStateFile_rejected:
  assumes "fs p = Some (Json parsed)"
    and "get_property parsed ''version'' \<noteq> Some (JNum 1) \<or> get_property parsed ''targets'' = None"
  shows "loadStateFile fs p = empty_state"
proof (cases parsed)
  case JNull
  with assms(1) show ?thesis by (simp add: loadStateFile_def loadStateFile_try_def)
next
  case (JBool x)
  with assms show ?thesis
    by (simp add: loadStateFile_def loadStateFile_try_def STATE_VERSION_def get_property_def)
next
  case (JNum x)
  with assms show ?thesis
    by (simp add: loadStateFile_def loadStateFile_try_def STATE_VERSION_def get_property_def)
next
  case (JStr x)
  with assms show ?thesis
    by (simp add: loadStateFile_def loadStateFile_try_def STATE_VERSION_def get_property_def)
next
  case (JArr x)
  with assms show ?thesis
    by (simp add: loadStateFile_def loadStateFile_try_def STATE_VERSION_def get_property_def)
next
  case (JObj kvs)
  from assms(2) have "get_property parsed ''version'' \<noteq> Some (JNum STATE_VERSION)
      \<or> \<not> truthy (get_property parsed ''targets'')"
    by (auto simp: STATE_VERSION_def truthy_def)
  with assms(1) JObj show ?thesis
    by (simp add: loadStateFile_def loadStateFile_try_def)
qed

text \<open>
  Claim C8. Loading the state file never surfaces an error. For every file system and
  every state path, if the file is missing, cannot be read, does not parse, parses to a
  value whose \<^verbatim>\<open>version\<close> is not 1 or that has no \<^verbatim>\<open>targets\<close>,
  \<^verbatim>\<open>loadStateFile\<close> returns the empty state \<^verbatim>\<open>{version: 1, targets: {}}\<close>; and
  whenever the body of its \<^verbatim>\<open>try\<close> block throws, the function still returns the empty
  state. \<^verbatim>\<open>loadStateFile\<close> is a total function to state values, so it has no raising
  branch at all.
\<close>

theorem loadStateFile_never_raises:
  "((fs p = None \<or> fs p = Some Unreadable \<or> fs p = Some Malformed
      \<or> (\<exists>parsed. fs p = Some (Json parsed)
            \<and> (get_property parsed ''version'' \<noteq> Some (JNum 1)
                \<or> get_property parsed ''targets'' = None)))
     \<longrightarrow> loadStateFile fs p = JObj [(''version'', JNum 1), (''targets'', JObj [])])
   \<and> (\<forall>error. loadStateFile_try fs p = Inl error
         \<longrightarrow> loadStateFile fs p = JObj [(''version'', JNum 1), (''targets'', JObj [])])"
proof -
  have e: "empty_state = JObj [(''version'', JNum 1), (''targets'', JObj [])]"
    by (simp add: empty_state_def STATE_VERSION_def)
  have "loadStateFile fs p = empty_state" if "loadStateFile_try fs p = Inl error" for error
    using that by (simp add: loadStateFile_def)
  with loadStateFile_missing[of fs p] loadStateFile_rejected[of fs p] show ?thesis
    unfolding e by blast
qed

theorem loadStateFile_never_raises_witness:
  "loadStateFile (\<lambda>path. None) ''state.json'' = JObj [(''version'', JNum 1), (''targets'', JObj [])]
   \<and> loadStateFile ((\<lambda>path. None)(''state.json'' \<mapsto> Malformed)) ''state.json''
       = JObj [(''version'', JNum 1), (''targets'', JObj [])]
   \<and> loadStateFile ((\<lambda>path. None)(''state.json'' \<mapsto> Json JNull)) ''state.json''
       = JObj [(''version'', JNum 1), (''targets'', JObj [])]
   \<and> loadStateFile ((\<lambda>path. None)(''state.json'' \<mapsto>
          Json (JObj [(''version'', JNum 2), (''targets'', JObj [(''fingerprint'', JNull)])])))
        ''state.json''
       = JObj [(''version'', JNum 1), (''targets'', JObj [])]
   \<and> loadStateFile ((\<lambda>path. None)(''state.json'' \<mapsto> Json (JObj [(''version'', JNum 1)])))
        ''state.json''
       = JObj [(''version'', JNum 1), (''targets'', JObj [])]"
proof -
  let ?e = "JObj [(''version'', JNum 1), (''targets'', JObj [])]"
  have a: "loadStateFile (\<lambda>path. None) ''state.json'' = ?e"
    using loadStateFile_never_raises[of "\<lambda>path. None" "''state.json''"] by simp
  have b: "loadStateFile ((\<lambda>path. None)(''state.json'' \<mapsto> Malformed)) ''state.json'' = ?e"
    using loadStateFile_never_raises[of "(\<lambda>path. None)(''state.json'' \<mapsto> Malformed)" "''state.json''"]
    by simp
  have c: "loadStateFile ((\<lambda>path. None)(''state.json'' \<mapsto> Json JNull)) ''state.json'' = ?e"
    using loadStateFile_never_raises[of "(\<lambda>path. None)(''state.json'' \<mapsto> Json JNull)" "''state.json''"]
    by (simp add: loadStateFile_try_def)
  have d: "loadStateFile ((\<lambda>path. None)(''state.json'' \<mapsto>
          Json (JObj [(''version'', JNum 2), (''targets'', JObj [(''fingerprint'', JNull)])])))
        ''state.json'' = ?e"
    using loadStateFile_never_raises[of "(\<lambda>path. None)(''state.json'' \<mapsto>
          Json (JObj [(''version'', JNum 2), (''targets'', JObj [(''fingerprint'', JNull)])]))" "''state.json''"]
    by (simp add: get_property_def)
  have e: "loadStateFile ((\<lambda>path. None)(''state.json'' \<mapsto> Json (JObj [(''version'', JNum 1)])))
        ''state.json'' = ?e"
    using loadStateFile_never_raises[of "(\<lambda>path. None)(''state.json'' \<mapsto>
          Json (JObj [(''version'', JNum 1)]))" "''state.json''"]
    by (simp add: get_property_def)
  from a b c d e show ?thesis by blast
qed

text \<open>
  Claim C10. An event-driven push for an id that matches no local row is a no-op. When
  \<^verbatim>\<open>getPromptById\<close>, \<^verbatim>\<open>getObservationById\<close> or \<^verbatim>\<open>getSummaryById\<close> finds
  no row, the task completes and leaves the world as it was: the list of backend calls,
  the backend, the file system with the state file, and the local store are unchanged,
  and the \<^verbatim>\<open>schedule...Sync\<close> entry point returns that same world to its caller.
\<close>

theorem no_row_no_push:
  "(getPromptById (local_db w) promptId = None
      \<longrightarrow> userPromptSyncTask sync w promptId = (Completed, w)
          \<and> scheduleUserPromptSync sync w promptId = w)
   \<and> (getObservationById (local_db w) observationId = None
      \<longrightarrow> observationSyncTask sync w observationId = (Completed, w)
          \<and> scheduleObservationSync sync w observationId = w)
   \<and> (getSummaryById (local_db w) summaryId = None
      \<longrightarrow> summarySyncTask sync w summaryId = (Completed, w)
          \<and> scheduleSummarySync sync w summaryId = w)"
  by (simp add: userPromptSyncTask_def scheduleUserPromptSync_def observationSyncTask_def
      scheduleObservationSync_def summarySyncTask_def scheduleSummarySync_def)

theorem no_row_no_push_witness:
  "getPromptById (local_db first_world) 99 = None
   \<and> getObservationById (local_db first_world) 99 = None
   \<and> getSummaryById (local_db first_world) 99 = None
   \<and> scheduleUserPromptSync (memory_sync False False) first_world 99 = first_world
   \<and> scheduleObservationSync (memory_sync False False) first_world 99 = first_world
   \<and> scheduleSummarySync (memory_sync False False) first_world 99 = first_world
   \<and> calls first_world = [] \<and> disk first_world ''state.json'' = None"
proof -
  have p: "getPromptById (local_db first_world) 99 = None"
    by (simp add: getPromptById_def first_world_def store_prompt_def store_a_def session_a_row_def
        prompt_left_join_def prompt_join_row_def)
  have o: "getObservationById (local_db first_world) 99 = None"
    by (simp add: getObservationById_def first_world_def store_prompt_def store_a_def)
  have s: "getSummaryById (local_db first_world) 99 = None"
    by (simp add: getSummaryById_def first_world_def store_prompt_def store_a_def)
  have c: "calls first_world = [] \<and> disk first_world ''state.json'' = None"
    by (simp add: first_world_def)
  from no_row_no_push[of first_world 99 "memory_sync False False" 99 99] p o s
  have "scheduleUserPromptSync (memory_sync False False) first_world 99 = first_world
   \<and> scheduleObservationSync (memory_sync False False) first_world 99 = first_world
   \<and> scheduleSummarySync (memory_sync False False) first_world 99 = first_world"
    by simp
  with p o s c show ?thesis by blast
qed

section \<open>What a cycle does to the cursors\<close>

lemma fold_max_ge:
  "a \<le> fold (\<lambda>document maxEpoch. max maxEpoch (updatedAtEpoch document)) documents (a::int)"
proof (induction documents arbitrary: a)
  case Nil
  then show ?case by simp
next
  case (Cons d ds)
  have "a \<le> max a (updatedAtEpoch d)" by simp
  also have "\<dots> \<le> fold (\<lambda>document maxEpoch. max maxEpoch (updatedAtEpoch document)) ds
                       (max a (updatedAtEpoch d))"
    by (rule Cons.IH)
  finally show ?case by simp
qed

lemma fold_max_member:
  "d \<in> set documents \<Longrightarrow>
     updatedAtEpoch d \<le> fold (\<lambda>document maxEpoch. max maxEpoch (updatedAtEpoch document)) documents (a::int)"
proof (induction documents arbitrary: a)
  case Nil
  then show ?case by simp
next
  case (Cons x xs)
  show ?case
  proof (cases "d = x")
    case True
    have "updatedAtEpoch x \<le> max a (updatedAtEpoch x)" by simp
    also have "\<dots> \<le> fold (\<lambda>document maxEpoch. max maxEpoch (updatedAtEpoch document)) xs
                       (max a (updatedAtEpoch x))"
      by (rule fold_max_ge)
    finally show ?thesis using True by simp
  next
    case False
    with Cons.prems have "d \<in> set xs" by simp
    from Cons.IH[OF this] show ?thesis by simp
  qed
qed

lemma getMaxUpdatedEpoch_ge:
  "d \<in> set documents \<Longrightarrow> updatedAtEpoch d \<le> getMaxUpdatedEpoch documents"
  unfolding getMaxUpdatedEpoch_def by (rule fold_max_member)

lemma load_state_frame:
  "disk w' = disk w \<Longrightarrow> load_state sync w' = load_state sync w"
  by (simp add: load_state_def)

lemma save_state_load:
  assumes "load_state sync w = Some p"
  obtains w' where "save_state sync w st = Some w'" "load_state sync w' = Some st"
    "local_db w' = local_db w" "remote w' = remote w" "calls w' = calls w"
proof -
  from assms have "loadTargetState (disk w) (statePath sync) (targetFingerprint (backend sync)) = Some p"
    by (simp add: load_state_def)
  then obtain fs' where
    f: "saveTargetState (disk w) (statePath sync) (targetFingerprint (backend sync)) st = Some fs'"
      "loadTargetState fs' (statePath sync) (targetFingerprint (backend sync)) = Some st"
    by (rule saveTargetState_load)
  have "save_state sync w st = Some (w\<lparr>disk := fs'\<rparr>)" by (simp add: save_state_def f(1))
  moreover have "load_state sync (w\<lparr>disk := fs'\<rparr>) = Some st" by (simp add: load_state_def f(2))
  ultimately show thesis using that by simp
qed

lemma pushDocuments_effect:
  assumes wt: "load_state sync w = Some p"
  obtains (empty_batch) "documents = []" "pushDocuments sync w documents = (Completed, w)"
  | (rejected) w' where "documents \<noteq> []" "pushDocuments sync w documents = (Rejected, w')"
      "\<not> fst (upsertDocuments (backend sync) documents (remote w))"
      "local_db w' = local_db w" "disk w' = disk w"
      "calls w' = calls w @ [UpsertCall documents False]"
  | (pushed) w' where "documents \<noteq> []" "pushDocuments sync w documents = (Completed, w')"
      "local_db w' = local_db w"
      "calls w' = calls w @ [UpsertCall documents True]"
      "load_state sync w' = Some (p\<lparr>lastLocalPushEpoch :=
          max (lastLocalPushEpoch p) (getMaxUpdatedEpoch documents)\<rparr>)"
proof (cases "documents = []")
  case True
  with empty_batch show thesis by (simp add: pushDocuments_def)
next
  case False
  obtain ok r' where u: "upsertDocuments (backend sync) documents (remote w) = (ok, r')"
    by (cases "upsertDocuments (backend sync) documents (remote w)")
  let ?w1 = "w\<lparr> remote := r', calls := calls w @ [UpsertCall documents ok] \<rparr>"
  show thesis
  proof (cases ok)
    case f: False
    have "pushDocuments sync w documents = (Rejected, ?w1)"
      using False f by (simp add: pushDocuments_def u Let_def)
    with rejected[of ?w1] False u f show thesis by simp
  next
    case True
    have l: "load_state sync ?w1 = Some p" using wt by (simp add: load_state_def)
    let ?st = "p\<lparr>lastLocalPushEpoch := max (lastLocalPushEpoch p) (getMaxUpdatedEpoch documents)\<rparr>"
    from l obtain w2 where s: "save_state sync ?w1 ?st = Some w2" "load_state sync w2 = Some ?st"
      "local_db w2 = local_db ?w1" "remote w2 = remote ?w1" "calls w2 = calls ?w1"
      by (rule save_state_load)
    have "pushDocuments sync w documents = (Completed, w2)"
      using False True l s(1) by (simp add: pushDocuments_def u Let_def)
    with pushed[of w2] False s True show thesis by simp
  qed
qed

lemma cycle_invariantI:
  assumes "calls w1 = calls w @ cs" "local_db w1 = local_db w" "load_state sync w1 = Some p1"
    "bootstrapComplete p1 = bootstrapComplete p" "lastPullEpoch p1 = lastPullEpoch p"
    "lastPullEpoch st = lastPullEpoch p" "lastLocalPushEpoch p \<le> lastLocalPushEpoch p1"
    "lastLocalPushEpoch p1 \<le> lastLocalPushEpoch st" "bootstrapComplete p \<longrightarrow> bootstrapComplete st"
    "\<And>batch d. UpsertCall batch True \<in> set cs \<Longrightarrow> d \<in> set batch
        \<Longrightarrow> updatedAtEpoch d \<le> lastLocalPushEpoch p1"
    "\<And>since fetched. FetchCall since fetched \<notin> set cs"
    "(\<forall>batch. UpsertCall batch True \<notin> set cs) \<Longrightarrow> disk w1 = disk w \<and> p1 = p"
  shows "cycle_invariant sync p w st w1"
  unfolding cycle_invariant_def
  apply (rule exI[of _ cs])
  apply (rule exI[of _ p1])
  using assms apply blast
  done

lemma cycle_invariantE:
  assumes "cycle_invariant sync p w st w1"
  obtains cs p1 where "calls w1 = calls w @ cs" "local_db w1 = local_db w" "load_state sync w1 = Some p1"
    "bootstrapComplete p1 = bootstrapComplete p" "lastPullEpoch p1 = lastPullEpoch p"
    "lastPullEpoch st = lastPullEpoch p" "lastLocalPushEpoch p \<le> lastLocalPushEpoch p1"
    "lastLocalPushEpoch p1 \<le> lastLocalPushEpoch st" "bootstrapComplete p \<longrightarrow> bootstrapComplete st"
    "\<forall>batch d. UpsertCall batch True \<in> set cs \<longrightarrow> d \<in> set batch
        \<longrightarrow> updatedAtEpoch d \<le> lastLocalPushEpoch p1"
    "\<forall>since fetched. FetchCall since fetched \<notin> set cs"
    "(\<forall>batch. UpsertCall batch True \<notin> set cs) \<longrightarrow> disk w1 = disk w \<and> p1 = p"
proof -
  from assms obtain cs p1 where
    "calls w1 = calls w @ cs \<and> local_db w1 = local_db w
        \<and> load_state sync w1 = Some p1
        \<and> bootstrapComplete p1 = bootstrapComplete p
        \<and> lastPullEpoch p1 = lastPullEpoch p
        \<and> lastPullEpoch st = lastPullEpoch p
        \<and> lastLocalPushEpoch p \<le> lastLocalPushEpoch p1
        \<and> lastLocalPushEpoch p1 \<le> lastLocalPushEpoch st
        \<and> (bootstrapComplete p \<longrightarrow> bootstrapComplete st)
        \<and> (\<forall>batch d. UpsertCall batch True \<in> set cs \<longrightarrow> d \<in> set batch
               \<longrightarrow> updatedAtEpoch d \<le> lastLocalPushEpoch p1)
        \<and> (\<forall>since fetched. FetchCall since fetched \<notin> set cs)
        \<and> ((\<forall>batch. UpsertCall batch True \<notin> set cs) \<longrightarrow> disk w1 = disk w \<and> p1 = p)"
    unfolding cycle_invariant_def by (elim exE) 
  then show thesis by (elim conjE) (rule that)
qed

lemma not_reliable_upsert:
  "\<not> fst (upsertDocuments be documents b) \<Longrightarrow> \<not> reliable be"
  unfolding reliable_def by blast

lemma inv_keep:
  assumes inv: "cycle_invariant sync p w st w1"
    and t: "lastPullEpoch st' = lastPullEpoch st" "lastLocalPushEpoch st \<le> lastLocalPushEpoch st'"
      "bootstrapComplete st \<longrightarrow> bootstrapComplete st'"
  shows "cycle_invariant sync p w st' w1"
proof -
  from inv obtain cs p1 where i: "calls w1 = calls w @ cs" "local_db w1 = local_db w"
    "load_state sync w1 = Some p1"
    "bootstrapComplete p1 = bootstrapComplete p" "lastPullEpoch p1 = lastPullEpoch p"
    "lastPullEpoch st = lastPullEpoch p" "lastLocalPushEpoch p \<le> lastLocalPushEpoch p1"
    "lastLocalPushEpoch p1 \<le> lastLocalPushEpoch st" "bootstrapComplete p \<longrightarrow> bootstrapComplete st"
    and ups': "\<forall>batch d. UpsertCall batch True \<in> set cs \<longrightarrow> d \<in> set batch
        \<longrightarrow> updatedAtEpoch d \<le> lastLocalPushEpoch p1"
    and nof': "\<forall>since fetched. FetchCall since fetched \<notin> set cs"
    and dsk': "(\<forall>batch. UpsertCall batch True \<notin> set cs) \<longrightarrow> disk w1 = disk w \<and> p1 = p"
    by (rule cycle_invariantE)
  have a: "lastPullEpoch st' = lastPullEpoch p" using i(6) t(1) by simp
  have b: "lastLocalPushEpoch p1 \<le> lastLocalPushEpoch st'" using i(8) t(2) by simp
  have c: "bootstrapComplete p \<longrightarrow> bootstrapComplete st'" using i(9) t(3) by simp
  show ?thesis
    unfolding cycle_invariant_def
    apply (rule exI[of _ cs])
    apply (rule exI[of _ p1])
    apply (intro conjI)
    apply (rule i(1))
    apply (rule i(2))
    apply (rule i(3))
    apply (rule i(4))
    apply (rule i(5))
    apply (rule a)
    apply (rule i(7))
    apply (rule b)
    apply (rule c)
    apply (rule ups')
    apply (rule nof')
    apply (rule dsk')
    done
qed

lemma inv_rejected:
  assumes inv: "cycle_invariant sync p w st w1"
    and r: "local_db w' = local_db w1" "disk w' = disk w1" "calls w' = calls w1 @ [c]"
    and c: "\<forall>batch. c \<noteq> UpsertCall batch True" "\<forall>since fetched. c \<noteq> FetchCall since fetched"
  shows "cycle_invariant sync p w st w'"
proof -
  from inv obtain cs p1 where i: "calls w1 = calls w @ cs" "local_db w1 = local_db w"
    "load_state sync w1 = Some p1"
    "bootstrapComplete p1 = bootstrapComplete p" "lastPullEpoch p1 = lastPullEpoch p"
    "lastPullEpoch st = lastPullEpoch p" "lastLocalPushEpoch p \<le> lastLocalPushEpoch p1"
    "lastLocalPushEpoch p1 \<le> lastLocalPushEpoch st" "bootstrapComplete p \<longrightarrow> bootstrapComplete st"
    and ups': "\<forall>batch d. UpsertCall batch True \<in> set cs \<longrightarrow> d \<in> set batch
        \<longrightarrow> updatedAtEpoch d \<le> lastLocalPushEpoch p1"
    and nof': "\<forall>since fetched. FetchCall since fetched \<notin> set cs"
    and dsk': "(\<forall>batch. UpsertCall batch True \<notin> set cs) \<longrightarrow> disk w1 = disk w \<and> p1 = p"
    by (rule cycle_invariantE)
  have a: "calls w' = calls w @ (cs @ [c])" using r(3) i(1) by simp
  have b: "local_db w' = local_db w" using r(1) i(2) by simp
  have l: "load_state sync w' = Some p1" using load_state_frame[OF r(2), of sync] i(3) by simp
  have u: "\<forall>batch d. UpsertCall batch True \<in> set (cs @ [c]) \<longrightarrow> d \<in> set batch
        \<longrightarrow> updatedAtEpoch d \<le> lastLocalPushEpoch p1"
  proof (intro allI impI)
    fix batch d assume m: "UpsertCall batch True \<in> set (cs @ [c])" and d: "d \<in> set batch"
    from c(1) have "c \<noteq> UpsertCall batch True" by (rule spec)
    with m have "UpsertCall batch True \<in> set cs" by simp
    with ups' d show "updatedAtEpoch d \<le> lastLocalPushEpoch p1" by blast
  qed
  have n: "\<forall>since fetched. FetchCall since fetched \<notin> set (cs @ [c])"
  proof (intro allI)
    fix since fetched
    from c(2) have "c \<noteq> FetchCall since fetched" by blast
    moreover from nof' have "FetchCall since fetched \<notin> set cs" by blast
    ultimately show "FetchCall since fetched \<notin> set (cs @ [c])" by simp
  qed
  have d: "(\<forall>batch. UpsertCall batch True \<notin> set (cs @ [c])) \<longrightarrow> disk w' = disk w \<and> p1 = p"
  proof
    assume h: "\<forall>batch. UpsertCall batch True \<notin> set (cs @ [c])"
    have "\<forall>batch. UpsertCall batch True \<notin> set cs"
    proof
      fix batch from h have "UpsertCall batch True \<notin> set (cs @ [c])" by (rule spec)
      then show "UpsertCall batch True \<notin> set cs" by simp
    qed
    with dsk' have "disk w1 = disk w \<and> p1 = p" by (rule mp)
    with r(2) show "disk w' = disk w \<and> p1 = p" by simp
  qed
  show ?thesis
    unfolding cycle_invariant_def
    apply (rule exI[of _ "cs @ [c]"])
    apply (rule exI[of _ p1])
    apply (intro conjI)
    apply (rule a)
    apply (rule b)
    apply (rule l)
    apply (rule i(4))
    apply (rule i(5))
    apply (rule i(6))
    apply (rule i(7))
    apply (rule i(8))
    apply (rule i(9))
    apply (rule u)
    apply (rule n)
    apply (rule d)
    done
qed

lemma inv_pushed:
  assumes inv: "cycle_invariant sync p w st w1"
    and r: "local_db w' = local_db w1" "calls w' = calls w1 @ [UpsertCall documents True]"
      "\<And>p1. load_state sync w1 = Some p1 \<Longrightarrow> load_state sync w' = Some (p1\<lparr>lastLocalPushEpoch :=
          max (lastLocalPushEpoch p1) (getMaxUpdatedEpoch documents)\<rparr>)"
    and t: "lastPullEpoch st' = lastPullEpoch st"
      "max (lastLocalPushEpoch st) (getMaxUpdatedEpoch documents) \<le> lastLocalPushEpoch st'"
      "bootstrapComplete st \<longrightarrow> bootstrapComplete st'"
  shows "cycle_invariant sync p w st' w'"
proof -
  from inv obtain cs p1 where i: "calls w1 = calls w @ cs" "local_db w1 = local_db w"
    "load_state sync w1 = Some p1"
    "bootstrapComplete p1 = bootstrapComplete p" "lastPullEpoch p1 = lastPullEpoch p"
    "lastPullEpoch st = lastPullEpoch p" "lastLocalPushEpoch p \<le> lastLocalPushEpoch p1"
    "lastLocalPushEpoch p1 \<le> lastLocalPushEpoch st" "bootstrapComplete p \<longrightarrow> bootstrapComplete st"
    and ups': "\<forall>batch d. UpsertCall batch True \<in> set cs \<longrightarrow> d \<in> set batch
        \<longrightarrow> updatedAtEpoch d \<le> lastLocalPushEpoch p1"
    and nof': "\<forall>since fetched. FetchCall since fetched \<notin> set cs"
    by (rule cycle_invariantE)
  let ?c = "UpsertCall documents True"
  let ?p2 = "p1\<lparr>lastLocalPushEpoch := max (lastLocalPushEpoch p1) (getMaxUpdatedEpoch documents)\<rparr>"
  have a: "calls w' = calls w @ (cs @ [?c])" using r(2) i(1) by simp
  have b: "local_db w' = local_db w" using r(1) i(2) by simp
  have l: "load_state sync w' = Some ?p2" by (rule r(3)[OF i(3)])
  have e1: "bootstrapComplete ?p2 = bootstrapComplete p" using i(4) by simp
  have e2: "lastPullEpoch ?p2 = lastPullEpoch p" using i(5) by simp
  have e3: "lastPullEpoch st' = lastPullEpoch p" using i(6) t(1) by simp
  have e4: "lastLocalPushEpoch p \<le> lastLocalPushEpoch ?p2" using i(7) by simp
  have e5: "lastLocalPushEpoch ?p2 \<le> lastLocalPushEpoch st'" using i(8) t(2) by simp
  have e6: "bootstrapComplete p \<longrightarrow> bootstrapComplete st'" using i(9) t(3) by simp
  have u: "\<forall>batch d. UpsertCall batch True \<in> set (cs @ [?c]) \<longrightarrow> d \<in> set batch
        \<longrightarrow> updatedAtEpoch d \<le> lastLocalPushEpoch ?p2"
  proof (intro allI impI)
    fix batch d assume m: "UpsertCall batch True \<in> set (cs @ [?c])" and d: "d \<in> set batch"
    show "updatedAtEpoch d \<le> lastLocalPushEpoch ?p2"
    proof (cases "UpsertCall batch True \<in> set cs")
      case True
      with ups' d have "updatedAtEpoch d \<le> lastLocalPushEpoch p1" by blast
      then show ?thesis by simp
    next
      case False
      with m have "batch = documents" by simp
      with getMaxUpdatedEpoch_ge[of d documents] d show ?thesis by simp
    qed
  qed
  have n: "\<forall>since fetched. FetchCall since fetched \<notin> set (cs @ [?c])"
    using nof' by simp
  have "UpsertCall documents True \<in> set (cs @ [?c])" by simp
  then have d: "(\<forall>batch. UpsertCall batch True \<notin> set (cs @ [?c])) \<longrightarrow> disk w' = disk w \<and> ?p2 = p"
    by blast
  show ?thesis
    unfolding cycle_invariant_def
    apply (rule exI[of _ "cs @ [?c]"])
    apply (rule exI[of _ ?p2])
    apply (intro conjI)
    apply (rule a)
    apply (rule b)
    apply (rule l)
    apply (rule e1)
    apply (rule e2)
    apply (rule e3)
    apply (rule e4)
    apply (rule e5)
    apply (rule e6)
    apply (rule u)
    apply (rule n)
    apply (rule d)
    done
qed

lemma not_reliable_fetch:
  "fst (fetchDocumentsUpdatedSince be since b) = None \<Longrightarrow> \<not> reliable be"
  unfolding reliable_def by blast

lemma not_reliable_initialize:
  "\<not> fst (initialize be b) \<Longrightarrow> \<not> reliable be"
  unfolding reliable_def by blast

lemma push_step:
  assumes inv: "cycle_invariant sync p w st w1"
    and run: "pushDocuments sync w1 documents = (out, w2)"
  shows "out \<noteq> IllTyped"
    and "out = Rejected \<Longrightarrow> cycle_invariant sync p w st w2 \<and> \<not> reliable (backend sync)"
    and "out = Completed \<Longrightarrow> lastPullEpoch st' = lastPullEpoch st
          \<Longrightarrow> max (lastLocalPushEpoch st) (getMaxUpdatedEpoch documents) \<le> lastLocalPushEpoch st'
          \<Longrightarrow> (bootstrapComplete st \<longrightarrow> bootstrapComplete st')
          \<Longrightarrow> cycle_invariant sync p w st' w2"
proof -
  from inv obtain cs p1 where l: "load_state sync w1 = Some p1"
    by (rule cycle_invariantE)
  have all: "out \<noteq> IllTyped
      \<and> (out = Rejected \<longrightarrow> cycle_invariant sync p w st w2 \<and> \<not> reliable (backend sync))
      \<and> (out = Completed \<longrightarrow> lastPullEpoch st' = lastPullEpoch st
          \<longrightarrow> max (lastLocalPushEpoch st) (getMaxUpdatedEpoch documents) \<le> lastLocalPushEpoch st'
          \<longrightarrow> (bootstrapComplete st \<longrightarrow> bootstrapComplete st')
          \<longrightarrow> cycle_invariant sync p w st' w2)"
    using l
  proof (cases rule: pushDocuments_effect[where sync=sync and w=w1 and p=p1 and documents=documents])
    case empty_batch
    from empty_batch(2) run have o: "out = Completed" and w: "w2 = w1" by simp_all
    have "cycle_invariant sync p w st' w1"
      if a: "lastPullEpoch st' = lastPullEpoch st"
        and b: "max (lastLocalPushEpoch st) (getMaxUpdatedEpoch documents) \<le> lastLocalPushEpoch st'"
        and c: "bootstrapComplete st \<longrightarrow> bootstrapComplete st'"
    proof -
      from b have "lastLocalPushEpoch st \<le> lastLocalPushEpoch st'" by simp
      with inv a show ?thesis using c by (rule inv_keep)
    qed
    with o w show ?thesis by simp
  next
    case (rejected w')
    from rejected(2) run have o: "out = Rejected" and w: "w2 = w'" by simp_all
    have i: "cycle_invariant sync p w st w'"
      using inv rejected(4) rejected(5) rejected(6) by (rule inv_rejected) simp_all
    have "\<not> reliable (backend sync)" using rejected(3) by (rule not_reliable_upsert)
    with i o w show ?thesis by simp
  next
    case (pushed w')
    from pushed(2) run have o: "out = Completed" and w: "w2 = w'" by simp_all
    have r: "load_state sync w' = Some (q\<lparr>lastLocalPushEpoch :=
          max (lastLocalPushEpoch q) (getMaxUpdatedEpoch documents)\<rparr>)"
      if "load_state sync w1 = Some q" for q
    proof -
      from that l have "q = p1" by simp
      with pushed(5) show ?thesis by simp
    qed
    have "cycle_invariant sync p w st' w'"
      if a: "lastPullEpoch st' = lastPullEpoch st"
        and b: "max (lastLocalPushEpoch st) (getMaxUpdatedEpoch documents) \<le> lastLocalPushEpoch st'"
        and c: "bootstrapComplete st \<longrightarrow> bootstrapComplete st'"
      using inv pushed(3) pushed(4) r a b c by (rule inv_pushed)
    with o w show ?thesis by simp
  qed
  from all show "out \<noteq> IllTyped" by (rule conjunct1)
  from all show "out = Rejected \<Longrightarrow> cycle_invariant sync p w st w2 \<and> \<not> reliable (backend sync)"
    by blast
  from all show "out = Completed \<Longrightarrow> lastPullEpoch st' = lastPullEpoch st
          \<Longrightarrow> max (lastLocalPushEpoch st) (getMaxUpdatedEpoch documents) \<le> lastLocalPushEpoch st'
          \<Longrightarrow> (bootstrapComplete st \<longrightarrow> bootstrapComplete st')
          \<Longrightarrow> cycle_invariant sync p w st' w2"
    by blast
qed

lemma bootstrap_step:
  assumes inv: "cycle_invariant sync p w st w1"
    and run: "bootstrap_phase sync bl st w1 = (out, st', w2)"
  shows "out \<noteq> IllTyped"
    and "out = Rejected \<Longrightarrow> cycle_invariant sync p w st w2 \<and> \<not> reliable (backend sync)"
    and "out = Completed \<Longrightarrow> cycle_invariant sync p w st' w2 \<and> (bl \<longrightarrow> bootstrapComplete st')"
proof -
  have all: "out \<noteq> IllTyped
      \<and> (out = Rejected \<longrightarrow> cycle_invariant sync p w st w2 \<and> \<not> reliable (backend sync))
      \<and> (out = Completed \<longrightarrow> cycle_invariant sync p w st' w2 \<and> (bl \<longrightarrow> bootstrapComplete st'))"
  proof (cases "bl \<and> \<not> bootstrapComplete st")
    case False
    with run have r: "out = Completed" "st' = st" "w2 = w1"
      by (simp_all add: bootstrap_phase_def)
    from False have "bl \<longrightarrow> bootstrapComplete st" by blast
    with r inv show ?thesis by simp
  next
    case True
    define docs where "docs = collectBootstrapDocuments (lib sync) (local_db w1)"
    obtain o' wx where pd: "pushDocuments sync w1 docs = (o', wx)"
      by (cases "pushDocuments sync w1 docs")
    define stx where "stx = st\<lparr> bootstrapComplete := True,
        lastLocalPushEpoch := max (lastLocalPushEpoch st) (getMaxUpdatedEpoch docs) \<rparr>"
    have ph: "bootstrap_phase sync bl st w1 =
        (case (o', wx) of (Completed, w1') \<Rightarrow> (Completed, stx, w1') | (failure, w1') \<Rightarrow> (failure, st, w1'))"
      using True pd unfolding stx_def docs_def by (simp add: bootstrap_phase_def Let_def)
    show ?thesis
    proof (cases o')
      case Completed
      with ph run have r: "out = Completed" "st' = stx" "w2 = wx" by simp_all
      from pd Completed have pd': "pushDocuments sync w1 docs = (Completed, wx)" by simp
      have "cycle_invariant sync p w stx wx"
      proof (rule push_step(3)[OF inv pd'])
        show "Completed = Completed" by simp
        show "lastPullEpoch stx = lastPullEpoch st" by (simp add: stx_def)
        show "max (lastLocalPushEpoch st) (getMaxUpdatedEpoch docs) \<le> lastLocalPushEpoch stx"
          by (simp add: stx_def)
        show "bootstrapComplete st \<longrightarrow> bootstrapComplete stx" by (simp add: stx_def)
      qed
      moreover have "bootstrapComplete stx" by (simp add: stx_def)
      ultimately show ?thesis using r by simp
    next
      case Rejected
      with ph run have r: "out = Rejected" "st' = st" "w2 = wx" by simp_all
      from pd Rejected have pd': "pushDocuments sync w1 docs = (Rejected, wx)" by simp
      have "cycle_invariant sync p w st wx \<and> \<not> reliable (backend sync)"
        by (rule push_step(2)[OF inv pd']) simp
      with r show ?thesis by simp
    next
      case IllTyped
      with pd have "pushDocuments sync w1 docs = (IllTyped, wx)" by simp
      from push_step(1)[OF inv this] show ?thesis by simp
    qed
  qed
  from all show "out \<noteq> IllTyped" by (rule conjunct1)
  from all show "out = Rejected \<Longrightarrow> cycle_invariant sync p w st w2 \<and> \<not> reliable (backend sync)"
    by blast
  from all show "out = Completed \<Longrightarrow> cycle_invariant sync p w st' w2 \<and> (bl \<longrightarrow> bootstrapComplete st')"
    by blast
qed

lemma incremental_step:
  assumes inv: "cycle_invariant sync p w st w1"
    and run: "incremental_phase sync st w1 = (out, st', w2)"
  shows "out \<noteq> IllTyped"
    and "out = Rejected \<Longrightarrow> cycle_invariant sync p w st w2 \<and> \<not> reliable (backend sync)"
    and "out = Completed \<Longrightarrow> cycle_invariant sync p w st' w2
           \<and> bootstrapComplete st' = bootstrapComplete st"
proof -
  define docs where "docs = collectIncrementalDocuments (lib sync) (local_db w1)
      (max 0 (lastLocalPushEpoch st - LOCAL_INCREMENTAL_OVERLAP_MS))"
  have all: "out \<noteq> IllTyped
      \<and> (out = Rejected \<longrightarrow> cycle_invariant sync p w st w2 \<and> \<not> reliable (backend sync))
      \<and> (out = Completed \<longrightarrow> cycle_invariant sync p w st' w2
            \<and> bootstrapComplete st' = bootstrapComplete st)"
  proof (cases "docs = []")
    case True
    with run have r: "out = Completed" "st' = st" "w2 = w1"
      by (simp_all add: incremental_phase_def Let_def docs_def[symmetric])
    with inv show ?thesis by simp
  next
    case False
    obtain o' wx where pd: "pushDocuments sync w1 docs = (o', wx)"
      by (cases "pushDocuments sync w1 docs")
    define stx where "stx = st\<lparr>
        lastLocalPushEpoch := max (lastLocalPushEpoch st) (getMaxUpdatedEpoch docs) \<rparr>"
    have ph: "incremental_phase sync st w1 =
        (case (o', wx) of (Completed, w1') \<Rightarrow> (Completed, stx, w1') | (failure, w1') \<Rightarrow> (failure, st, w1'))"
      using False pd unfolding stx_def docs_def by (simp add: incremental_phase_def Let_def)
    show ?thesis
    proof (cases o')
      case Completed
      with ph run have r: "out = Completed" "st' = stx" "w2 = wx" by simp_all
      from pd Completed have pd': "pushDocuments sync w1 docs = (Completed, wx)" by simp
      have "cycle_invariant sync p w stx wx"
      proof (rule push_step(3)[OF inv pd'])
        show "Completed = Completed" by simp
        show "lastPullEpoch stx = lastPullEpoch st" by (simp add: stx_def)
        show "max (lastLocalPushEpoch st) (getMaxUpdatedEpoch docs) \<le> lastLocalPushEpoch stx"
          by (simp add: stx_def)
        show "bootstrapComplete st \<longrightarrow> bootstrapComplete stx" by (simp add: stx_def)
      qed
      moreover have "bootstrapComplete stx = bootstrapComplete st" by (simp add: stx_def)
      ultimately show ?thesis using r by simp
    next
      case Rejected
      with ph run have r: "out = Rejected" "st' = st" "w2 = wx" by simp_all
      from pd Rejected have pd': "pushDocuments sync w1 docs = (Rejected, wx)" by simp
      have "cycle_invariant sync p w st wx \<and> \<not> reliable (backend sync)"
        by (rule push_step(2)[OF inv pd']) simp
      with r show ?thesis by simp
    next
      case IllTyped
      with pd have "pushDocuments sync w1 docs = (IllTyped, wx)" by simp
      from push_step(1)[OF inv this] show ?thesis by simp
    qed
  qed
  from all show "out \<noteq> IllTyped" by (rule conjunct1)
  from all show "out = Rejected \<Longrightarrow> cycle_invariant sync p w st w2 \<and> \<not> reliable (backend sync)"
    by blast
  from all show "out = Completed \<Longrightarrow> cycle_invariant sync p w st' w2
           \<and> bootstrapComplete st' = bootstrapComplete st"
    by blast
qed

lemma pull_step:
  assumes run: "pull_phase sync st w1 = (out, st', w2)"
  shows "out \<noteq> IllTyped"
    and "out = Rejected \<Longrightarrow> \<not> reliable (backend sync) \<and> local_db w2 = local_db w1
           \<and> disk w2 = disk w1 \<and> (\<exists>since. calls w2 = calls w1 @ [FetchCall since None])"
    and "out = Completed \<Longrightarrow> disk w2 = disk w1
           \<and> bootstrapComplete st' = bootstrapComplete st
           \<and> lastLocalPushEpoch st' = lastLocalPushEpoch st
           \<and> lastPullEpoch st \<le> lastPullEpoch st'
           \<and> (\<exists>since docs. calls w2 = calls w1 @ [FetchCall since (Some docs)]
                \<and> (\<forall>d. d \<in> set docs \<longrightarrow> updatedAtEpoch d \<le> lastPullEpoch st'))"
proof -
  define since where "since = max 0 (lastPullEpoch st - REMOTE_INCREMENTAL_OVERLAP_MS)"
  obtain fetched r' where f: "fetchDocumentsUpdatedSince (backend sync) since (remote w1) = (fetched, r')"
    by (cases "fetchDocumentsUpdatedSince (backend sync) since (remote w1)")
  define wx where "wx = w1\<lparr> remote := r', calls := calls w1 @ [FetchCall since fetched] \<rparr>"
  have ph: "pull_phase sync st w1 =
      (case fetched of
           None \<Rightarrow> (Rejected, st, wx)
         | Some remoteDocuments \<Rightarrow>
             if remoteDocuments \<noteq> []
             then (Completed,
                   st\<lparr> lastPullEpoch := max (lastPullEpoch st) (getMaxUpdatedEpoch remoteDocuments) \<rparr>,
                   wx\<lparr> local_db := snd (importRemoteDocuments (local_db wx) remoteDocuments) \<rparr>)
             else (Completed, st, wx))"
    using f unfolding wx_def since_def by (simp add: pull_phase_def Let_def)
  have all: "out \<noteq> IllTyped
    \<and> (out = Rejected \<longrightarrow> \<not> reliable (backend sync) \<and> local_db w2 = local_db w1
           \<and> disk w2 = disk w1 \<and> (\<exists>since. calls w2 = calls w1 @ [FetchCall since None]))
    \<and> (out = Completed \<longrightarrow> disk w2 = disk w1
           \<and> bootstrapComplete st' = bootstrapComplete st
           \<and> lastLocalPushEpoch st' = lastLocalPushEpoch st
           \<and> lastPullEpoch st \<le> lastPullEpoch st'
           \<and> (\<exists>since docs. calls w2 = calls w1 @ [FetchCall since (Some docs)]
                \<and> (\<forall>d. d \<in> set docs \<longrightarrow> updatedAtEpoch d \<le> lastPullEpoch st')))"
  proof (cases fetched)
    case None
    with ph run have r: "out = Rejected" "w2 = wx" by simp_all
    from f None have "fst (fetchDocumentsUpdatedSince (backend sync) since (remote w1)) = None" by simp
    then have n: "\<not> reliable (backend sync)" by (rule not_reliable_fetch)
    have "calls wx = calls w1 @ [FetchCall since None]" by (simp add: wx_def None)
    then have "\<exists>since. calls wx = calls w1 @ [FetchCall since None]" by (rule exI)
    moreover have "local_db wx = local_db w1" "disk wx = disk w1" by (simp_all add: wx_def)
    ultimately show ?thesis using r n by simp
  next
    case (Some docs)
    have c: "calls wx = calls w1 @ [FetchCall since (Some docs)]" by (simp add: wx_def Some)
    show ?thesis
    proof (cases "docs = []")
      case True
      with ph run Some have r: "out = Completed" "st' = st" "w2 = wx" by simp_all
      from True have "\<forall>d. d \<in> set docs \<longrightarrow> updatedAtEpoch d \<le> lastPullEpoch st" by simp
      with c have "\<exists>since docs. calls wx = calls w1 @ [FetchCall since (Some docs)]
                \<and> (\<forall>d. d \<in> set docs \<longrightarrow> updatedAtEpoch d \<le> lastPullEpoch st)" by blast
      moreover have "disk wx = disk w1" by (simp add: wx_def)
      ultimately show ?thesis using r by simp
    next
      case False
      define stx where "stx = st\<lparr> lastPullEpoch := max (lastPullEpoch st) (getMaxUpdatedEpoch docs) \<rparr>"
      define wy where "wy = wx\<lparr> local_db := snd (importRemoteDocuments (local_db wx) docs) \<rparr>"
      from ph run Some False have r: "out = Completed" "st' = stx" "w2 = wy"
        by (simp_all add: stx_def wy_def)
      have "\<forall>d. d \<in> set docs \<longrightarrow> updatedAtEpoch d \<le> lastPullEpoch stx"
      proof (intro allI impI)
        fix d assume "d \<in> set docs"
        then have "updatedAtEpoch d \<le> getMaxUpdatedEpoch docs" by (rule getMaxUpdatedEpoch_ge)
        then show "updatedAtEpoch d \<le> lastPullEpoch stx" by (simp add: stx_def)
      qed
      moreover have "calls wy = calls w1 @ [FetchCall since (Some docs)]" using c by (simp add: wy_def)
      ultimately have "\<exists>since docs. calls wy = calls w1 @ [FetchCall since (Some docs)]
                \<and> (\<forall>d. d \<in> set docs \<longrightarrow> updatedAtEpoch d \<le> lastPullEpoch stx)" by blast
      moreover have "disk wy = disk w1" by (simp add: wy_def wx_def)
      moreover have "bootstrapComplete stx = bootstrapComplete st"
        "lastLocalPushEpoch stx = lastLocalPushEpoch st" "lastPullEpoch st \<le> lastPullEpoch stx"
        by (simp_all add: stx_def)
      ultimately show ?thesis using r by simp
    qed
  qed
  from all show "out \<noteq> IllTyped" by (rule conjunct1)
  from all show "out = Rejected \<Longrightarrow> \<not> reliable (backend sync) \<and> local_db w2 = local_db w1
           \<and> disk w2 = disk w1 \<and> (\<exists>since. calls w2 = calls w1 @ [FetchCall since None])"
    by blast
  from all show "out = Completed \<Longrightarrow> disk w2 = disk w1
           \<and> bootstrapComplete st' = bootstrapComplete st
           \<and> lastLocalPushEpoch st' = lastLocalPushEpoch st
           \<and> lastPullEpoch st \<le> lastPullEpoch st'
           \<and> (\<exists>since docs. calls w2 = calls w1 @ [FetchCall since (Some docs)]
                \<and> (\<forall>d. d \<in> set docs \<longrightarrow> updatedAtEpoch d \<le> lastPullEpoch st'))"
    by blast
qed

lemma cycle_start:
  assumes l: "load_state sync w = Some p"
    and d: "local_db w0 = local_db w" "disk w0 = disk w" "calls w0 = calls w @ [InitializeCall ok]"
  shows "cycle_invariant sync p w p w0"
proof (rule cycle_invariantI[where cs="[InitializeCall ok]" and ?p1.0=p])
  show "calls w0 = calls w @ [InitializeCall ok]" by (rule d(3))
  show "local_db w0 = local_db w" by (rule d(1))
  show "load_state sync w0 = Some p" using load_state_frame[OF d(2), of sync] l by simp
  show "bootstrapComplete p = bootstrapComplete p" by (rule refl)
  show "lastPullEpoch p = lastPullEpoch p" by (rule refl)
  show "lastPullEpoch p = lastPullEpoch p" by (rule refl)
  show "lastLocalPushEpoch p \<le> lastLocalPushEpoch p" by (rule order_refl)
  show "lastLocalPushEpoch p \<le> lastLocalPushEpoch p" by (rule order_refl)
  show "bootstrapComplete p \<longrightarrow> bootstrapComplete p" by (rule impI)
  show "updatedAtEpoch d \<le> lastLocalPushEpoch p"
    if "UpsertCall batch True \<in> set [InitializeCall ok]" for batch d
    using that by simp
  show "FetchCall since fetched \<notin> set [InitializeCall ok]" for since fetched by simp
  show "disk w0 = disk w \<and> p = p" using d(2) by simp
qed

lemma inv_result:
  assumes inv: "cycle_invariant sync p w st w1"
    and f: "local_db w2 = local_db w1" "disk w2 = disk w1" "calls w2 = calls w1 @ cs2"
    and n: "\<forall>batch. UpsertCall batch True \<notin> set cs2"
  shows "\<exists>cs p'. calls w2 = calls w @ cs \<and> local_db w2 = local_db w
      \<and> load_state sync w2 = Some p'
      \<and> bootstrapComplete p' = bootstrapComplete p \<and> lastPullEpoch p' = lastPullEpoch p
      \<and> lastLocalPushEpoch p \<le> lastLocalPushEpoch p'
      \<and> (\<forall>batch d. UpsertCall batch True \<in> set cs \<longrightarrow> d \<in> set batch
             \<longrightarrow> updatedAtEpoch d \<le> lastLocalPushEpoch p')
      \<and> ((\<forall>batch. UpsertCall batch True \<notin> set cs) \<longrightarrow> disk w2 = disk w \<and> p' = p)"
proof -
  from inv obtain cs p1 where i: "calls w1 = calls w @ cs" "local_db w1 = local_db w"
    "load_state sync w1 = Some p1"
    "bootstrapComplete p1 = bootstrapComplete p" "lastPullEpoch p1 = lastPullEpoch p"
    "lastPullEpoch st = lastPullEpoch p" "lastLocalPushEpoch p \<le> lastLocalPushEpoch p1"
    "lastLocalPushEpoch p1 \<le> lastLocalPushEpoch st" "bootstrapComplete p \<longrightarrow> bootstrapComplete st"
    and ups': "\<forall>batch d. UpsertCall batch True \<in> set cs \<longrightarrow> d \<in> set batch
        \<longrightarrow> updatedAtEpoch d \<le> lastLocalPushEpoch p1"
    and nof': "\<forall>since fetched. FetchCall since fetched \<notin> set cs"
    and dsk': "(\<forall>batch. UpsertCall batch True \<notin> set cs) \<longrightarrow> disk w1 = disk w \<and> p1 = p"
    by (rule cycle_invariantE)
  have a: "calls w2 = calls w @ (cs @ cs2)" using f(3) i(1) by simp
  have b: "local_db w2 = local_db w" using f(1) i(2) by simp
  have l: "load_state sync w2 = Some p1" using load_state_frame[OF f(2), of sync] i(3) by simp
  have u: "\<forall>batch d. UpsertCall batch True \<in> set (cs @ cs2) \<longrightarrow> d \<in> set batch
        \<longrightarrow> updatedAtEpoch d \<le> lastLocalPushEpoch p1"
  proof (intro allI impI)
    fix batch d assume m: "UpsertCall batch True \<in> set (cs @ cs2)" and d: "d \<in> set batch"
    from n have "UpsertCall batch True \<notin> set cs2" by (rule spec)
    with m have "UpsertCall batch True \<in> set cs" by simp
    with ups' d show "updatedAtEpoch d \<le> lastLocalPushEpoch p1" by blast
  qed
  have d: "(\<forall>batch. UpsertCall batch True \<notin> set (cs @ cs2)) \<longrightarrow> disk w2 = disk w \<and> p1 = p"
  proof
    assume h: "\<forall>batch. UpsertCall batch True \<notin> set (cs @ cs2)"
    have "\<forall>batch. UpsertCall batch True \<notin> set cs"
    proof
      fix batch from h have "UpsertCall batch True \<notin> set (cs @ cs2)" by (rule spec)
      then show "UpsertCall batch True \<notin> set cs" by simp
    qed
    with dsk' have "disk w1 = disk w \<and> p1 = p" by (rule mp)
    with f(2) show "disk w2 = disk w \<and> p1 = p" by simp
  qed
  show ?thesis
    apply (rule exI[of _ "cs @ cs2"])
    apply (rule exI[of _ p1])
    apply (intro conjI)
    apply (rule a)
    apply (rule b)
    apply (rule l)
    apply (rule i(4))
    apply (rule i(5))
    apply (rule i(7))
    apply (rule u)
    apply (rule d)
    done
qed

lemma inv_completed:
  assumes inv: "cycle_invariant sync p w st w1"
    and f: "calls w2 = calls w1 @ [FetchCall since (Some docs)]"
      "load_state sync w2 = Some st'"
    and g: "\<forall>d. d \<in> set docs \<longrightarrow> updatedAtEpoch d \<le> lastPullEpoch st'"
      "lastLocalPushEpoch st' = lastLocalPushEpoch st" "lastPullEpoch st \<le> lastPullEpoch st'"
  shows "\<exists>cs. calls w2 = calls w @ cs
      \<and> (\<forall>batch d. UpsertCall batch True \<in> set cs \<longrightarrow> d \<in> set batch
             \<longrightarrow> updatedAtEpoch d \<le> lastLocalPushEpoch st')
      \<and> (\<forall>since fetched d. FetchCall since (Some fetched) \<in> set cs \<longrightarrow> d \<in> set fetched
             \<longrightarrow> updatedAtEpoch d \<le> lastPullEpoch st')
      \<and> lastLocalPushEpoch p \<le> lastLocalPushEpoch st' \<and> lastPullEpoch p \<le> lastPullEpoch st'"
proof -
  from inv obtain cs p1 where i: "calls w1 = calls w @ cs" "local_db w1 = local_db w"
    "load_state sync w1 = Some p1"
    "bootstrapComplete p1 = bootstrapComplete p" "lastPullEpoch p1 = lastPullEpoch p"
    "lastPullEpoch st = lastPullEpoch p" "lastLocalPushEpoch p \<le> lastLocalPushEpoch p1"
    "lastLocalPushEpoch p1 \<le> lastLocalPushEpoch st" "bootstrapComplete p \<longrightarrow> bootstrapComplete st"
    and ups': "\<forall>batch d. UpsertCall batch True \<in> set cs \<longrightarrow> d \<in> set batch
        \<longrightarrow> updatedAtEpoch d \<le> lastLocalPushEpoch p1"
    and nof': "\<forall>since fetched. FetchCall since fetched \<notin> set cs"
    by (rule cycle_invariantE)
  let ?c = "FetchCall since (Some docs)"
  have a: "calls w2 = calls w @ (cs @ [?c])" using f(1) i(1) by simp
  have u: "\<forall>batch d. UpsertCall batch True \<in> set (cs @ [?c]) \<longrightarrow> d \<in> set batch
        \<longrightarrow> updatedAtEpoch d \<le> lastLocalPushEpoch st'"
  proof (intro allI impI)
    fix batch d assume m: "UpsertCall batch True \<in> set (cs @ [?c])" and d: "d \<in> set batch"
    from m have "UpsertCall batch True \<in> set cs" by simp
    with ups' d have "updatedAtEpoch d \<le> lastLocalPushEpoch p1" by blast
    with i(8) g(2) show "updatedAtEpoch d \<le> lastLocalPushEpoch st'" by simp
  qed
  have v: "\<forall>since' fetched d. FetchCall since' (Some fetched) \<in> set (cs @ [?c]) \<longrightarrow> d \<in> set fetched
             \<longrightarrow> updatedAtEpoch d \<le> lastPullEpoch st'"
  proof (intro allI impI)
    fix since' fetched d
    assume m: "FetchCall since' (Some fetched) \<in> set (cs @ [?c])" and d: "d \<in> set fetched"
    from nof' have "FetchCall since' (Some fetched) \<notin> set cs" by blast
    with m have "fetched = docs" by simp
    with g(1) d show "updatedAtEpoch d \<le> lastPullEpoch st'" by blast
  qed
  have x: "lastLocalPushEpoch p \<le> lastLocalPushEpoch st'" using i(7) i(8) g(2) by simp
  have y: "lastPullEpoch p \<le> lastPullEpoch st'" using i(6) g(3) by simp
  show ?thesis
    apply (rule exI[of _ "cs @ [?c]"])
    apply (intro conjI)
    apply (rule a)
    apply (rule u)
    apply (rule v)
    apply (rule x)
    apply (rule y)
    done
qed

lemma performSynchronization_effect:
  assumes l: "load_state sync w = Some p"
    and run: "performSynchronization sync w bl = (out, w')"
  shows "out \<noteq> IllTyped"
    and "out = Rejected \<Longrightarrow> \<not> reliable (backend sync)
      \<and> (\<exists>cs p'. calls w' = calls w @ cs \<and> local_db w' = local_db w
      \<and> load_state sync w' = Some p'
      \<and> bootstrapComplete p' = bootstrapComplete p \<and> lastPullEpoch p' = lastPullEpoch p
      \<and> lastLocalPushEpoch p \<le> lastLocalPushEpoch p'
      \<and> (\<forall>batch d. UpsertCall batch True \<in> set cs \<longrightarrow> d \<in> set batch
             \<longrightarrow> updatedAtEpoch d \<le> lastLocalPushEpoch p')
      \<and> ((\<forall>batch. UpsertCall batch True \<notin> set cs) \<longrightarrow> disk w' = disk w \<and> p' = p))"
    and "out = Completed \<Longrightarrow> (\<exists>cs p'. calls w' = calls w @ cs \<and> load_state sync w' = Some p'
      \<and> (\<forall>batch d. UpsertCall batch True \<in> set cs \<longrightarrow> d \<in> set batch
             \<longrightarrow> updatedAtEpoch d \<le> lastLocalPushEpoch p')
      \<and> (\<forall>since fetched d. FetchCall since (Some fetched) \<in> set cs \<longrightarrow> d \<in> set fetched
             \<longrightarrow> updatedAtEpoch d \<le> lastPullEpoch p')
      \<and> lastLocalPushEpoch p \<le> lastLocalPushEpoch p' \<and> lastPullEpoch p \<le> lastPullEpoch p'
      \<and> (bl \<or> bootstrapComplete p \<longrightarrow> bootstrapComplete p'))"
proof -
  let ?R = "\<lambda>w'. \<not> reliable (backend sync)
      \<and> (\<exists>cs p'. calls w' = calls w @ cs \<and> local_db w' = local_db w
      \<and> load_state sync w' = Some p'
      \<and> bootstrapComplete p' = bootstrapComplete p \<and> lastPullEpoch p' = lastPullEpoch p
      \<and> lastLocalPushEpoch p \<le> lastLocalPushEpoch p'
      \<and> (\<forall>batch d. UpsertCall batch True \<in> set cs \<longrightarrow> d \<in> set batch
             \<longrightarrow> updatedAtEpoch d \<le> lastLocalPushEpoch p')
      \<and> ((\<forall>batch. UpsertCall batch True \<notin> set cs) \<longrightarrow> disk w' = disk w \<and> p' = p))"
  let ?C = "\<lambda>w'. (\<exists>cs p'. calls w' = calls w @ cs \<and> load_state sync w' = Some p'
      \<and> (\<forall>batch d. UpsertCall batch True \<in> set cs \<longrightarrow> d \<in> set batch
             \<longrightarrow> updatedAtEpoch d \<le> lastLocalPushEpoch p')
      \<and> (\<forall>since fetched d. FetchCall since (Some fetched) \<in> set cs \<longrightarrow> d \<in> set fetched
             \<longrightarrow> updatedAtEpoch d \<le> lastPullEpoch p')
      \<and> lastLocalPushEpoch p \<le> lastLocalPushEpoch p' \<and> lastPullEpoch p \<le> lastPullEpoch p'
      \<and> (bl \<or> bootstrapComplete p \<longrightarrow> bootstrapComplete p'))"
  obtain ok r' where ini: "initialize (backend sync) (remote w) = (ok, r')"
    by (cases "initialize (backend sync) (remote w)")
  define w0 where "w0 = w\<lparr> remote := r', calls := calls w @ [InitializeCall ok] \<rparr>"
  have w0: "local_db w0 = local_db w" "disk w0 = disk w" "calls w0 = calls w @ [InitializeCall ok]"
    by (simp_all add: w0_def)
  have l0: "load_state sync w0 = Some p" using load_state_frame[OF w0(2), of sync] l by simp
  have inv0: "cycle_invariant sync p w p w0" using l w0 by (rule cycle_start)
  have all: "(out = Rejected \<and> ?R w') \<or> (out = Completed \<and> ?C w')"
  proof (cases ok)
    case False
    from run ini False have r: "out = Rejected" "w' = w0"
      unfolding w0_def by (simp_all add: performSynchronization_def Let_def)
    from ini False have "\<not> fst (initialize (backend sync) (remote w))" by simp
    then have nr: "\<not> reliable (backend sync)" by (rule not_reliable_initialize)
    have "\<exists>cs p'. calls w0 = calls w @ cs \<and> local_db w0 = local_db w
      \<and> load_state sync w0 = Some p'
      \<and> bootstrapComplete p' = bootstrapComplete p \<and> lastPullEpoch p' = lastPullEpoch p
      \<and> lastLocalPushEpoch p \<le> lastLocalPushEpoch p'
      \<and> (\<forall>batch d. UpsertCall batch True \<in> set cs \<longrightarrow> d \<in> set batch
             \<longrightarrow> updatedAtEpoch d \<le> lastLocalPushEpoch p')
      \<and> ((\<forall>batch. UpsertCall batch True \<notin> set cs) \<longrightarrow> disk w0 = disk w \<and> p' = p)"
      using inv0 by (rule inv_result[where ?cs2.0="[]"]) simp_all
    with nr r show ?thesis by simp
  next
    case True
    obtain o1 st1 w1 where b: "bootstrap_phase sync bl p w0 = (o1, st1, w1)"
      by (cases "bootstrap_phase sync bl p w0")
    have ps1: "performSynchronization sync w bl =
        (case (o1, st1, w1) of
                   (Completed, state1, w1) \<Rightarrow>
                     (case incremental_phase sync state1 w1 of
                        (Completed, state2, w2) \<Rightarrow>
                          (case pull_phase sync state2 w2 of
                             (Completed, state3, w3) \<Rightarrow>
                               (case save_state sync w3 state3 of
                                  None \<Rightarrow> (IllTyped, w3)
                                | Some w4 \<Rightarrow> (Completed, w4))
                           | (failure, state3, w3) \<Rightarrow> (failure, w3))
                      | (failure, state2, w2) \<Rightarrow> (failure, w2))
                 | (failure, state1, w1) \<Rightarrow> (failure, w1))"
      using ini True l0 b unfolding w0_def by (simp add: performSynchronization_def Let_def)
    show ?thesis
    proof (cases o1)
      case IllTyped
      with bootstrap_step(1)[OF inv0 b] show ?thesis by simp
    next
      case Rejected
      with ps1 run have r: "out = Rejected" "w' = w1" by simp_all
      from Rejected bootstrap_step(2)[OF inv0 b]
      have i1: "cycle_invariant sync p w p w1" and nr: "\<not> reliable (backend sync)" by simp_all
      have "\<exists>cs p'. calls w1 = calls w @ cs \<and> local_db w1 = local_db w
      \<and> load_state sync w1 = Some p'
      \<and> bootstrapComplete p' = bootstrapComplete p \<and> lastPullEpoch p' = lastPullEpoch p
      \<and> lastLocalPushEpoch p \<le> lastLocalPushEpoch p'
      \<and> (\<forall>batch d. UpsertCall batch True \<in> set cs \<longrightarrow> d \<in> set batch
             \<longrightarrow> updatedAtEpoch d \<le> lastLocalPushEpoch p')
      \<and> ((\<forall>batch. UpsertCall batch True \<notin> set cs) \<longrightarrow> disk w1 = disk w \<and> p' = p)"
        using i1 by (rule inv_result[where ?cs2.0="[]"]) simp_all
      with nr r show ?thesis by simp
    next
      case Completed
      from Completed bootstrap_step(3)[OF inv0 b]
      have i1: "cycle_invariant sync p w st1 w1" and b1: "bl \<longrightarrow> bootstrapComplete st1" by simp_all
      obtain o2 st2 w2 where inc: "incremental_phase sync st1 w1 = (o2, st2, w2)"
        by (cases "incremental_phase sync st1 w1")
      have ps2: "performSynchronization sync w bl =
        (case (o2, st2, w2) of
                        (Completed, state2, w2) \<Rightarrow>
                          (case pull_phase sync state2 w2 of
                             (Completed, state3, w3) \<Rightarrow>
                               (case save_state sync w3 state3 of
                                  None \<Rightarrow> (IllTyped, w3)
                                | Some w4 \<Rightarrow> (Completed, w4))
                           | (failure, state3, w3) \<Rightarrow> (failure, w3))
                      | (failure, state2, w2) \<Rightarrow> (failure, w2))"
        using ps1 Completed inc by simp
      show ?thesis
      proof (cases o2)
        case IllTyped
        with incremental_step(1)[OF i1 inc] show ?thesis by simp
      next
        case Rejected
        with ps2 run have r: "out = Rejected" "w' = w2" by simp_all
        from Rejected incremental_step(2)[OF i1 inc]
        have i2: "cycle_invariant sync p w st1 w2" and nr: "\<not> reliable (backend sync)" by simp_all
        have "\<exists>cs p'. calls w2 = calls w @ cs \<and> local_db w2 = local_db w
      \<and> load_state sync w2 = Some p'
      \<and> bootstrapComplete p' = bootstrapComplete p \<and> lastPullEpoch p' = lastPullEpoch p
      \<and> lastLocalPushEpoch p \<le> lastLocalPushEpoch p'
      \<and> (\<forall>batch d. UpsertCall batch True \<in> set cs \<longrightarrow> d \<in> set batch
             \<longrightarrow> updatedAtEpoch d \<le> lastLocalPushEpoch p')
      \<and> ((\<forall>batch. UpsertCall batch True \<notin> set cs) \<longrightarrow> disk w2 = disk w \<and> p' = p)"
          using i2 by (rule inv_result[where ?cs2.0="[]"]) simp_all
        with nr r show ?thesis by simp
      next
        case c2: Completed
        from c2 incremental_step(3)[OF i1 inc]
        have i2: "cycle_invariant sync p w st2 w2" and b2: "bootstrapComplete st2 = bootstrapComplete st1"
          by simp_all
        from i2 obtain p2 where l2: "load_state sync w2 = Some p2"
          and bp: "bootstrapComplete p \<longrightarrow> bootstrapComplete st2"
          by (rule cycle_invariantE)
        obtain o3 st3 w3 where pl: "pull_phase sync st2 w2 = (o3, st3, w3)"
          by (cases "pull_phase sync st2 w2")
        have ps3: "performSynchronization sync w bl =
          (case (o3, st3, w3) of
                             (Completed, state3, w3) \<Rightarrow>
                               (case save_state sync w3 state3 of
                                  None \<Rightarrow> (IllTyped, w3)
                                | Some w4 \<Rightarrow> (Completed, w4))
                           | (failure, state3, w3) \<Rightarrow> (failure, w3))"
          using ps2 c2 pl by simp
        show ?thesis
        proof (cases o3)
          case IllTyped
          with pull_step(1)[OF pl] show ?thesis by simp
        next
          case Rejected
          with ps3 run have r: "out = Rejected" "w' = w3" by simp_all
          from Rejected pull_step(2)[OF pl]
          have nr: "\<not> reliable (backend sync)" and f: "local_db w3 = local_db w2" "disk w3 = disk w2"
            and "\<exists>since. calls w3 = calls w2 @ [FetchCall since None]" by simp_all
          then obtain since where c: "calls w3 = calls w2 @ [FetchCall since None]" by blast
          have "\<exists>cs p'. calls w3 = calls w @ cs \<and> local_db w3 = local_db w
      \<and> load_state sync w3 = Some p'
      \<and> bootstrapComplete p' = bootstrapComplete p \<and> lastPullEpoch p' = lastPullEpoch p
      \<and> lastLocalPushEpoch p \<le> lastLocalPushEpoch p'
      \<and> (\<forall>batch d. UpsertCall batch True \<in> set cs \<longrightarrow> d \<in> set batch
             \<longrightarrow> updatedAtEpoch d \<le> lastLocalPushEpoch p')
      \<and> ((\<forall>batch. UpsertCall batch True \<notin> set cs) \<longrightarrow> disk w3 = disk w \<and> p' = p)"
            using i2 f c by (rule inv_result) simp
          with nr r show ?thesis by simp
        next
          case c3: Completed
          from c3 pull_step(3)[OF pl]
          have d3: "disk w3 = disk w2" and b3: "bootstrapComplete st3 = bootstrapComplete st2"
            and e3: "lastLocalPushEpoch st3 = lastLocalPushEpoch st2"
            and q3: "lastPullEpoch st2 \<le> lastPullEpoch st3"
            and "\<exists>since docs. calls w3 = calls w2 @ [FetchCall since (Some docs)]
                \<and> (\<forall>d. d \<in> set docs \<longrightarrow> updatedAtEpoch d \<le> lastPullEpoch st3)"
            by simp_all
          then obtain since docs where c: "calls w3 = calls w2 @ [FetchCall since (Some docs)]"
            and g: "\<forall>d. d \<in> set docs \<longrightarrow> updatedAtEpoch d \<le> lastPullEpoch st3"
            by blast
          have l3: "load_state sync w3 = Some p2" using load_state_frame[OF d3, of sync] l2 by simp
          from l3 obtain w4 where s: "save_state sync w3 st3 = Some w4" "load_state sync w4 = Some st3"
            "local_db w4 = local_db w3" "remote w4 = remote w3" "calls w4 = calls w3"
            by (rule save_state_load)
          from ps3 c3 s(1) run have r: "out = Completed" "w' = w4" by simp_all
          from c s(5) have c4: "calls w4 = calls w2 @ [FetchCall since (Some docs)]" by simp
          have "\<exists>cs. calls w4 = calls w @ cs
      \<and> (\<forall>batch d. UpsertCall batch True \<in> set cs \<longrightarrow> d \<in> set batch
             \<longrightarrow> updatedAtEpoch d \<le> lastLocalPushEpoch st3)
      \<and> (\<forall>since fetched d. FetchCall since (Some fetched) \<in> set cs \<longrightarrow> d \<in> set fetched
             \<longrightarrow> updatedAtEpoch d \<le> lastPullEpoch st3)
      \<and> lastLocalPushEpoch p \<le> lastLocalPushEpoch st3 \<and> lastPullEpoch p \<le> lastPullEpoch st3"
            using i2 c4 s(2) g e3 q3 by (rule inv_completed)
          then obtain cs where k: "calls w4 = calls w @ cs"
            "\<forall>batch d. UpsertCall batch True \<in> set cs \<longrightarrow> d \<in> set batch
             \<longrightarrow> updatedAtEpoch d \<le> lastLocalPushEpoch st3"
            "\<forall>since fetched d. FetchCall since (Some fetched) \<in> set cs \<longrightarrow> d \<in> set fetched
             \<longrightarrow> updatedAtEpoch d \<le> lastPullEpoch st3"
            "lastLocalPushEpoch p \<le> lastLocalPushEpoch st3" "lastPullEpoch p \<le> lastPullEpoch st3"
            by (elim exE conjE)
          have bb: "bl \<or> bootstrapComplete p \<longrightarrow> bootstrapComplete st3"
            using b1 b2 b3 bp by simp
          have "?C w4"
            apply (rule exI[of _ cs])
            apply (rule exI[of _ st3])
            apply (intro conjI)
            apply (rule k(1))
            apply (rule s(2))
            apply (rule k(2))
            apply (rule k(3))
            apply (rule k(4))
            apply (rule k(5))
            apply (rule bb)
            done
          with r show ?thesis by simp
        qed
      qed
    qed
  qed
  from all show "out \<noteq> IllTyped" by (elim disjE conjE) simp_all
  from all show "out = Rejected \<Longrightarrow> ?R w'" by (elim disjE conjE) simp_all
  from all show "out = Completed \<Longrightarrow> ?C w'" by (elim disjE conjE) simp_all
qed



lemma reliable_completes:
  assumes l: "load_state sync w = Some p"
    and r: "reliable (backend sync)"
  obtains w' where "performSynchronization sync w bl = (Completed, w')"
proof -
  obtain out w' where run: "performSynchronization sync w bl = (out, w')"
    by (cases "performSynchronization sync w bl")
  from performSynchronization_effect(1)[OF l run] have "out \<noteq> IllTyped" .
  moreover have "out \<noteq> Rejected"
  proof
    assume "out = Rejected"
    from performSynchronization_effect(2)[OF l run this] r show False by simp
  qed
  ultimately have "out = Completed" by (cases out) simp_all
  with run that show thesis by simp
qed

section \<open>The cycle on the in-memory backend\<close>

lemmas example_collector_defs = collectPromptDocuments_def sortDocuments_def array_sort_def compareDocuments_def
    addDocuments_def addDocument_def buildPromptDocument_def buildSessionDocument_def
    getSessionStableUpdatedEpoch_def getAllSessions_def getAllPrompts_def getAllObservations_def
    getAllSummaries_def prompt_left_join_def prompt_join_row_def getSessionByContentSessionId_def
    collectObservationDocuments_def collectSummaryDocuments_def
    getPromptsSince_def getObservationsSince_def getSummariesSince_def
    store_prompt_def store_a_def session_a_row_def example_platform_def Number_toString_def unsigned_toString_def significant_digits_def decimal_digit_def Let_def

lemma bootstrap_documents_example:
  "collectBootstrapDocuments example_platform store_prompt = documents_a"
  by (simp add: collectBootstrapDocuments_def documents_a_def example_collector_defs)

lemma incremental_documents_example:
  "collectIncrementalDocuments example_platform store_prompt 0 = documents_a"
  by (simp add: collectIncrementalDocuments_def documents_a_def example_collector_defs)

lemma documents_a_max: "getMaxUpdatedEpoch documents_a = 1500"
  by (simp add: getMaxUpdatedEpoch_def documents_a_def)

lemma documents_a_nonempty: "documents_a \<noteq> []"
  by (simp add: documents_a_def)

lemmas example_cycle_defs = performSynchronization_def bootstrap_phase_def incremental_phase_def pull_phase_def
  pushDocuments_def load_state_def save_state_def loadTargetState_def saveTargetState_def
  loadStateFile_def loadStateFile_try_def saveStateFile_def empty_state_def STATE_VERSION_def
  get_property_def truthy_def initial_target_state_def asTargetState_def target_state_object_def
  LOCAL_INCREMENTAL_OVERLAP_MS_def REMOTE_INCREMENTAL_OVERLAP_MS_def
  memory_sync_def memory_backend_def first_world_def
  bootstrap_documents_example incremental_documents_example documents_a_max documents_a_nonempty
  Let_def

lemma cycle_upsert_down:
  "performSynchronization (memory_sync True False) first_world True
     = (Rejected, first_world\<lparr> calls := [InitializeCall True, UpsertCall documents_a False] \<rparr>)"
  by (simp add: example_cycle_defs)

lemma cycle_fetch_down:
  "fst (performSynchronization (memory_sync False True) first_world True) = Rejected"
  "load_state (memory_sync False True)
      (snd (performSynchronization (memory_sync False True) first_world True))
     = Some \<lparr> bootstrapComplete = False, lastLocalPushEpoch = 1500, lastPullEpoch = 0 \<rparr>"
  "calls (snd (performSynchronization (memory_sync False True) first_world True))
     = [InitializeCall True, UpsertCall documents_a True, UpsertCall documents_a True, FetchCall 0 None]"
  by (simp_all add: example_cycle_defs)


lemma first_world_state:
  "load_state (memory_sync a b) first_world
     = Some \<lparr> bootstrapComplete = False, lastLocalPushEpoch = 0, lastPullEpoch = 0 \<rparr>"
  by (simp add: example_cycle_defs)


lemma cycle_recovers:
  "fst (performSynchronization (memory_sync False False) world_after_failed_push True) = Completed"
  "load_state (memory_sync False False)
      (snd (performSynchronization (memory_sync False False) world_after_failed_push True))
     = Some \<lparr> bootstrapComplete = True, lastLocalPushEpoch = 1500, lastPullEpoch = 1500 \<rparr>"
  by (simp_all add: example_cycle_defs world_after_failed_push_def) (simp_all add: documents_a_def getMaxUpdatedEpoch_def)

lemma memory_backend_reliable: "reliable (backend (memory_sync False False))"
  by (simp add: reliable_def memory_sync_def memory_backend_def)

section \<open>Cursors after a cycle\<close>



text \<open>
  Claim C1, amended. When the backend rejects an operation of a cycle that started from a
  well-typed entry of the state file, the cycle leaves the local store untouched, the
  persisted \<^verbatim>\<open>bootstrapComplete\<close> and \<^verbatim>\<open>lastPullEpoch\<close> as they were, and the
  persisted \<^verbatim>\<open>lastLocalPushEpoch\<close> not lower than it was and covering every batch the
  cycle pushed before the failure. If no push of the cycle succeeded, in particular when
  \<^verbatim>\<open>upsertDocuments\<close> rejects on the first push or \<^verbatim>\<open>initialize\<close> rejects, the state
  file and the three cursors are unchanged. A later cycle on the same state path and
  target, against a backend none of whose operations rejects, completes with no cursor
  lower than the failed cycle left it, and with \<^verbatim>\<open>bootstrapComplete\<close> set when it is a
  bootstrapping cycle.
\<close>

theorem failed_cycle_keeps_cursors:
  assumes l: "load_state sync w = Some p"
    and run: "performSynchronization sync w bootstrapLocal = (Rejected, w')"
  shows "\<exists>cs p'. calls w' = calls w @ cs \<and> local_db w' = local_db w
      \<and> load_state sync w' = Some p'
      \<and> bootstrapComplete p' = bootstrapComplete p \<and> lastPullEpoch p' = lastPullEpoch p
      \<and> lastLocalPushEpoch p \<le> lastLocalPushEpoch p'
      \<and> (\<forall>batch d. UpsertCall batch True \<in> set cs \<longrightarrow> d \<in> set batch
             \<longrightarrow> updatedAtEpoch d \<le> lastLocalPushEpoch p')
      \<and> ((\<forall>batch. UpsertCall batch True \<notin> set cs) \<longrightarrow> disk w' = disk w \<and> p' = p)
      \<and> (\<forall>sync' bootstrapLocal'.
            reliable (backend sync') \<and> statePath sync' = statePath sync
            \<and> targetFingerprint (backend sync') = targetFingerprint (backend sync)
            \<longrightarrow> (\<exists>w'' p''. performSynchronization sync' w' bootstrapLocal' = (Completed, w'')
                    \<and> load_state sync' w'' = Some p''
                    \<and> lastLocalPushEpoch p' \<le> lastLocalPushEpoch p''
                    \<and> lastPullEpoch p' \<le> lastPullEpoch p''
                    \<and> (bootstrapLocal' \<longrightarrow> bootstrapComplete p'')))"
proof -
  from performSynchronization_effect(2)[OF l run]
  obtain cs p' where k: "calls w' = calls w @ cs" "local_db w' = local_db w"
    "load_state sync w' = Some p'"
    "bootstrapComplete p' = bootstrapComplete p" "lastPullEpoch p' = lastPullEpoch p"
    "lastLocalPushEpoch p \<le> lastLocalPushEpoch p'"
    "\<forall>batch d. UpsertCall batch True \<in> set cs \<longrightarrow> d \<in> set batch
             \<longrightarrow> updatedAtEpoch d \<le> lastLocalPushEpoch p'"
    "(\<forall>batch. UpsertCall batch True \<notin> set cs) \<longrightarrow> disk w' = disk w \<and> p' = p"
    by blast
  have rec: "\<forall>sync' bootstrapLocal'.
            reliable (backend sync') \<and> statePath sync' = statePath sync
            \<and> targetFingerprint (backend sync') = targetFingerprint (backend sync)
            \<longrightarrow> (\<exists>w'' p''. performSynchronization sync' w' bootstrapLocal' = (Completed, w'')
                    \<and> load_state sync' w'' = Some p''
                    \<and> lastLocalPushEpoch p' \<le> lastLocalPushEpoch p''
                    \<and> lastPullEpoch p' \<le> lastPullEpoch p''
                    \<and> (bootstrapLocal' \<longrightarrow> bootstrapComplete p''))"
  proof (intro allI impI)
    fix sync' :: "'a RemoteMemorySync" and bl'
    assume a: "reliable (backend sync') \<and> statePath sync' = statePath sync
            \<and> targetFingerprint (backend sync') = targetFingerprint (backend sync)"
    then have r: "reliable (backend sync')" and s: "statePath sync' = statePath sync"
      and t: "targetFingerprint (backend sync') = targetFingerprint (backend sync)" by simp_all
    have l': "load_state sync' w' = Some p'" using k(3) s t by (simp add: load_state_def)
    from l' r obtain w'' where run': "performSynchronization sync' w' bl' = (Completed, w'')"
      by (rule reliable_completes)
    from performSynchronization_effect(3)[OF l' run']
    obtain cs'' p'' where c: "load_state sync' w'' = Some p''"
      "lastLocalPushEpoch p' \<le> lastLocalPushEpoch p''" "lastPullEpoch p' \<le> lastPullEpoch p''"
      "bl' \<or> bootstrapComplete p' \<longrightarrow> bootstrapComplete p''"
      by blast
    from c(4) have "bl' \<longrightarrow> bootstrapComplete p''" by simp
    with run' c(1,2,3) show "\<exists>w'' p''. performSynchronization sync' w' bl' = (Completed, w'')
                    \<and> load_state sync' w'' = Some p''
                    \<and> lastLocalPushEpoch p' \<le> lastLocalPushEpoch p''
                    \<and> lastPullEpoch p' \<le> lastPullEpoch p''
                    \<and> (bl' \<longrightarrow> bootstrapComplete p'')"
      by blast
  qed
  show ?thesis
    apply (rule exI[of _ cs])
    apply (rule exI[of _ p'])
    apply (intro conjI)
    apply (rule k(1))
    apply (rule k(2))
    apply (rule k(3))
    apply (rule k(4))
    apply (rule k(5))
    apply (rule k(6))
    apply (rule k(7))
    apply (rule k(8))
    apply (rule rec)
    done
qed

theorem failed_cycle_keeps_cursors_witness:
  "load_state (memory_sync True False) first_world
     = Some \<lparr> bootstrapComplete = False, lastLocalPushEpoch = 0, lastPullEpoch = 0 \<rparr>
   \<and> performSynchronization (memory_sync True False) first_world True
       = (Rejected, world_after_failed_push)
   \<and> calls world_after_failed_push = [InitializeCall True, UpsertCall documents_a False]
   \<and> disk world_after_failed_push = disk first_world
   \<and> load_state (memory_sync True False) world_after_failed_push
       = Some \<lparr> bootstrapComplete = False, lastLocalPushEpoch = 0, lastPullEpoch = 0 \<rparr>
   \<and> reliable (backend (memory_sync False False))
   \<and> (\<exists>w'' p''. performSynchronization (memory_sync False False) world_after_failed_push True
                    = (Completed, w'')
          \<and> load_state (memory_sync False False) w'' = Some p'' \<and> bootstrapComplete p'')
   \<and> load_state (memory_sync False False)
        (snd (performSynchronization (memory_sync False False) world_after_failed_push True))
       = Some \<lparr> bootstrapComplete = True, lastLocalPushEpoch = 1500, lastPullEpoch = 1500 \<rparr>"
proof -
  let ?s = "memory_sync True False"
  let ?p = "\<lparr> bootstrapComplete = False, lastLocalPushEpoch = 0, lastPullEpoch = 0 \<rparr>"
  have l: "load_state ?s first_world = Some ?p" by (rule first_world_state)
  have run: "performSynchronization ?s first_world True = (Rejected, world_after_failed_push)"
    by (simp add: cycle_upsert_down world_after_failed_push_def)
  have c: "calls world_after_failed_push = [InitializeCall True, UpsertCall documents_a False]"
    by (simp add: world_after_failed_push_def)
  have c0: "calls first_world = []" by (simp add: first_world_def)
  from failed_cycle_keeps_cursors[OF l run]
  obtain cs p' where k: "calls world_after_failed_push = calls first_world @ cs"
    "load_state ?s world_after_failed_push = Some p'"
    "(\<forall>batch. UpsertCall batch True \<notin> set cs) \<longrightarrow> disk world_after_failed_push = disk first_world \<and> p' = ?p"
    and rec: "\<forall>sync' bootstrapLocal'.
            reliable (backend sync') \<and> statePath sync' = statePath ?s
            \<and> targetFingerprint (backend sync') = targetFingerprint (backend ?s)
            \<longrightarrow> (\<exists>w'' p''. performSynchronization sync' world_after_failed_push bootstrapLocal' = (Completed, w'')
                    \<and> load_state sync' w'' = Some p''
                    \<and> lastLocalPushEpoch p' \<le> lastLocalPushEpoch p''
                    \<and> lastPullEpoch p' \<le> lastPullEpoch p''
                    \<and> (bootstrapLocal' \<longrightarrow> bootstrapComplete p''))"
    by blast
  from k(1) c c0 have cs: "cs = [InitializeCall True, UpsertCall documents_a False]" by simp
  have "\<forall>batch. UpsertCall batch True \<notin> set cs" by (simp add: cs)
  with k(3) have d: "disk world_after_failed_push = disk first_world" and p': "p' = ?p" by simp_all
  from k(2) p' have l': "load_state ?s world_after_failed_push = Some ?p" by simp
  have r: "reliable (backend (memory_sync False False))" by (rule memory_backend_reliable)
  have same: "statePath (memory_sync False False) = statePath ?s"
    "targetFingerprint (backend (memory_sync False False)) = targetFingerprint (backend ?s)"
    by (simp_all add: memory_sync_def memory_backend_def)
  from rec r same
  have "\<exists>w'' p''. performSynchronization (memory_sync False False) world_after_failed_push True = (Completed, w'')
                    \<and> load_state (memory_sync False False) w'' = Some p''
                    \<and> lastLocalPushEpoch p' \<le> lastLocalPushEpoch p''
                    \<and> lastPullEpoch p' \<le> lastPullEpoch p''
                    \<and> (True \<longrightarrow> bootstrapComplete p'')"
    by blast
  then have g: "\<exists>w'' p''. performSynchronization (memory_sync False False) world_after_failed_push True
                    = (Completed, w'')
          \<and> load_state (memory_sync False False) w'' = Some p'' \<and> bootstrapComplete p''"
    by blast
  from l run c d l' r g cycle_recovers(2) show ?thesis by blast
qed

text \<open>
  Claim C1 as stated does not hold, because \<^verbatim>\<open>pushDocuments\<close> persists the push cursor
  after every batch that succeeds. Against a backend whose fetch rejects, the first cycle
  on \<open>first_world\<close> pushes its bootstrap and its incremental batch and is rejected in
  the pull: the persisted \<^verbatim>\<open>lastLocalPushEpoch\<close> has moved from 0 to 1500, and the state
  file, which did not exist, has been written.
\<close>

theorem failed_cycle_counterexample:
  "fst (performSynchronization (memory_sync False True) first_world True) = Rejected
   \<and> calls (snd (performSynchronization (memory_sync False True) first_world True))
       = [InitializeCall True, UpsertCall documents_a True, UpsertCall documents_a True,
          FetchCall 0 None]
   \<and> load_state (memory_sync False True) first_world
       = Some \<lparr> bootstrapComplete = False, lastLocalPushEpoch = 0, lastPullEpoch = 0 \<rparr>
   \<and> load_state (memory_sync False True)
        (snd (performSynchronization (memory_sync False True) first_world True))
       = Some \<lparr> bootstrapComplete = False, lastLocalPushEpoch = 1500, lastPullEpoch = 0 \<rparr>
   \<and> disk first_world ''state.json'' = None
   \<and> disk (snd (performSynchronization (memory_sync False True) first_world True)) ''state.json''
       \<noteq> None"
proof -
  have d0: "disk first_world ''state.json'' = None" by (simp add: first_world_def)
  have d1: "disk (snd (performSynchronization (memory_sync False True) first_world True)) ''state.json''
       \<noteq> None"
    by (simp add: example_cycle_defs)
  from cycle_fetch_down first_world_state[of False True] d0 d1 show ?thesis by blast
qed

end
